(* ===== verification/Bpf_Prelude.thy ===== *)
theory Bpf_Prelude
  imports Main "HOL-Library.Word"
begin

text \<open>
  Shared vocabulary of the development: the C integer types of the probes, the BPF map
  helpers they call (\<^verbatim>\<open>bpf_map_lookup_elem\<close>, \<^verbatim>\<open>bpf_map_update_elem\<close>,
  \<^verbatim>\<open>bpf_map_delete_elem\<close> with the flags of \<^verbatim>\<open>bpf_map.h\<close>), the contract of these helpers
  as a locale, and generic lemmas on words, bit fields and lists.

  A hash map is a partial function. A helper that changes a map takes one extra argument,
  the failure that the kernel chose for this call: a full map (E2BIG), an allocation failure
  (ENOMEM) or a nested writer holding the bucket (EBUSY). Every theorem is about all
  choices of these arguments. A one-element array map is an \<open>option\<close>: \<open>None\<close> is the
  NULL pointer of a failed lookup, which the probes check.
\<close>

unbundle bit_operations_syntax

section \<open>Integer types\<close>

type_synonym u8 = "8 word"
type_synonym u16 = "16 word"
type_synonym u32 = "32 word"
type_synonym u64 = "64 word"

named_theorems probe_simps \<open>definitions of the small helper functions of the probes\<close>
named_theorems field_simps_word \<open>projections of packed words\<close>

section \<open>BPF maps\<close>

datatype map_flag = BPF_ANY | BPF_NOEXIST | BPF_EXIST

datatype map_fault = Fault_none | Fault_E2BIG | Fault_ENOMEM | Fault_EBUSY

abbreviation (input) ENOENT :: int where "ENOENT \<equiv> 2"
abbreviation (input) E2BIG :: int where "E2BIG \<equiv> 7"
abbreviation (input) ENOMEM :: int where "ENOMEM \<equiv> 12"
abbreviation (input) EFAULT :: int where "EFAULT \<equiv> 14"
abbreviation (input) EBUSY :: int where "EBUSY \<equiv> 16"
abbreviation (input) EEXIST :: int where "EEXIST \<equiv> 17"

definition bpf_map_update_elem ::
  "map_fault \<Rightarrow> map_flag \<Rightarrow> 'k \<Rightarrow> 'v \<Rightarrow> ('k \<rightharpoonup> 'v) \<Rightarrow> int \<times> ('k \<rightharpoonup> 'v)" where
  "bpf_map_update_elem f flag k v m =
     (if f = Fault_EBUSY then (- EBUSY, m)
      else if flag = BPF_NOEXIST \<and> m k \<noteq> None then (- EEXIST, m)
      else if flag = BPF_EXIST \<and> m k = None then (- ENOENT, m)
      else if f = Fault_ENOMEM then (- ENOMEM, m)
      else if f = Fault_E2BIG \<and> m k = None then (- E2BIG, m)
      else (0, m(k \<mapsto> v)))"

definition bpf_map_delete_elem :: "map_fault \<Rightarrow> 'k \<Rightarrow> ('k \<rightharpoonup> 'v) \<Rightarrow> int \<times> ('k \<rightharpoonup> 'v)" where
  "bpf_map_delete_elem f k m =
     (if f = Fault_EBUSY then (- EBUSY, m)
      else if m k = None then (- ENOENT, m)
      else (0, m(k := None)))"

text \<open>
  What the probes rely on: a zero result means the write happened, any other result is a
  negative errno and leaves the map alone, and no helper touches another key.
\<close>

locale bpf_map_ops =
  fixes update :: "map_fault \<Rightarrow> map_flag \<Rightarrow> 'k \<Rightarrow> 'v \<Rightarrow> ('k \<rightharpoonup> 'v) \<Rightarrow> int \<times> ('k \<rightharpoonup> 'v)"
    and delete :: "map_fault \<Rightarrow> 'k \<Rightarrow> ('k \<rightharpoonup> 'v) \<Rightarrow> int \<times> ('k \<rightharpoonup> 'v)"
  assumes update_ok: "fst (update f flag k v m) = 0 \<Longrightarrow> snd (update f flag k v m) = m(k \<mapsto> v)"
    and update_err: "fst (update f flag k v m) \<noteq> 0 \<Longrightarrow> snd (update f flag k v m) = m"
    and update_errno: "fst (update f flag k v m) \<le> 0"
    and update_free: "update Fault_none BPF_NOEXIST k v (m(k := None)) = (0, m(k \<mapsto> v))"
    and update_any: "update Fault_none BPF_ANY k v m = (0, m(k \<mapsto> v))"
    and update_taken: "m k \<noteq> None \<Longrightarrow> fst (update f BPF_NOEXIST k v m) \<noteq> 0"
    and update_eexist: "fst (update f flag k v m) = - EEXIST \<Longrightarrow> m k \<noteq> None"
    and delete_ok: "fst (delete f k m) = 0 \<Longrightarrow> snd (delete f k m) = m(k := None)"
    and delete_err: "fst (delete f k m) \<noteq> 0 \<Longrightarrow> snd (delete f k m) = m"
    and delete_errno: "fst (delete f k m) \<le> 0"
    and delete_enoent: "fst (delete f k m) = - ENOENT \<Longrightarrow> m k = None"
begin

lemma update_cases:
  obtains (ok) "update f flag k v m = (0, m(k \<mapsto> v))"
    | (err) e where "update f flag k v m = (e, m)" "e < 0"
proof (cases "fst (update f flag k v m) = 0")
  case True
  with update_ok [OF True] have "update f flag k v m = (0, m(k \<mapsto> v))"
    by (metis prod.collapse)
  then show ?thesis by (rule ok)
next
  case False
  with update_err [OF False] have "update f flag k v m = (fst (update f flag k v m), m)"
    by (metis prod.collapse)
  moreover have "fst (update f flag k v m) < 0"
    using False update_errno [of f flag k v m] by linarith
  ultimately show ?thesis by (rule err)
qed

lemma delete_cases:
  obtains (ok) "delete f k m = (0, m(k := None))"
    | (err) e where "delete f k m = (e, m)" "e < 0"
proof (cases "fst (delete f k m) = 0")
  case True
  with delete_ok [OF True] have "delete f k m = (0, m(k := None))"
    by (metis prod.collapse)
  then show ?thesis by (rule ok)
next
  case False
  with delete_err [OF False] have "delete f k m = (fst (delete f k m), m)"
    by (metis prod.collapse)
  moreover have "fst (delete f k m) < 0"
    using False delete_errno [of f k m] by linarith
  ultimately show ?thesis by (rule err)
qed

lemma update_other: "j \<noteq> k \<Longrightarrow> snd (update f flag k v m) j = m j"
  by (rule update_cases [of f flag k v m]) auto

lemma delete_other: "j \<noteq> k \<Longrightarrow> snd (delete f k m) j = m j"
  by (rule delete_cases [of f k m]) auto

lemma update_range: "snd (update f flag k v m) j = Some w \<Longrightarrow> w = v \<or> m j = Some w"
  by (rule update_cases [of f flag k v m]) (auto split: if_splits)

lemma delete_le: "snd (delete f k m) j = Some w \<Longrightarrow> m j = Some w"
  by (rule delete_cases [of f k m]) (auto split: if_splits)

end

interpretation bmap: bpf_map_ops bpf_map_update_elem bpf_map_delete_elem
  by unfold_locales
    (auto simp: bpf_map_update_elem_def bpf_map_delete_elem_def split: if_splits)

lemma bpf_map_update_elem_none [simp]:
  "bpf_map_update_elem Fault_none BPF_ANY k v m = (0, m(k \<mapsto> v))"
  "m k = None \<Longrightarrow> bpf_map_update_elem Fault_none BPF_NOEXIST k v m = (0, m(k \<mapsto> v))"
  "m k \<noteq> None \<Longrightarrow> bpf_map_update_elem Fault_none BPF_NOEXIST k v m = (- 17, m)"
  "m k \<noteq> None \<Longrightarrow> bpf_map_update_elem Fault_none BPF_EXIST k v m = (0, m(k \<mapsto> v))"
  by (simp_all add: bpf_map_update_elem_def)

lemma bpf_map_delete_elem_none [simp]:
  "m k \<noteq> None \<Longrightarrow> bpf_map_delete_elem Fault_none k m = (0, m(k := None))"
  "m k = None \<Longrightarrow> bpf_map_delete_elem Fault_none k m = (- 2, m)"
  by (simp_all add: bpf_map_delete_elem_def)

section \<open>Words\<close>

lemmas word_cmp_nat = word_le_nat_alt word_less_nat_alt

lemma one_le_word [simp]: "1 \<le> x \<longleftrightarrow> x \<noteq> 0" for x :: "'a::len word"
  by (simp add: word_le_nat_alt Suc_le_eq unat_gt_0)

lemma unat_Suc_below:
  fixes x y :: "'a::len word"
  assumes "x < y"
  shows "unat (x + 1) = Suc (unat x)"
proof -
  have "unat x < unat y" using assms by (simp add: word_less_nat_alt)
  moreover have "unat y < 2 ^ LENGTH('a)" by simp
  ultimately have "unat x + 1 < 2 ^ LENGTH('a)" by linarith
  then show ?thesis by (simp add: unat_word_ariths)
qed

lemma unat_take_bit_mod: "unat (take_bit n w) = unat w mod 2 ^ n" for w :: "'a::len word"
  by (simp only: unsigned_take_bit_eq take_bit_eq_mod [where 'a = nat])

lemma unat_drop_bit_div: "unat (drop_bit n w) = unat w div 2 ^ n" for w :: "'a::len word"
  by (simp only: unat_drop_bit_eq drop_bit_eq_div [where 'a = nat])

lemma unat_bound64: "unat (w :: u64) < 18446744073709551616"
  using unsigned_less [of w, where 'a = nat] by simp

lemma unat_bound32: "unat (w :: u32) < 4294967296"
  using unsigned_less [of w, where 'a = nat] by simp

subsection \<open>Packed fields\<close>

text \<open>A word built as \<open>hi << n | lo\<close> with the low field already masked.\<close>

lemma take_bit_field [field_simps_word]:
  "take_bit n (push_bit n c OR take_bit n w) = take_bit n w" for c w :: "'a::len word"
  by (rule bit_eqI) (auto simp: bit_simps)

lemma drop_bit_field [field_simps_word]:
  "n \<le> LENGTH('a) \<Longrightarrow> drop_bit n (push_bit n c OR take_bit n w) = take_bit (LENGTH('a) - n) c"
  for c w :: "'a::len word"
  by (rule bit_eqI) (auto simp: bit_simps dest: bit_imp_le_length)

lemma unat_field_lo:
  "unat (push_bit n c OR take_bit n w) mod 2 ^ n = unat w mod 2 ^ n" for c w :: "'a::len word"
proof -
  have "unat (take_bit n (push_bit n c OR take_bit n w)) = unat (take_bit n w)"
    by (simp only: take_bit_field)
  then show ?thesis by (simp only: unat_take_bit_mod)
qed

lemma unat_field_hi:
  fixes c w :: "'a::len word"
  assumes "n \<le> LENGTH('a)"
  shows "unat (push_bit n c OR take_bit n w) div 2 ^ n = unat c mod 2 ^ (LENGTH('a) - n)"
proof -
  have "unat (drop_bit n (push_bit n c OR take_bit n w)) = unat (take_bit (LENGTH('a) - n) c)"
    by (simp only: drop_bit_field [OF assms])
  then show ?thesis by (simp only: unat_take_bit_mod unat_drop_bit_div)
qed

lemma word_mask_shift: "push_bit n 1 - 1 = (mask n :: 'a::len word)"
  by (simp add: mask_eq_exp_minus_1 push_bit_eq_mult)

text \<open>Two 32-bit halves of a 64-bit word.\<close>

lemma ucast_take32: "(ucast (w :: u32) :: u64) = take_bit 32 (ucast w)"
  by (rule bit_eqI) (auto simp: bit_simps dest: bit_imp_le_length)

lemma halves_hi: "ucast (drop_bit 32 (push_bit 32 (ucast a) OR ucast b :: u64)) = a" for a b :: u32
  by (rule bit_eqI) (auto simp: bit_simps dest: bit_imp_le_length)

lemma halves_lo: "ucast (push_bit 32 (ucast a) OR ucast b :: u64) = b" for a b :: u32
  by (rule bit_eqI) (auto simp: bit_simps dest: bit_imp_le_length)

section \<open>Kernel memory\<close>

text \<open>A field of kernel objects is a partial function of their address, \<open>None\<close> being a
  faulting read; \<^verbatim>\<open>BPF_CORE_READ\<close> then yields zero.\<close>

definition core_read :: "('a \<Rightarrow> 'b::zero option) \<Rightarrow> 'a \<Rightarrow> 'b" where
  "core_read field p = (case field p of None \<Rightarrow> 0 | Some v \<Rightarrow> v)"

lemma core_read_Some [simp]: "f p = Some v \<Longrightarrow> core_read f p = v"
  and core_read_None [simp]: "f p = None \<Longrightarrow> core_read f p = 0"
  by (simp_all add: core_read_def)

text \<open>The buffer of 127 entries that \<^verbatim>\<open>bpf_get_stack\<close> fills: the captured frames, innermost first, and
  zeroes in the rest. The helper clears what it does not write, after an error the whole buffer.\<close>

definition stack_buffer :: "u64 list \<Rightarrow> u64 list" where
  "stack_buffer frames = take 127 (frames @ replicate 127 0)"

text \<open>The bytes of a string read into a zeroed buffer, and \<^verbatim>\<open>bpf_probe_read_str\<close>: the length
  with the terminator and the bytes before it, both cut to the buffer, or \<open>None\<close> for a fault.\<close>

definition name_byte :: "string \<Rightarrow> nat \<Rightarrow> char" where
  "name_byte n i = (if i < length n then n ! i else CHR 0x00)"

definition probe_read_str :: "(u64 \<Rightarrow> string option) \<Rightarrow> nat \<Rightarrow> u64 \<Rightarrow> (nat \<times> string) option" where
  "probe_read_str str len p =
     map_option (\<lambda>n. (min (length n + 1) len, take (len - 1) n)) (str p)"

text \<open>A string stored in a buffer of \<open>len\<close> bytes: the bytes after the terminator stay, and a fault
  clears the buffer.\<close>

definition store_str :: "nat \<Rightarrow> (nat \<times> string) option \<Rightarrow> string \<Rightarrow> string" where
  "store_str len res buf =
     (case res of None \<Rightarrow> replicate len (CHR 0x00)
      | Some (_, n) \<Rightarrow> n @ CHR 0x00 # drop (length n + 1) buf)"

section \<open>Per-CPU counters\<close>

lemma sum_counter: "(\<Sum>c \<in> UNIV. (f(cpu := f cpu + 1)) c) = (\<Sum>c \<in> UNIV. f c) + 1" for f :: "u32 \<Rightarrow> u64"
proof -
  have "(\<Sum>c \<in> UNIV. (f(cpu := f cpu + 1)) c) = (\<Sum>c \<in> UNIV. f c + (if c = cpu then 1 else 0))"
    by (rule sum.cong) auto
  then show ?thesis by (simp add: sum.distrib)
qed

section \<open>Rows of a table\<close>

text \<open>A table of which a firing changes only the rows it touches, in all states of an invariant.\<close>

locale touched_rows =
  fixes step :: "'e \<Rightarrow> 's \<Rightarrow> 's"
    and rows :: "'s \<Rightarrow> 't \<Rightarrow> 'v"
    and touches :: "'e \<Rightarrow> 't \<Rightarrow> bool"
    and inv :: "'s \<Rightarrow> bool"
  assumes untouched: "inv s \<Longrightarrow> \<not> touches e t \<Longrightarrow> rows (step e s) t = rows s t"
    and inv_kept: "inv s \<Longrightarrow> inv (step e s)"
begin

lemma row_kept: "inv s \<Longrightarrow> list_all (\<lambda>e. \<not> touches e t) es \<Longrightarrow> rows (fold step es s) t = rows s t"
  by (induction es arbitrary: s) (simp_all add: untouched inv_kept)

end

text \<open>A map of calls in progress: only its own thread changes a call.\<close>

locale thread_calls =
  fixes step :: "'e \<Rightarrow> 's \<Rightarrow> 's"
    and calls :: "'s \<Rightarrow> 't \<Rightarrow> 'v option"
    and caller :: "'e \<Rightarrow> 't option"
  assumes keeps: "caller e \<noteq> Some t \<Longrightarrow> calls (step e s) t = calls s t"

sublocale thread_calls \<subseteq> call: touched_rows step calls "\<lambda>e t. caller e = Some t" "\<lambda>_. True"
  by unfold_locales (simp_all add: keeps)

context thread_calls
begin

lemma entry_meets_return:
  "calls (step e s) t = Some v \<Longrightarrow> list_all (\<lambda>e. caller e \<noteq> Some t) es \<Longrightarrow>
   calls (fold step (e # es) s) t = Some v"
  by (simp add: call.row_kept)

end

section \<open>Ledgers\<close>

text \<open>
  A quantity held by a state that a step raises by at most the credit of its event. Held
  quantities are sums of what was counted and what is still in flight, so that a bound on
  a run bounds what can have been counted.
\<close>

locale ledger =
  fixes step :: "'e \<Rightarrow> 's \<Rightarrow> 's" and credit :: "'e \<Rightarrow> nat" and held :: "'s \<Rightarrow> nat"
    and inv :: "'s \<Rightarrow> bool"
  assumes held_step: "inv s \<Longrightarrow> held (step e s) \<le> held s + credit e"
    and inv_step: "inv s \<Longrightarrow> inv (step e s)"
begin

lemma inv_run: "inv s \<Longrightarrow> inv (fold step es s)"
  by (induction es arbitrary: s) (simp_all add: inv_step)

lemma held_run: "inv s \<Longrightarrow> held (fold step es s) \<le> held s + sum_list (map credit es)"
proof (induction es arbitrary: s)
  case (Cons e es)
  have "held (fold step es (step e s)) \<le> held (step e s) + sum_list (map credit es)"
    by (rule Cons.IH [OF inv_step [OF Cons.prems]])
  also have "\<dots> \<le> held s + credit e + sum_list (map credit es)"
    using held_step [OF Cons.prems, of e] by simp
  finally show ?case by (simp add: add.assoc)
qed simp

end

end
