(* ===== verification/Ratelimit.thy ===== *)
theory Ratelimit
  imports Bpf_Prelude
begin

text \<open>
  The rate limiters of \<^verbatim>\<open>bpf/include/bpf_ratelimit.h\<close>: the lockless per-CPU window
  limiter \<open>bpf_percpu_ratelimited_ns\<close>, the shared limiter \<open>bpf_ratelimited\<close> with its
  totals, and \<open>bpf_ratelimited_core_in_map\<close>, which configures a limiter held in a map and
  reports misses on a perf channel. The clock reading \<^verbatim>\<open>bpf_ktime_get_ns()\<close> of a call is an
  argument. The windows contract that both limiters satisfy is the locale
  \<open>window_limiter\<close>; the admission bound is proved there once.
\<close>

section \<open>Model\<close>

record bpf_percpu_ratelimit_state =
  pc_window_start_ns :: u64
  pc_events_in_window :: u32

definition bpf_percpu_ratelimited_ns ::
  "bpf_percpu_ratelimit_state option \<Rightarrow> u64 \<Rightarrow> u32 \<Rightarrow> u64 \<Rightarrow>
     bool \<times> bpf_percpu_ratelimit_state option" where
  "bpf_percpu_ratelimited_ns state interval_ns burst now_ns =
     (case state of
        None \<Rightarrow> (False, None)
      | Some st \<Rightarrow>
          if interval_ns = 0 then (False, Some st)
          else
            let st1 = (if pc_window_start_ns st = 0 \<or>
                          interval_ns \<le> now_ns - pc_window_start_ns st
                       then st\<lparr>pc_window_start_ns := now_ns, pc_events_in_window := 0\<rparr>
                       else st)
            in if burst \<le> pc_events_in_window st1 then (True, Some st1)
               else (False, Some (st1\<lparr>pc_events_in_window := pc_events_in_window st1 + 1\<rparr>)))"

record bpf_ratelimit_event =
  interval_ns :: u64
  window_start_ns :: u64
  burst :: u64
  max_burst :: u64
  events_in_window :: u64
  missed_in_window :: u64
  total_events :: u64
  total_missed :: u64
  total_elapsed_ns :: u64

definition bpf_ratelimited ::
  "bpf_ratelimit_event option \<Rightarrow> u64 \<Rightarrow> bool \<times> bpf_ratelimit_event option" where
  "bpf_ratelimited rate now_ns =
     (case rate of
        None \<Rightarrow> (False, None)
      | Some r \<Rightarrow>
          if interval_ns r = 0 then (False, Some r)
          else
            let r1 = (if window_start_ns r = 0 then r\<lparr>window_start_ns := now_ns\<rparr> else r);
                elapsed_ns = now_ns - window_start_ns r1;
                r2 = (if interval_ns r1 \<le> elapsed_ns
                      then r1\<lparr>total_elapsed_ns := total_elapsed_ns r1 + elapsed_ns,
                              window_start_ns := now_ns,
                              events_in_window := 0,
                              missed_in_window := 0\<rparr>
                      else r1)
            in if events_in_window r2 < burst r2
               then (False, Some (r2\<lparr>events_in_window := events_in_window r2 + 1,
                                     total_events := total_events r2 + 1\<rparr>))
               else (True, Some (r2\<lparr>missed_in_window := missed_in_window r2 + 1,
                                    total_missed := total_missed r2 + 1\<rparr>)))"

text \<open>The result of the in-map limiter: limited or not, the new map value, and the value
  submitted on the perf channel, if any.\<close>

definition bpf_ratelimited_core_in_map ::
  "bpf_ratelimit_event option \<Rightarrow> bpf_ratelimit_event \<Rightarrow> u64 \<Rightarrow>
     bool \<times> bpf_ratelimit_event option \<times> bpf_ratelimit_event option" where
  "bpf_ratelimited_core_in_map elem cfg now_ns =
     (case elem of
        None \<Rightarrow> (False, None, None)
      | Some rate \<Rightarrow>
          let rate1 = (if interval_ns rate = 0
                       then rate\<lparr>interval_ns := interval_ns cfg, burst := burst cfg,
                                 max_burst := max_burst cfg\<rparr>
                       else rate);
              old_missed = missed_in_window rate1
          in case bpf_ratelimited (Some rate1) now_ns of
               (False, rate2) \<Rightarrow> (False, rate2, None)
             | (True, None) \<Rightarrow> (True, None, None)
             | (True, Some rate2) \<Rightarrow>
                 (True, Some rate2,
                  if old_missed = 0 \<or>
                     (0 < max_burst rate2 \<and> max_burst rate2 - burst rate2 < missed_in_window rate2)
                  then Some rate2 else None))"

definition bpf_ratelimited_in_map_rc ::
  "u64 \<Rightarrow> u64 \<Rightarrow> u64 \<Rightarrow> bpf_ratelimit_event option \<Rightarrow> u64 \<Rightarrow>
     bool \<times> bpf_ratelimit_event option \<times> bpf_ratelimit_event option" where
  "bpf_ratelimited_in_map_rc rlimit_interval_ns rlimit_burst rlimit_max_burst elem now_ns =
     (if rlimit_interval_ns \<noteq> 0
      then bpf_ratelimited_core_in_map elem
             \<lparr>interval_ns = rlimit_interval_ns, window_start_ns = 0, burst = rlimit_burst,
              max_burst = rlimit_max_burst, events_in_window = 0, missed_in_window = 0,
              total_events = 0, total_missed = 0, total_elapsed_ns = 0\<rparr> now_ns
      else (False, elem, None))"

text \<open>The static initialiser \<^verbatim>\<open>BPF_RATELIMIT(name, interval_ns, burst)\<close>.\<close>

definition BPF_RATELIMIT :: "u64 \<Rightarrow> u64 \<Rightarrow> bpf_ratelimit_event" where
  "BPF_RATELIMIT i b =
     \<lparr>interval_ns = i, window_start_ns = 0, burst = b, max_burst = 0, events_in_window = 0,
      missed_in_window = 0, total_events = 0, total_missed = 0, total_elapsed_ns = 0\<rparr>"

text \<open>A sequence of calls at the given clock readings, with the answers in order.\<close>

fun limiter_run :: "('s \<Rightarrow> u64 \<Rightarrow> bool \<times> 's) \<Rightarrow> 's \<Rightarrow> u64 list \<Rightarrow> bool list \<times> 's" where
  "limiter_run call s [] = ([], s)"
| "limiter_run call s (t # ts) =
     (let (r, s1) = call s t; (rs, s2) = limiter_run call s1 ts in (r # rs, s2))"

definition admitted :: "bool list \<Rightarrow> nat" where
  "admitted rs = length (filter Not rs)"

section \<open>The window contract\<close>

lemma limiter_run_Cons_admitted:
  "admitted (fst (limiter_run call s (t # ts))) =
     (if fst (call s t) then 0 else 1) + admitted (fst (limiter_run call (snd (call s t)) ts))"
  by (simp add: admitted_def Let_def case_prod_beta)

lemma sorted_bounds:
  assumes "sorted (map unat (t # ts))"
  shows "\<forall>u \<in> set ts. unat t \<le> unat u" and "\<forall>u \<in> set ts. unat u \<le> unat (last (t # ts))"
proof -
  show "\<forall>u \<in> set ts. unat t \<le> unat u" using assms by simp
  show "\<forall>u \<in> set ts. unat u \<le> unat (last (t # ts))"
    using assms
  proof (induction ts arbitrary: t)
    case (Cons v ts)
    then show ?case by (cases ts) auto
  qed simp
qed

locale window_limiter =
  fixes call :: "'s \<Rightarrow> u64 \<Rightarrow> bool \<times> 's"
    and wstart :: "'s \<Rightarrow> nat"
    and used :: "'s \<Rightarrow> nat"
    and interval :: nat
    and budget :: nat
    and inv :: "'s \<Rightarrow> bool"
  assumes inv_call: "inv s \<Longrightarrow> t \<noteq> 0 \<Longrightarrow> inv (snd (call s t))"
    and inv_used: "inv s \<Longrightarrow> used s \<le> budget"
    and inv_interval: "inv s \<Longrightarrow> 0 < interval"
    and new_window: "inv s \<Longrightarrow> wstart s + interval \<le> unat t \<Longrightarrow>
          fst (call s t) = (budget = 0) \<and> wstart (snd (call s t)) = unat t \<and>
          used (snd (call s t)) = min 1 budget"
    and same_window: "inv s \<Longrightarrow> wstart s \<le> unat t \<Longrightarrow> unat t < wstart s + interval \<Longrightarrow>
          fst (call s t) = (budget \<le> used s) \<and> wstart (snd (call s t)) = wstart s \<and>
          used (snd (call s t)) = (if used s < budget then Suc (used s) else used s)"
begin

lemma limiter_run_length: "length (fst (limiter_run call s ts)) = length ts"
  by (induction ts arbitrary: s) (simp_all add: Let_def case_prod_beta)

text \<open>From a state inside an open window: what is left of that window, plus one budget
  per further full interval.\<close>

lemma run_bound:
  assumes "inv s" and "sorted (map unat ts)" and "\<forall>t \<in> set ts. t \<noteq> 0 \<and> wstart s \<le> unat t"
    and "\<forall>t \<in> set ts. unat t \<le> T"
  shows "admitted (fst (limiter_run call s ts)) \<le>
         (budget - used s) + budget * ((T - wstart s) div interval)"
  using assms
proof (induction ts arbitrary: s)
  case Nil
  then show ?case by (simp add: admitted_def)
next
  case (Cons t ts)
  let ?s = "snd (call s t)"
  let ?I = interval
  have I: "0 < ?I" using Cons.prems(1) inv_interval by blast
  have inv': "inv ?s" using Cons.prems inv_call by simp
  have le: "wstart s \<le> unat t" "unat t \<le> T" using Cons.prems by auto
  have srt: "sorted (map unat ts)" "\<forall>u \<in> set ts. unat t \<le> unat u" using Cons.prems(2) by auto
  have split: "admitted (fst (limiter_run call s (t # ts))) =
      (if fst (call s t) then 0 else 1) + admitted (fst (limiter_run call ?s ts))"
    by (auto simp: admitted_def split: prod.splits)
  have ih: "admitted (fst (limiter_run call ?s ts)) \<le>
      (budget - used ?s) + budget * ((T - wstart ?s) div ?I)"
    if "wstart ?s \<le> unat t"
  proof (rule Cons.IH [OF inv' srt(1)])
    show "\<forall>u \<in> set ts. u \<noteq> 0 \<and> wstart ?s \<le> unat u"
      using Cons.prems(3) srt(2) that by fastforce
    show "\<forall>u \<in> set ts. unat u \<le> T" using Cons.prems(4) by simp
  qed
  show ?case
  proof (cases "wstart s + ?I \<le> unat t")
    case True
    note new = new_window [OF Cons.prems(1) True]
    have "(T - unat t) div ?I + 1 \<le> (T - wstart s) div ?I"
    proof -
      have "(T - unat t) + ?I \<le> T - wstart s" using True le by linarith
      then have "((T - unat t) + ?I) div ?I \<le> (T - wstart s) div ?I" by (rule div_le_mono)
      then show ?thesis using I by (simp add: div_add_self2)
    qed
    then have "budget * ((T - unat t) div ?I) + budget \<le> budget * ((T - wstart s) div ?I)"
      by (metis add_mult_distrib2 mult.right_neutral mult_le_mono2)
    moreover have "admitted (fst (limiter_run call ?s ts)) \<le>
        (budget - min 1 budget) + budget * ((T - unat t) div ?I)"
      using ih new by simp
    ultimately show ?thesis using new split by (cases "budget = 0") auto
  next
    case False
    then have lt: "unat t < wstart s + ?I" by simp
    note same = same_window [OF Cons.prems(1) le(1) lt]
    have "admitted (fst (limiter_run call ?s ts)) \<le>
        (budget - used ?s) + budget * ((T - wstart s) div ?I)"
      using ih same le by simp
    then show ?thesis using same split by (cases "used s < budget") auto
  qed
qed

text \<open>From a state whose first call opens a window.\<close>

lemma fresh_bound:
  assumes "inv (snd (call s t))" and "wstart (snd (call s t)) = unat t"
    and "used (snd (call s t)) = min 1 budget" and "fst (call s t) = (budget = 0)"
    and "sorted (map unat (t # ts))" and "0 \<notin> set (t # ts)"
  shows "admitted (fst (limiter_run call s (t # ts))) \<le>
         budget * ((unat (last (t # ts)) - unat t) div interval + 1)"
proof -
  have "admitted (fst (limiter_run call (snd (call s t)) ts)) \<le>
      (budget - min 1 budget) + budget * ((unat (last (t # ts)) - unat t) div interval)"
  proof -
    have "\<forall>u \<in> set ts. u \<noteq> 0 \<and> wstart (snd (call s t)) \<le> unat u"
      using assms(2,5,6) by auto
    from run_bound [OF assms(1) _ this, of "unat (last (t # ts))"] show ?thesis
      using assms(2,3,5) sorted_bounds(2) [OF assms(5)] by simp
  qed
  then show ?thesis
    using assms(4) by (cases "budget = 0")
      (auto simp: limiter_run_Cons_admitted simp del: limiter_run.simps)
qed

end

section \<open>Both limiters satisfy the contract\<close>

definition percpu_call ::
  "u64 \<Rightarrow> u32 \<Rightarrow> bpf_percpu_ratelimit_state \<Rightarrow> u64 \<Rightarrow> bool \<times> bpf_percpu_ratelimit_state" where
  "percpu_call i b s t =
     (let (r, s') = bpf_percpu_ratelimited_ns (Some s) i b t in (r, the s'))"

definition ratelimited_call :: "bpf_ratelimit_event \<Rightarrow> u64 \<Rightarrow> bool \<times> bpf_ratelimit_event" where
  "ratelimited_call r t = (let (l, r') = bpf_ratelimited (Some r) t in (l, the r'))"

definition percpu_inv :: "u64 \<Rightarrow> u32 \<Rightarrow> bpf_percpu_ratelimit_state \<Rightarrow> bool" where
  "percpu_inv i b s \<longleftrightarrow> i \<noteq> 0 \<and> pc_window_start_ns s \<noteq> 0 \<and> pc_events_in_window s \<le> b"

definition ratelimit_inv :: "u64 \<Rightarrow> u64 \<Rightarrow> bpf_ratelimit_event \<Rightarrow> bool" where
  "ratelimit_inv i b r \<longleftrightarrow>
     i \<noteq> 0 \<and> interval_ns r = i \<and> burst r = b \<and> window_start_ns r \<noteq> 0 \<and> events_in_window r \<le> b"

lemma window_closed_iff:
  "w \<le> t \<Longrightarrow> i \<le> t - w \<longleftrightarrow> unat w + unat i \<le> unat t" for t w i :: u64
  by (auto simp: word_le_nat_alt unat_sub_if')

lemma window_closed:
  "unat w + unat i \<le> unat t \<Longrightarrow> i \<le> t - w" for t w i :: u64
  by (subst window_closed_iff) (auto simp: word_le_nat_alt)

lemma percpu_call_new:
  assumes "percpu_inv i b s" "unat (pc_window_start_ns s) + unat i \<le> unat t"
  shows "percpu_call i b s t =
    (b = 0, s\<lparr>pc_window_start_ns := t, pc_events_in_window := (if b = 0 then 0 else 1)\<rparr>)"
  using assms window_closed [OF assms(2)]
  by (auto simp: percpu_call_def bpf_percpu_ratelimited_ns_def percpu_inv_def Let_def)

lemma percpu_call_same:
  assumes "percpu_inv i b s" "unat (pc_window_start_ns s) \<le> unat t"
    "unat t < unat (pc_window_start_ns s) + unat i"
  shows "percpu_call i b s t =
    (if b \<le> pc_events_in_window s then (True, s)
     else (False, s\<lparr>pc_events_in_window := pc_events_in_window s + 1\<rparr>))"
proof -
  have "\<not> i \<le> t - pc_window_start_ns s"
    using assms(2,3) by (subst window_closed_iff) (auto simp: word_le_nat_alt)
  then show ?thesis using assms(1)
    by (auto simp: percpu_call_def bpf_percpu_ratelimited_ns_def percpu_inv_def Let_def)
qed

interpretation pcl: window_limiter
  "percpu_call i b" "\<lambda>s. unat (pc_window_start_ns s)" "\<lambda>s. unat (pc_events_in_window s)"
  "unat i" "unat b" "percpu_inv i b"
  for i :: u64 and b :: u32
proof unfold_locales
  fix s :: bpf_percpu_ratelimit_state and t :: u64
  assume inv: "percpu_inv i b s"
  show "unat (pc_events_in_window s) \<le> unat b" and "0 < unat i"
    using inv by (auto simp: percpu_inv_def word_le_nat_alt unat_gt_0)
  show "percpu_inv i b (snd (percpu_call i b s t))" if "t \<noteq> 0"
    using inv that
    by (auto simp: percpu_call_def bpf_percpu_ratelimited_ns_def percpu_inv_def Let_def
        word_gt_0 inc_le not_le split: if_splits)
  show "fst (percpu_call i b s t) = (unat b = 0) \<and>
      unat (pc_window_start_ns (snd (percpu_call i b s t))) = unat t \<and>
      unat (pc_events_in_window (snd (percpu_call i b s t))) = min 1 (unat b)"
    if "unat (pc_window_start_ns s) + unat i \<le> unat t"
    using percpu_call_new [OF inv that]
    by (auto simp: unat_eq_0 min_def Suc_le_eq unat_gt_0)
  show "fst (percpu_call i b s t) = (unat b \<le> unat (pc_events_in_window s)) \<and>
      unat (pc_window_start_ns (snd (percpu_call i b s t))) = unat (pc_window_start_ns s) \<and>
      unat (pc_events_in_window (snd (percpu_call i b s t))) =
        (if unat (pc_events_in_window s) < unat b then Suc (unat (pc_events_in_window s))
         else unat (pc_events_in_window s))"
    if "unat (pc_window_start_ns s) \<le> unat t" "unat t < unat (pc_window_start_ns s) + unat i"
    using percpu_call_same [OF inv that] unat_Suc_below [of "pc_events_in_window s" b]
    by (auto simp: word_le_nat_alt word_less_nat_alt)
qed

lemma ratelimited_call_new:
  assumes "ratelimit_inv i b r" "unat (window_start_ns r) + unat i \<le> unat t"
  shows "fst (ratelimited_call r t) = (b = 0)"
    and "window_start_ns (snd (ratelimited_call r t)) = t"
    and "events_in_window (snd (ratelimited_call r t)) = (if b = 0 then 0 else 1)"
  using assms window_closed [OF assms(2)]
  by (auto simp: ratelimited_call_def bpf_ratelimited_def ratelimit_inv_def Let_def word_gt_0)

lemma ratelimited_call_same:
  assumes "ratelimit_inv i b r" "unat (window_start_ns r) \<le> unat t"
    "unat t < unat (window_start_ns r) + unat i"
  shows "fst (ratelimited_call r t) = (b \<le> events_in_window r)"
    and "window_start_ns (snd (ratelimited_call r t)) = window_start_ns r"
    and "events_in_window (snd (ratelimited_call r t)) =
           (if events_in_window r < b then events_in_window r + 1 else events_in_window r)"
proof -
  have "\<not> i \<le> t - window_start_ns r"
    using assms(2,3) by (subst window_closed_iff) (auto simp: word_le_nat_alt)
  then show "fst (ratelimited_call r t) = (b \<le> events_in_window r)"
    and "window_start_ns (snd (ratelimited_call r t)) = window_start_ns r"
    and "events_in_window (snd (ratelimited_call r t)) =
           (if events_in_window r < b then events_in_window r + 1 else events_in_window r)"
    using assms(1)
    by (auto simp: ratelimited_call_def bpf_ratelimited_def ratelimit_inv_def Let_def)
qed

lemma ratelimited_call_inv:
  "ratelimit_inv i b r \<Longrightarrow> t \<noteq> 0 \<Longrightarrow> ratelimit_inv i b (snd (ratelimited_call r t))"
  by (auto simp: ratelimited_call_def bpf_ratelimited_def ratelimit_inv_def Let_def inc_le
      split: if_splits)

interpretation rl: window_limiter
  ratelimited_call "\<lambda>r. unat (window_start_ns r)" "\<lambda>r. unat (events_in_window r)"
  "unat i" "unat b" "ratelimit_inv i b"
  for i b :: u64
proof unfold_locales
  fix r :: bpf_ratelimit_event and t :: u64
  assume inv: "ratelimit_inv i b r"
  show "unat (events_in_window r) \<le> unat b" and "0 < unat i"
    using inv by (auto simp: ratelimit_inv_def word_le_nat_alt unat_gt_0)
  show "ratelimit_inv i b (snd (ratelimited_call r t))" if "t \<noteq> 0"
    using inv that by (rule ratelimited_call_inv)
  show "fst (ratelimited_call r t) = (unat b = 0) \<and>
      unat (window_start_ns (snd (ratelimited_call r t))) = unat t \<and>
      unat (events_in_window (snd (ratelimited_call r t))) = min 1 (unat b)"
    if "unat (window_start_ns r) + unat i \<le> unat t"
    using ratelimited_call_new [OF inv that]
    by (auto simp: unat_eq_0 min_def Suc_le_eq unat_gt_0)
  show "fst (ratelimited_call r t) = (unat b \<le> unat (events_in_window r)) \<and>
      unat (window_start_ns (snd (ratelimited_call r t))) = unat (window_start_ns r) \<and>
      unat (events_in_window (snd (ratelimited_call r t))) =
        (if unat (events_in_window r) < unat b then Suc (unat (events_in_window r))
         else unat (events_in_window r))"
    if "unat (window_start_ns r) \<le> unat t" "unat t < unat (window_start_ns r) + unat i"
    using ratelimited_call_same [OF inv that] unat_Suc_below [of "events_in_window r" b]
    by (auto simp: word_le_nat_alt word_less_nat_alt)
qed

lemma ratelimited_call_first:
  assumes "window_start_ns r = 0" "events_in_window r = 0" "interval_ns r = i" "i \<noteq> 0" "t \<noteq> 0"
  shows "ratelimit_inv i (burst r) (snd (ratelimited_call r t))"
    and "window_start_ns (snd (ratelimited_call r t)) = t"
    and "unat (events_in_window (snd (ratelimited_call r t))) = min 1 (unat (burst r))"
    and "fst (ratelimited_call r t) = (burst r = 0)"
  using assms
  by (auto simp: ratelimited_call_def bpf_ratelimited_def ratelimit_inv_def Let_def word_gt_0
      min_def Suc_le_eq unat_gt_0 inc_le)

lemma percpu_call_first:
  assumes "pc_window_start_ns s = 0" "i \<noteq> 0" "t \<noteq> 0"
  shows "percpu_inv i b (snd (percpu_call i b s t))"
    and "pc_window_start_ns (snd (percpu_call i b s t)) = t"
    and "unat (pc_events_in_window (snd (percpu_call i b s t))) = min 1 (unat b)"
    and "fst (percpu_call i b s t) = (b = 0)"
  using assms
  by (auto simp: percpu_call_def bpf_percpu_ratelimited_ns_def percpu_inv_def Let_def word_gt_0
      min_def Suc_le_eq unat_gt_0 inc_le)

section \<open>The limiter in a map\<close>

text \<open>The runtime-configured limiter as a call on its map element, which starts zeroed.\<close>

definition in_map_call ::
  "u64 \<Rightarrow> u64 \<Rightarrow> u64 \<Rightarrow> bpf_ratelimit_event option \<Rightarrow> u64 \<Rightarrow> bool \<times> bpf_ratelimit_event option" where
  "in_map_call i b mb elem t =
     (let (limited, elem', report) = bpf_ratelimited_in_map_rc i b mb elem t in (limited, elem'))"

lemma bpf_ratelimited_Some:
  "bpf_ratelimited (Some r) t = (fst (ratelimited_call r t), Some (snd (ratelimited_call r t)))"
  by (simp add: ratelimited_call_def bpf_ratelimited_def Let_def)

lemma bpf_percpu_ratelimited_Some:
  "bpf_percpu_ratelimited_ns (Some st) i b t = (fst (percpu_call i b st t), Some (snd (percpu_call i b st t)))"
  by (simp add: percpu_call_def bpf_percpu_ratelimited_ns_def Let_def)

lemma in_map_call_configured:
  "i \<noteq> 0 \<Longrightarrow> interval_ns r \<noteq> 0 \<Longrightarrow>
   in_map_call i b mb (Some r) t = (fst (ratelimited_call r t), Some (snd (ratelimited_call r t)))"
  by (cases "fst (ratelimited_call r t)")
    (simp_all add: in_map_call_def bpf_ratelimited_in_map_rc_def bpf_ratelimited_core_in_map_def
      bpf_ratelimited_Some)

lemma ratelimited_call_interval: "interval_ns (snd (ratelimited_call r t)) = interval_ns r"
  by (simp add: ratelimited_call_def bpf_ratelimited_def Let_def)

lemma in_map_run_configured:
  assumes "i \<noteq> 0"
  shows "interval_ns r \<noteq> 0 \<Longrightarrow>
    fst (limiter_run (in_map_call i b mb) (Some r) ts) = fst (limiter_run ratelimited_call r ts)"
proof (induction ts arbitrary: r)
  case (Cons t ts)
  then show ?case
    using Cons.IH [of "snd (ratelimited_call r t)"]
    by (simp add: in_map_call_configured [OF assms] ratelimited_call_interval case_prod_beta Let_def)
qed simp

text \<open>The first call stores the configuration in the zeroed element.\<close>

lemma in_map_call_zeroed:
  "i \<noteq> 0 \<Longrightarrow> in_map_call i b mb (Some (BPF_RATELIMIT 0 0)) t =
     in_map_call i b mb (Some ((BPF_RATELIMIT i b)\<lparr>max_burst := mb\<rparr>)) t"
  by (simp add: in_map_call_def bpf_ratelimited_in_map_rc_def bpf_ratelimited_core_in_map_def
      BPF_RATELIMIT_def)

lemma in_map_bound:
  assumes "i \<noteq> 0" and "sorted (map unat ts)" and "0 \<notin> set ts" and "ts \<noteq> []"
  shows "admitted (fst (limiter_run (in_map_call i b mb) (Some (BPF_RATELIMIT 0 0)) ts)) \<le>
         unat b * ((unat (last ts) - unat (hd ts)) div unat i + 1)"
proof (cases ts)
  case (Cons t ts')
  let ?r = "(BPF_RATELIMIT i b)\<lparr>max_burst := mb\<rparr>"
  have r: "window_start_ns ?r = 0" "events_in_window ?r = 0" "interval_ns ?r = i" "burst ?r = b"
    by (simp_all add: BPF_RATELIMIT_def)
  have t: "t \<noteq> 0" using assms(3) Cons by auto
  note first = ratelimited_call_first [OF r(1-3) assms(1) t, unfolded r(4)]
  have "fst (limiter_run (in_map_call i b mb) (Some (BPF_RATELIMIT 0 0)) ts) =
      fst (limiter_run ratelimited_call ?r ts)"
    using in_map_run_configured [OF assms(1), of ?r b mb ts] r(3) assms(1)
    by (simp add: Cons in_map_call_zeroed [OF assms(1)])
  then show ?thesis
    using rl.fresh_bound [of i b ?r t ts'] first assms(2,3)
    by (simp add: Cons unat_eq_0)
qed (use assms in simp)

text \<open>The total of admitted events.\<close>

lemma in_map_rc_total:
  assumes "i \<noteq> 0" and "bpf_ratelimited_in_map_rc i b mb (Some r) t = (limited, elem, report)"
  shows "\<exists>r'. elem = Some r' \<and> total_events r' = total_events r + (if limited then 0 else 1)"
  using assms
  by (auto simp: bpf_ratelimited_in_map_rc_def bpf_ratelimited_core_in_map_def bpf_ratelimited_def Let_def
      split: if_splits prod.splits)

section \<open>Rate bounds\<close>

text \<open>Rate bound of the per-CPU limiter: over any run of calls at non-decreasing clock
  readings, from a fresh state, the number of admitted events is at most \<open>burst\<close> times
  one plus the number of whole intervals the run spans.\<close>

lemma percpu_rate_bound:
  assumes "pc_window_start_ns s = 0" and "interval \<noteq> 0"
    and "sorted (map unat ts)" and "0 \<notin> set ts" and "ts \<noteq> []"
  shows "admitted (fst (limiter_run (percpu_call interval b) s ts)) \<le>
         unat b * ((unat (last ts) - unat (hd ts)) div unat interval + 1)"
proof (cases ts)
  case (Cons t ts')
  have t: "t \<noteq> 0" using assms(4) Cons by auto
  note first = percpu_call_first [OF assms(1,2) t, of b]
  show ?thesis
    using pcl.fresh_bound [of interval b s t ts'] first assms(3,4)
    by (simp add: Cons unat_eq_0)
qed (use assms in simp)

text \<open>Rate bound of the shared limiter, from its static initialiser: the same bound, over
  the events that \<open>bpf_ratelimited\<close> lets through.\<close>

lemma ratelimited_rate_bound:
  assumes "interval \<noteq> 0" and "sorted (map unat ts)" and "0 \<notin> set ts" and "ts \<noteq> []"
  shows "admitted (fst (limiter_run ratelimited_call (BPF_RATELIMIT interval b) ts)) \<le>
         unat b * ((unat (last ts) - unat (hd ts)) div unat interval + 1)"
proof (cases ts)
  case (Cons t ts')
  let ?r = "BPF_RATELIMIT interval b"
  have t: "t \<noteq> 0" using assms(3) Cons by auto
  have r: "window_start_ns ?r = 0" "events_in_window ?r = 0" "interval_ns ?r = interval" "burst ?r = b"
    by (simp_all add: BPF_RATELIMIT_def)
  note first = ratelimited_call_first [OF r(1-3) assms(1) t, unfolded r(4)]
  show ?thesis
    using rl.fresh_bound [of interval b ?r t ts'] first assms(2,3)
    by (simp add: Cons unat_eq_0)
qed (use assms in simp)

text \<open>
  What the clients of a limiter rely on: from a fresh state, a run of calls at non-decreasing
  clock readings admits at most \<open>budget\<close> events per interval started.
\<close>

locale rate_limiter =
  fixes call :: "'l \<Rightarrow> u64 \<Rightarrow> bool \<times> 'l"
    and fresh :: "'l \<Rightarrow> bool"
    and interval budget :: nat
  assumes call_bound: "fresh l \<Longrightarrow> sorted (map unat ts) \<Longrightarrow> 0 \<notin> set ts \<Longrightarrow> ts \<noteq> [] \<Longrightarrow>
    admitted (fst (limiter_run call l ts)) \<le> budget * ((unat (last ts) - unat (hd ts)) div interval + 1)"

interpretation percpu_limiter: rate_limiter "percpu_call i b" "\<lambda>s. i \<noteq> 0 \<and> pc_window_start_ns s = 0"
  "unat i" "unat b" for i b
  by unfold_locales (metis percpu_rate_bound)

interpretation shared_limiter: rate_limiter ratelimited_call "\<lambda>r. i \<noteq> 0 \<and> r = BPF_RATELIMIT i b"
  "unat i" "unat b" for i b
  by unfold_locales (metis ratelimited_rate_bound)

interpretation map_limiter: rate_limiter "in_map_call i b mb" "\<lambda>e. i \<noteq> 0 \<and> e = Some (BPF_RATELIMIT 0 0)"
  "unat i" "unat b" for i b mb
  by unfold_locales (metis in_map_bound)

section \<open>Output behind a limiter\<close>

text \<open>
  Probes that submit an event only if a limiter admits it. \<open>offer e s\<close> is the clock
  reading with which the firing \<open>e\<close> asks the limiter in state \<open>s\<close>, or \<open>None\<close> if it does not ask.
\<close>

locale limited_output = rate_limiter call fresh interval budget
  for call :: "'l \<Rightarrow> u64 \<Rightarrow> bool \<times> 'l" and fresh :: "'l \<Rightarrow> bool" and interval budget :: nat +
  fixes step :: "'e \<Rightarrow> 's \<Rightarrow> 's"
    and limiter :: "'s \<Rightarrow> 'l"
    and submitted :: "'s \<Rightarrow> nat"
    and offer :: "'e \<Rightarrow> 's \<Rightarrow> u64 option"
    and time :: "'e \<Rightarrow> u64"
  assumes offer_time: "offer e s = Some t \<Longrightarrow> t = time e"
    and silent: "offer e s = None \<Longrightarrow> limiter (step e s) = limiter s \<and> submitted (step e s) = submitted s"
    and asked: "offer e s = Some t \<Longrightarrow>
          limiter (step e s) = snd (call (limiter s) t) \<and>
          submitted (step e s) \<le> submitted s + (if fst (call (limiter s) t) then 0 else 1)"
begin

fun offers :: "'e list \<Rightarrow> 's \<Rightarrow> u64 list" where
  "offers [] s = []"
| "offers (e # es) s = (case offer e s of None \<Rightarrow> [] | Some t \<Rightarrow> [t]) @ offers es (step e s)"

lemma offers_subset: "set (offers es s) \<subseteq> set (map time es)"
  by (induction es arbitrary: s) (auto dest: offer_time offer_time [OF sym] split: option.splits)

lemma offers_sorted: "sorted (map (unat \<circ> time) es) \<Longrightarrow> sorted (map unat (offers es s))"
proof (induction es arbitrary: s)
  case (Cons e es)
  have "\<forall>u \<in> set (offers es (step e s)). unat (time e) \<le> unat u"
    using offers_subset [of es "step e s"] Cons.prems by auto
  then show ?case using Cons by (auto dest: offer_time split: option.split)
qed simp

lemma submitted_run:
  "submitted (fold step es s) \<le>
   submitted s + admitted (fst (limiter_run call (limiter s) (offers es s)))"
proof (induction es arbitrary: s)
  case (Cons e es)
  show ?case
  proof (cases "offer e s")
    case None
    then show ?thesis using Cons.IH [of "step e s"] silent by simp
  next
    case (Some t)
    then show ?thesis
      using Cons.IH [of "step e s"] asked [OF Some]
      by (simp add: limiter_run_Cons_admitted del: limiter_run.simps split: if_splits)
  qed
qed (simp add: admitted_def)

lemma rate_bound:
  assumes "fresh (limiter s)"
    and "sorted (map (unat \<circ> time) es)" and "0 \<notin> set (map time es)" and "es \<noteq> []"
  shows "submitted (fold step es s) \<le>
    submitted s + budget * ((unat (time (last es)) - unat (time (hd es))) div interval + 1)"
proof (cases "offers es s")
  case Nil
  then show ?thesis using submitted_run [of es s] by (simp add: admitted_def)
next
  case (Cons t ts)
  let ?os = "offers es s"
  have between: "unat (time (hd es)) \<le> unat u \<and> unat u \<le> unat (time (last es))" if "u \<in> set ?os" for u
  proof -
    obtain e0 es' where es: "es = e0 # es'" using assms(4) by (cases es) auto
    have "sorted (map unat (time e0 # map time es'))" using assms(2) by (simp add: es)
    from sorted_bounds [OF this] show ?thesis
      using offers_subset [of es s] that by (auto simp: es last_map)
  qed
  have "admitted (fst (limiter_run call (limiter s) ?os)) \<le>
      budget * ((unat (last ?os) - unat (hd ?os)) div interval + 1)"
    using offers_subset [of es s] assms(3) Cons
    by (intro call_bound [OF assms(1) offers_sorted [OF assms(2)]]) auto
  also have "\<dots> \<le> budget * ((unat (time (last es)) - unat (time (hd es))) div interval + 1)"
  proof -
    have "hd ?os \<in> set ?os" "last ?os \<in> set ?os" using Cons by (metis hd_in_set last_in_set list.distinct(1))+
    then have "unat (last ?os) - unat (hd ?os) \<le> unat (time (last es)) - unat (time (hd es))"
      using between by (meson diff_le_mono diff_le_mono2 le_trans)
    then show ?thesis by (intro mult_le_mono2 add_le_mono1 div_le_mono)
  qed
  finally show ?thesis using submitted_run [of es s] by linarith
qed

end

section \<open>Properties\<close>

text \<open>Accounting of the shared limiter: over any run of calls of an enabled limiter the
  totals advance, modulo 2^64, by exactly the admitted and the refused calls, and the
  configuration is unchanged.\<close>

theorem ratelimited_totals:
  assumes "interval_ns r \<noteq> 0" and "limiter_run ratelimited_call r ts = (rs, r')"
  shows "total_events r' = total_events r + of_nat (admitted rs) \<and>
         total_missed r' = total_missed r + of_nat (length ts - admitted rs) \<and>
         interval_ns r' = interval_ns r \<and> burst r' = burst r"
  using assms
proof (induction ts arbitrary: r rs)
  case (Cons t ts)
  obtain l r1 where c: "ratelimited_call r t = (l, r1)" by (cases "ratelimited_call r t")
  obtain rs1 where run: "limiter_run ratelimited_call r1 ts = (rs1, r')" and rs: "rs = l # rs1"
    using Cons.prems(2) c by (auto split: prod.splits)
  have step: "total_events r1 = total_events r + (if l then 0 else 1)"
    "total_missed r1 = total_missed r + (if l then 1 else 0)"
    "interval_ns r1 = interval_ns r" "burst r1 = burst r"
    using c Cons.prems(1)
    by (auto simp: ratelimited_call_def bpf_ratelimited_def Let_def split: if_splits)
  have len: "admitted rs1 \<le> length ts"
    by (metis admitted_def fst_conv length_filter_le rl.limiter_run_length run)
  from Cons.IH [OF _ run] Cons.prems(1) step
  have "total_events r' = total_events r1 + of_nat (admitted rs1) \<and>
        total_missed r' = total_missed r1 + of_nat (length ts - admitted rs1) \<and>
        interval_ns r' = interval_ns r1 \<and> burst r' = burst r1"
    by simp
  then show ?case using step len
    by (auto simp: rs admitted_def Suc_diff_le)
qed (simp add: admitted_def)

text \<open>Miss reports of the in-map limiter: with a positive budget, a refused call submits
  the limiter state on the perf channel exactly when it is the first miss of its window or
  the misses exceed the configured overflow; an admitted call submits nothing.\<close>

theorem in_map_reports:
  assumes "bpf_ratelimited_core_in_map (Some rate) cfg now_ns = (limited, Some rate', report)"
    and "0 < burst rate'"
  shows "report =
    (if limited \<and> (missed_in_window rate' = 1 \<or>
        0 < max_burst rate' \<and> max_burst rate' - burst rate' < missed_in_window rate')
     then Some rate' else None)"
  using assms
  by (auto simp: bpf_ratelimited_core_in_map_def bpf_ratelimited_def Let_def split: if_splits prod.splits option.splits)

text \<open>With a zero budget the report of the first miss is lost in every window but the first:
  the miss counter of the previous window is read before the window is reset.\<close>

lemma in_map_zero_burst_unreported:
  "\<exists>rate'. bpf_ratelimited_core_in_map
       (Some ((BPF_RATELIMIT 1000 0)\<lparr>window_start_ns := 5, missed_in_window := 3\<rparr>))
       (BPF_RATELIMIT 1000 0) 2000 = (True, Some rate', None) \<and> missed_in_window rate' = 1"
  by (simp add: bpf_ratelimited_core_in_map_def bpf_ratelimited_def BPF_RATELIMIT_def
      word_cmp_nat Let_def)

end
