(* ===== verification/Io_Control.thy ===== *)
theory Io_Control
  imports Bpf_Prelude
begin

text \<open>
  The part shared by the IO probes, \<^verbatim>\<open>bpf/include/bpf_iocontrol.h\<close> with the layouts of
  \<^verbatim>\<open>bpf/include/abi/io_control_types.h\<close>: the packed wait counter, the session status word
  and the device hooks that every IO tracing object instantiates. The failure word that
  each probe publishes has the same contract in all of them, the locale
  \<open>failure_latch\<close>.
\<close>

section \<open>Model\<close>

record io_control_wait_key =
  wk_css :: u64
  wk_css_serial :: u64
  wk_major :: u32
  wk_minor :: u32
  wk_operation :: u32
  wk_reserved :: u32

record io_control_status =
  failure :: u64
  devices_changed :: u64

record io_control_retired_key =
  rk_css :: u64
  rk_css_serial :: u64
  rk_major :: u32
  rk_minor :: u32

abbreviation (input) "IO_CONTROL_WAIT_COUNT_BITS \<equiv> 26 :: nat"
abbreviation (input) "IO_CONTROL_WAIT_10US_BITS \<equiv> 38 :: nat"
abbreviation (input) "IO_CONTROL_WAIT_UNIT_NS \<equiv> 10000 :: u64"

definition IO_CONTROL_WAIT_COUNT_MASK :: u64 where
  "IO_CONTROL_WAIT_COUNT_MASK = push_bit IO_CONTROL_WAIT_COUNT_BITS 1 - 1"

definition IO_CONTROL_WAIT_10US_MASK :: u64 where
  "IO_CONTROL_WAIT_10US_MASK = push_bit IO_CONTROL_WAIT_10US_BITS 1 - 1"

definition io_control_wait_add :: "u64 \<Rightarrow> u64 \<Rightarrow> u64" where
  "io_control_wait_add packed wait_ns =
     (let count = (drop_bit IO_CONTROL_WAIT_10US_BITS packed + 1) AND IO_CONTROL_WAIT_COUNT_MASK;
          wait = ((packed AND IO_CONTROL_WAIT_10US_MASK) + wait_ns div IO_CONTROL_WAIT_UNIT_NS)
                 AND IO_CONTROL_WAIT_10US_MASK
      in push_bit IO_CONTROL_WAIT_10US_BITS count OR wait)"

text \<open>
  A disk as the device hooks see it: \<open>None\<close> is a NULL pointer, \<open>Some None\<close> a name that
  \<^verbatim>\<open>bpf_core_read\<close> cannot read, \<open>Some (Some n)\<close> the bytes read into the zeroed buffer.
\<close>

type_synonym disk_name = "string option option"

definition io_control_note_device_change ::
  "disk_name \<Rightarrow> bool \<Rightarrow> io_control_status option \<Rightarrow> io_control_status option" where
  "io_control_note_device_change disk removed status =
     (let ignored =
        (\<not> removed \<and>
         (case disk of
            Some (Some name) \<Rightarrow>
              (name_byte name 0 = CHR ''l'' \<and> name_byte name 1 = CHR ''o'' \<and>
               name_byte name 2 = CHR ''o'' \<and> name_byte name 3 = CHR ''p'') \<or>
              (name_byte name 0 = CHR ''r'' \<and> name_byte name 1 = CHR ''a'' \<and>
               name_byte name 2 = CHR ''m'') \<or>
              (name_byte name 0 = CHR ''z'' \<and> name_byte name 1 = CHR ''r'' \<and>
               name_byte name 2 = CHR ''a'' \<and> name_byte name 3 = CHR ''m'')
          | _ \<Rightarrow> False))
      in if ignored then status
         else map_option (\<lambda>st. st\<lparr>devices_changed := 1\<rparr>) status)"

datatype device_event =
    Del_gendisk disk_name
  | Blk_register_queue disk_name
  | Device_add_disk_no_queue_reg disk_name

fun io_control_device_hook :: "device_event \<Rightarrow> io_control_status option \<Rightarrow> io_control_status option" where
  "io_control_device_hook (Del_gendisk d) st = io_control_note_device_change d True st"
| "io_control_device_hook (Blk_register_queue d) st = io_control_note_device_change d False st"
| "io_control_device_hook (Device_add_disk_no_queue_reg d) st =
     io_control_note_device_change d False st"

definition pack_failure :: "u32 \<Rightarrow> int \<Rightarrow> u64" where
  "pack_failure reason error = push_bit 32 (ucast reason) OR ucast (word_of_int error :: u32)"

section \<open>Reading a wait word back\<close>

definition wait_count :: "u64 \<Rightarrow> nat" where
  "wait_count p = unat p div 2 ^ 38"

definition wait_10us :: "u64 \<Rightarrow> nat" where
  "wait_10us p = unat p mod 2 ^ 38"

lemma wait_add_fields:
  "io_control_wait_add p ns =
     push_bit 38 (take_bit 26 (drop_bit 38 p + 1))
     OR take_bit 38 (take_bit 38 p + ns div 10000)"
  unfolding io_control_wait_add_def IO_CONTROL_WAIT_COUNT_MASK_def IO_CONTROL_WAIT_10US_MASK_def
    word_mask_shift Let_def
  by (simp only: take_bit_eq_mask)

lemma wait_count_add: "wait_count (io_control_wait_add p ns) = (wait_count p + 1) mod 2 ^ 26"
proof -
  have "unat (drop_bit 38 p) + 1 < 2 ^ 64"
    using unat_bound64 [of p] by (simp add: unat_drop_bit_div)
  then have "unat (drop_bit 38 p + 1) = unat p div 2 ^ 38 + 1"
    by (simp add: unat_word_ariths unat_drop_bit_div)
  then show ?thesis
    unfolding wait_count_def wait_add_fields
    by (subst unat_field_hi) (simp_all add: unat_take_bit_mod)
qed

lemma wait_10us_add: "wait_10us (io_control_wait_add p ns) = (wait_10us p + unat ns div 10000) mod 2 ^ 38"
proof -
  have "unat (take_bit 38 p) + unat (ns div 10000) < 2 ^ 64"
  proof -
    have "unat (take_bit 38 p) < 2 ^ 38"
      by (simp add: unat_take_bit_mod)
    moreover have "unat (ns div 10000) \<le> 2 ^ 63"
      using unat_bound64 [of ns] by (simp add: unat_div)
    ultimately show ?thesis by simp
  qed
  then have "unat (take_bit 38 p + ns div 10000) = unat p mod 2 ^ 38 + unat ns div 10000"
    using unat_bound64 [of ns] by (simp add: unat_word_ariths unat_take_bit_mod unat_div)
  then show ?thesis
    unfolding wait_10us_def wait_add_fields
    by (subst unat_field_lo) simp
qed

text \<open>The wait word keeps its two fields apart: folding any sequence of waits into a word
  adds, modulo 2^26, one IO per wait and, modulo 2^38, each wait rounded down to 10us units;
  no carry from the wait field reaches the count.\<close>

theorem wait_add_fold:
  "wait_count (foldl io_control_wait_add p ws) = (wait_count p + length ws) mod 2 ^ 26 \<and>
   wait_10us (foldl io_control_wait_add p ws) =
     (wait_10us p + (\<Sum>w \<leftarrow> ws. unat w div 10000)) mod 2 ^ 38"
proof (induction ws arbitrary: p)
  case Nil
  have "unat p div 2 ^ 38 < 2 ^ 26" using unat_bound64 [of p] by simp
  then show ?case by (simp add: wait_count_def wait_10us_def)
next
  case (Cons w ws)
  show ?case
    by (simp add: Cons.IH wait_count_add wait_10us_add mod_add_left_eq add.assoc)
qed

section \<open>The failure word\<close>

lemma pack_failure_reason: "ucast (drop_bit 32 (pack_failure reason error)) = reason"
  unfolding pack_failure_def by (rule halves_hi)

lemma pack_failure_error: "ucast (pack_failure reason error) = (word_of_int error :: u32)"
  unfolding pack_failure_def by (rule halves_lo)

lemma pack_failure_nonzero [simp]: "reason \<noteq> 0 \<Longrightarrow> pack_failure reason error \<noteq> 0"
  using pack_failure_reason [of reason error] by auto

text \<open>
  The contract of the failure reporters of the IO probes: they write only the failure word,
  and a report never turns an unhealthy session healthy again.
\<close>

definition unhealthy :: "io_control_status option \<Rightarrow> bool" where
  "unhealthy status = (case status of None \<Rightarrow> True | Some st \<Rightarrow> failure st \<noteq> 0)"

text \<open>\<open>reports P st st'\<close>: the status changed by failure reports only, the last one with a
  reason in \<open>P\<close>.\<close>

definition reports ::
  "(u32 \<Rightarrow> bool) \<Rightarrow> io_control_status option \<Rightarrow> io_control_status option \<Rightarrow> bool" where
  "reports P st st' \<longleftrightarrow> st' = st \<or>
     (\<exists>x r e. st = Some x \<and> st' = Some (x\<lparr>failure := pack_failure r e\<rparr>) \<and> r \<noteq> 0 \<and> P r)"

lemma reports_refl [simp]: "reports P st st"
  by (simp add: reports_def)

lemma reports_trans [trans]: "reports P a b \<Longrightarrow> reports P b c \<Longrightarrow> reports P a c"
  unfolding reports_def by (elim disjE exE conjE) (simp, blast, blast, force)

lemma reports_mono: "reports P a b \<Longrightarrow> (\<And>r. P r \<Longrightarrow> Q r) \<Longrightarrow> reports Q a b"
  by (auto simp: reports_def)

lemma reports_unhealthy: "reports P a b \<Longrightarrow> unhealthy a \<Longrightarrow> unhealthy b"
  by (auto simp: reports_def unhealthy_def)

lemma reports_devices: "reports P a b \<Longrightarrow> map_option devices_changed b = map_option devices_changed a"
  by (auto simp: reports_def)

definition failure_reason :: "io_control_status option \<Rightarrow> u32" where
  "failure_reason st = (case st of None \<Rightarrow> 0 | Some x \<Rightarrow> ucast (drop_bit 32 (failure x)))"

lemma reports_reason: "reports P a b \<Longrightarrow> failure_reason b = failure_reason a \<or> P (failure_reason b)"
  by (auto simp: reports_def failure_reason_def pack_failure_reason)

lemma device_hook_reason_of: "failure_reason (map_option (\<lambda>s. s\<lparr>devices_changed := d\<rparr>) st) = failure_reason st"
  by (cases st) (simp_all add: failure_reason_def)

locale failure_latch =
  fixes fail :: "u32 \<Rightarrow> int \<Rightarrow> io_control_status option \<Rightarrow> io_control_status option"
  assumes fail_reports: "r \<noteq> 0 \<Longrightarrow> P r \<Longrightarrow> reports P st (fail r e st)"
begin

lemma fail_devices: "r \<noteq> 0 \<Longrightarrow> map_option devices_changed (fail r e st) = map_option devices_changed st"
  by (rule reports_devices [OF fail_reports [of r "\<lambda>_. True"]]) simp_all

lemma fail_latched: "unhealthy st \<Longrightarrow> r \<noteq> 0 \<Longrightarrow> unhealthy (fail r e st)"
  by (rule reports_unhealthy [OF fail_reports [of r "\<lambda>_. True"]]) simp_all

lemma fail_after: "reports P a st \<Longrightarrow> r \<noteq> 0 \<Longrightarrow> P r \<Longrightarrow> reports P a (fail r e st)"
  by (rule reports_trans [OF _ fail_reports])

end

text \<open>The published failure word can be read back: its high half is the reason and its
  low half the helper's errno as a signed 32-bit value, so no report with a nonzero reason
  is a healthy zero.\<close>

theorem pack_failure_roundtrip:
  assumes "- (2 ^ 31) \<le> error" and "error < 2 ^ 31"
  shows "ucast (drop_bit 32 (pack_failure reason error)) = reason \<and>
         sint (ucast (pack_failure reason error) :: u32) = error \<and>
         (pack_failure reason error = 0 \<longleftrightarrow> reason = 0 \<and> error = 0)"
proof -
  have e: "sint (word_of_int error :: u32) = error"
    using assms by (simp add: sint_sbintrunc' signed_take_bit_int_eq_self)
  have "reason = 0 \<and> error = 0" if "pack_failure reason error = 0"
    using that pack_failure_reason [of reason error] e pack_failure_error [of reason error] by simp
  moreover have "pack_failure 0 0 = 0" by (simp add: pack_failure_def)
  ultimately show ?thesis using e by (auto simp: pack_failure_reason pack_failure_error)
qed

section \<open>Device changes\<close>

text \<open>The prefixes of device names whose registration is ignored.\<close>

definition virtual_disk :: "string \<Rightarrow> bool" where
  "virtual_disk n \<longleftrightarrow> take 4 n = ''loop'' \<or> take 3 n = ''ram'' \<or> take 4 n = ''zram''"

lemma name_byte_prefix:
  "name_byte n 0 = a \<Longrightarrow> name_byte n 1 = b \<Longrightarrow> name_byte n 2 = c \<Longrightarrow>
   a \<noteq> CHR 0x00 \<Longrightarrow> b \<noteq> CHR 0x00 \<Longrightarrow> c \<noteq> CHR 0x00 \<Longrightarrow> take 3 n = [a, b, c]"
  by (cases n; cases "tl n"; cases "tl (tl n)")
    (auto simp: name_byte_def numeral_eq_Suc split: if_splits)

lemma name_byte_prefix4:
  "name_byte n 0 = a \<Longrightarrow> name_byte n 1 = b \<Longrightarrow> name_byte n 2 = c \<Longrightarrow> name_byte n 3 = d \<Longrightarrow>
   a \<noteq> CHR 0x00 \<Longrightarrow> b \<noteq> CHR 0x00 \<Longrightarrow> c \<noteq> CHR 0x00 \<Longrightarrow> d \<noteq> CHR 0x00 \<Longrightarrow> take 4 n = [a, b, c, d]"
  by (cases n; cases "tl n"; cases "tl (tl n)"; cases "tl (tl (tl n))")
    (auto simp: name_byte_def numeral_eq_Suc split: if_splits)

lemma name_byte_take:
  "take k n = p \<Longrightarrow> i < k \<Longrightarrow> i < length p \<Longrightarrow> name_byte n i = p ! i"
  by (auto simp: name_byte_def)

lemma virtual_disk_bytes:
  "virtual_disk name \<longleftrightarrow>
     (name_byte name 0 = CHR ''l'' \<and> name_byte name 1 = CHR ''o'' \<and>
      name_byte name 2 = CHR ''o'' \<and> name_byte name 3 = CHR ''p'') \<or>
     (name_byte name 0 = CHR ''r'' \<and> name_byte name 1 = CHR ''a'' \<and> name_byte name 2 = CHR ''m'') \<or>
     (name_byte name 0 = CHR ''z'' \<and> name_byte name 1 = CHR ''r'' \<and>
      name_byte name 2 = CHR ''a'' \<and> name_byte name 3 = CHR ''m'')"
proof -
  have 4: "take 4 name = [a, b, c, d] \<longleftrightarrow> name_byte name 0 = a \<and> name_byte name 1 = b \<and>
      name_byte name 2 = c \<and> name_byte name 3 = d"
    if "a \<noteq> CHR 0x00" "b \<noteq> CHR 0x00" "c \<noteq> CHR 0x00" "d \<noteq> CHR 0x00" for a b c d
    using that name_byte_prefix4 [of name a b c d] name_byte_take [of 4 name "[a, b, c, d]"]
    by fastforce
  have 3: "take 3 name = [a, b, c] \<longleftrightarrow> name_byte name 0 = a \<and> name_byte name 1 = b \<and> name_byte name 2 = c"
    if "a \<noteq> CHR 0x00" "b \<noteq> CHR 0x00" "c \<noteq> CHR 0x00" for a b c
    using that name_byte_prefix [of name a b c] name_byte_take [of 3 name "[a, b, c]"]
    by fastforce
  show ?thesis unfolding virtual_disk_def by (simp add: 3 4)
qed

definition real_change :: "device_event \<Rightarrow> bool" where
  "real_change e = (case e of
      Del_gendisk _ \<Rightarrow> True
    | Blk_register_queue (Some (Some n)) \<Rightarrow> \<not> virtual_disk n
    | Device_add_disk_no_queue_reg (Some (Some n)) \<Rightarrow> \<not> virtual_disk n
    | _ \<Rightarrow> True)"

lemma device_hook_effect:
  "io_control_device_hook e st =
     (if real_change e then map_option (\<lambda>s. s\<lparr>devices_changed := 1\<rparr>) st else st)"
  by (cases e)
    (auto simp: io_control_note_device_change_def real_change_def virtual_disk_bytes Let_def
      split: option.splits)

lemma device_hook_unhealthy [simp]: "unhealthy (io_control_device_hook e st) = unhealthy st"
  by (auto simp: device_hook_effect unhealthy_def split: option.splits)

lemma device_hook_reason [simp]: "failure_reason (io_control_device_hook e st) = failure_reason st"
  by (simp add: device_hook_effect device_hook_reason_of)

text \<open>Device notifications are sticky and exact: after any sequence of device hooks the
  session is marked changed if and only if it was before or some hook saw a removal, or the
  registration of a disk that is not a loop, ram or zram device; the failure word is never
  touched.\<close>

theorem devices_changed_run:
  "\<exists>st'. fold io_control_device_hook es (Some st) = Some st' \<and> failure st' = failure st \<and>
     (devices_changed st' \<noteq> 0 \<longleftrightarrow> devices_changed st \<noteq> 0 \<or> (\<exists>e \<in> set es. real_change e))"
proof (induction es arbitrary: st)
  case (Cons e es)
  show ?case
    using Cons.IH [of "if real_change e then st\<lparr>devices_changed := 1\<rparr> else st"]
    by (auto simp: device_hook_effect split: if_splits)
qed simp

end
