(* ===== verification/Wait_Table.thy ===== *)
theory Wait_Table
  imports Io_Control
begin

text \<open>
  The per-CPU wait tables of the blk-throttle and IOCOST probes: a BPF per-CPU hash map from
  a wait key to one packed word per CPU. \<open>counter\<close> is the number of IOs in one word,
  \<open>total\<close> their sum over a set of words, and \<open>one_more\<close> bounds what settling one
  wait may do.
\<close>

type_synonym wait_table = "io_control_wait_key \<rightharpoonup> (u32 \<Rightarrow> u64)"

lemma wait_count_zero [simp]: "wait_count 0 = 0"
  by (simp add: wait_count_def)

lemma wait_count_add_le: "wait_count (io_control_wait_add p ns) \<le> Suc (wait_count p)"
  unfolding wait_count_add using mod_less_eq_dividend [of "wait_count p + 1" "2 ^ 26"] by simp

definition counter :: "wait_table \<Rightarrow> io_control_wait_key \<Rightarrow> u32 \<Rightarrow> nat" where
  "counter m k c = (case m k of None \<Rightarrow> 0 | Some row \<Rightarrow> wait_count (row c))"

definition one_more :: "io_control_wait_key \<Rightarrow> u32 \<Rightarrow> wait_table \<Rightarrow> wait_table \<Rightarrow> bool" where
  "one_more key cpu m m' \<longleftrightarrow>
     (\<forall>k c. counter m' k c \<le> counter m k c + (if k = key \<and> c = cpu then 1 else 0))"

lemma one_more_refl [simp]: "one_more key cpu m m"
  by (simp add: one_more_def)

definition table_row :: "wait_table \<Rightarrow> io_control_wait_key \<Rightarrow> u32 \<Rightarrow> u64" where
  "table_row m k = (case m k of None \<Rightarrow> (\<lambda>_. 0) | Some row \<Rightarrow> row)"

definition total :: "(io_control_wait_key \<times> u32) set \<Rightarrow> wait_table \<Rightarrow> nat" where
  "total P m = (\<Sum>(k, c) \<in> P. counter m k c)"

lemma total_one_more:
  assumes om: "one_more key cpu m m'"
  shows "total P m' \<le> Suc (total P m)"
proof (cases "finite P")
  case fin: True
  have "total P m' \<le> (\<Sum>q \<in> P. (case q of (k, c) \<Rightarrow> counter m k c) + (if q = (key, cpu) then 1 else 0))"
    unfolding total_def
  proof (rule sum_mono)
    fix q assume "q \<in> P"
    show "(case q of (k, c) \<Rightarrow> counter m' k c)
        \<le> (case q of (k, c) \<Rightarrow> counter m k c) + (if q = (key, cpu) then 1 else 0)"
      using om by (cases q) (simp add: one_more_def)
  qed
  also have "\<dots> = total P m + (if (key, cpu) \<in> P then 1 else 0)"
    using fin by (simp add: total_def sum.distrib)
  finally show ?thesis by (simp split: if_splits)
qed (simp add: total_def)

lemma total_mono: "(\<And>k c. counter m' k c \<le> counter m k c) \<Longrightarrow> total P m' \<le> total P m"
  unfolding total_def by (rule sum_mono) (simp add: split_def)

lemma table_row_zero:
  "m k = None \<Longrightarrow> counter (m(k \<mapsto> (\<lambda>_. 0))) = counter m"
  by (auto simp: counter_def fun_eq_iff)

lemma one_more_add:
  "one_more key cpu m (m(key \<mapsto> (table_row m key)(cpu := io_control_wait_add (table_row m key cpu) ns)))"
  using wait_count_add_le [of "table_row m key cpu" ns]
  by (auto simp: one_more_def counter_def table_row_def split: option.splits)

end
