(* ===== verification/Kernel_Block.thy ===== *)
theory Kernel_Block
  imports Bpf_Prelude
begin

text \<open>
  What the block-layer probes read of the running kernel. The kernel is not part of the
  repository, so its memory is a parameter: a record of partial functions from addresses to
  field values, where \<open>None\<close> is a faulting probe read. \<open>core_read\<close> is
  \<^verbatim>\<open>BPF_CORE_READ\<close>, which yields zero on a fault; probes that look at the read's error use the
  field itself. The booleans are the answers of \<^verbatim>\<open>bpf_core_field_exists\<close>.
  \<open>bio_disk\<close> is the accessor of \<^verbatim>\<open>bpf/include/bpf_blkio.h\<close>.
\<close>

record blk_kernel =
  has_bi_disk :: bool
  bi_disk :: "u64 \<Rightarrow> u64 option"
  bi_bdev :: "u64 \<Rightarrow> u64 option"
  bd_disk :: "u64 \<Rightarrow> u64 option"
  bi_opf :: "u64 \<Rightarrow> u32 option"
  bi_size :: "u64 \<Rightarrow> u32 option"
  bi_next :: "u64 \<Rightarrow> u64 option"
  bi_blkg :: "u64 \<Rightarrow> u64 option"
  blkg_blkcg :: "u64 \<Rightarrow> u64 option"
  blkcg_css_offset :: u64
  css_serial_nr :: "u64 \<Rightarrow> u64 option"
  disk_major :: "u64 \<Rightarrow> u32 option"
  disk_first_minor :: "u64 \<Rightarrow> u32 option"
  pd_blkg :: "u64 \<Rightarrow> u64 option"

abbreviation (input) REQ_OP_MASK :: u32 where "REQ_OP_MASK \<equiv> push_bit 8 1 - 1"
abbreviation (input) REQ_OP_READ :: u32 where "REQ_OP_READ \<equiv> 0"
abbreviation (input) REQ_OP_WRITE :: u32 where "REQ_OP_WRITE \<equiv> 1"

definition bio_disk :: "'a blk_kernel_scheme \<Rightarrow> u64 \<Rightarrow> u64" where
  "bio_disk K bio =
     (if has_bi_disk K then core_read (bi_disk K) bio
      else
        let bdev = core_read (bi_bdev K) bio
        in if bdev \<noteq> 0 then core_read (bd_disk K) bdev else 0)"

text \<open>The css address embedded in a blkcg, and its serial.\<close>

abbreviation (input) "blkcg_css K blkcg \<equiv> blkcg + blkcg_css_offset K"

definition empty_blk_kernel :: blk_kernel where
  "empty_blk_kernel =
     \<lparr>has_bi_disk = True, bi_disk = Map.empty, bi_bdev = Map.empty, bd_disk = Map.empty,
      bi_opf = Map.empty, bi_size = Map.empty, bi_next = Map.empty, bi_blkg = Map.empty,
      blkg_blkcg = Map.empty, blkcg_css_offset = 0, css_serial_nr = Map.empty,
      disk_major = Map.empty, disk_first_minor = Map.empty, pd_blkg = Map.empty\<rparr>"

end
