(* ===== verification/Blk_Throtl.thy ===== *)
theory Blk_Throtl
  imports Wait_Table Kernel_Block
begin

text \<open>
  \<^verbatim>\<open>bpf/blk_throtl_tracing.c\<close>: the wait of a bio in blk-throttle, from its first admission
  to the final top-level pop. The state is the probe's maps; each probe is one function on
  it, and \<open>throtl_step\<close> is one probe firing, with the kernel view, clock reading and helper
  failures of that firing. The per-CPU wait table maps a key to one word per CPU.
\<close>

section \<open>Model\<close>

record blk_throtl_blkg_owner =
  ow_css :: u64
  ow_css_serial :: u64
  ow_major :: u32
  ow_minor :: u32

record blk_throtl_state =
  blkg_owner_map :: "u64 \<rightharpoonup> blk_throtl_blkg_owner"
  retired_map :: "io_control_retired_key \<rightharpoonup> u8"
  pending_map :: "u64 \<rightharpoonup> u64"
  pop_call_map :: "u64 \<rightharpoonup> bool"
  wait_agg_map :: wait_table
  status :: "io_control_status option"

record blk_throtl_config =
  tracked_caller_start :: u64
  tracked_caller_end :: u64
  ignored_caller_start :: u64
  ignored_caller_end :: u64

abbreviation (input) "BLK_THROTL_FAILURE_PENDING_COLLISION \<equiv> 1 :: u32"
abbreviation (input) "BLK_THROTL_FAILURE_PENDING_INSERT \<equiv> 2 :: u32"
abbreviation (input) "BLK_THROTL_FAILURE_PENDING_DELETE \<equiv> 3 :: u32"
abbreviation (input) "BLK_THROTL_FAILURE_OWNER \<equiv> 4 :: u32"
abbreviation (input) "BLK_THROTL_FAILURE_AGGREGATE \<equiv> 5 :: u32"
abbreviation (input) "BLK_THROTL_FAILURE_UNKNOWN_CALLER \<equiv> 6 :: u32"
abbreviation (input) "BLK_THROTL_FAILURE_TIME_ROLLBACK \<equiv> 7 :: u32"
abbreviation (input) "BLK_THROTL_FAILURE_POP_STATE \<equiv> 8 :: u32"
abbreviation (input) "BLK_THROTL_FAILURE_RETIRE \<equiv> 9 :: u32"

definition blk_throtl_unhealthy :: "blk_throtl_state \<Rightarrow> bool" where
  "blk_throtl_unhealthy s = (case status s of None \<Rightarrow> True | Some st \<Rightarrow> failure st \<noteq> 0)"

definition blk_throtl_publish :: "u32 \<Rightarrow> int \<Rightarrow> io_control_status option \<Rightarrow> io_control_status option" where
  "blk_throtl_publish reason error st = map_option (\<lambda>x. x\<lparr>failure := pack_failure reason error\<rparr>) st"

definition blk_throtl_fail :: "u32 \<Rightarrow> int \<Rightarrow> blk_throtl_state \<Rightarrow> blk_throtl_state" where
  "blk_throtl_fail reason error s = s\<lparr>status := blk_throtl_publish reason error (status s)\<rparr>"

definition blk_throtl_delete_pending ::
  "map_fault \<Rightarrow> u64 \<Rightarrow> blk_throtl_state \<Rightarrow> bool \<times> blk_throtl_state" where
  "blk_throtl_delete_pending f bio s =
     (let (ret, m) = bpf_map_delete_elem f bio (pending_map s);
          s1 = s\<lparr>pending_map := m\<rparr>
      in if ret = 0 \<or> ret = - ENOENT then (True, s1)
         else (False, blk_throtl_fail BLK_THROTL_FAILURE_PENDING_DELETE ret s1))"

definition blk_throtl_delete_owner ::
  "map_fault \<Rightarrow> u64 \<Rightarrow> blk_throtl_state \<Rightarrow> bool \<times> blk_throtl_state" where
  "blk_throtl_delete_owner f blkg s =
     (let (ret, m) = bpf_map_delete_elem f blkg (blkg_owner_map s);
          s1 = s\<lparr>blkg_owner_map := m\<rparr>
      in if ret = 0 \<or> ret = - ENOENT then (True, s1)
         else (False, blk_throtl_fail BLK_THROTL_FAILURE_OWNER ret s1))"

definition blk_throtl_retire_aggregate ::
  "map_fault \<Rightarrow> blk_throtl_blkg_owner \<Rightarrow> blk_throtl_state \<Rightarrow> blk_throtl_state" where
  "blk_throtl_retire_aggregate f owner s =
     (let key = \<lparr>rk_css = ow_css owner, rk_css_serial = ow_css_serial owner,
                 rk_major = ow_major owner, rk_minor = ow_minor owner\<rparr>;
          (ret, m) = bpf_map_update_elem f BPF_NOEXIST key 1 (retired_map s);
          s1 = s\<lparr>retired_map := m\<rparr>
      in if ret \<noteq> 0 \<and> ret \<noteq> - EEXIST then blk_throtl_fail BLK_THROTL_FAILURE_RETIRE ret s1
         else s1)"

definition blk_throtl_wait_bio_operation :: "'a blk_kernel_scheme \<Rightarrow> u64 \<Rightarrow> u32 option" where
  "blk_throtl_wait_bio_operation K bio =
     (let current = core_read (bi_opf K) bio AND REQ_OP_MASK;
          bytes = core_read (bi_size K) bio
      in if (current \<noteq> REQ_OP_READ \<and> current \<noteq> REQ_OP_WRITE) \<or> bytes = 0
         then None else Some current)"

definition blk_throtl_lookup_or_create_owner ::
  "'a blk_kernel_scheme \<Rightarrow> map_fault \<Rightarrow> u64 \<Rightarrow> u64 \<Rightarrow> blk_throtl_state \<Rightarrow>
     blk_throtl_blkg_owner option \<times> blk_throtl_state" where
  "blk_throtl_lookup_or_create_owner K f blkg bio s =
     (case blkg_owner_map s blkg of
        Some owner \<Rightarrow> (Some owner, s)
      | None \<Rightarrow>
          let blkcg = core_read (blkg_blkcg K) blkg; disk = bio_disk K bio
          in if blkcg = 0 \<or> disk = 0
             then (None, blk_throtl_fail BLK_THROTL_FAILURE_OWNER 0 s)
             else
               let initial = \<lparr>ow_css = blkcg_css K blkcg,
                              ow_css_serial = core_read (css_serial_nr K) (blkcg_css K blkcg),
                              ow_major = core_read (disk_major K) disk,
                              ow_minor = core_read (disk_first_minor K) disk\<rparr>;
                   (ret, m) = bpf_map_update_elem f BPF_NOEXIST blkg initial (blkg_owner_map s);
                   s1 = s\<lparr>blkg_owner_map := m\<rparr>
               in case m blkg of
                    Some owner \<Rightarrow> (Some owner, s1)
                  | None \<Rightarrow> (None, blk_throtl_fail BLK_THROTL_FAILURE_OWNER ret s1))"

definition blk_throtl_account_wait ::
  "map_fault \<Rightarrow> u32 \<Rightarrow> io_control_wait_key \<Rightarrow> u64 \<Rightarrow> blk_throtl_state \<Rightarrow> blk_throtl_state" where
  "blk_throtl_account_wait f cpu key wait_ns s =
     (let (ret, m) = (case wait_agg_map s key of
                        Some _ \<Rightarrow> (0, wait_agg_map s)
                      | None \<Rightarrow> bpf_map_update_elem f BPF_NOEXIST key (\<lambda>_. 0) (wait_agg_map s))
      in case m key of
           None \<Rightarrow> blk_throtl_fail BLK_THROTL_FAILURE_AGGREGATE ret (s\<lparr>wait_agg_map := m\<rparr>)
         | Some row \<Rightarrow>
             s\<lparr>wait_agg_map := m(key \<mapsto> row(cpu := io_control_wait_add (row cpu) wait_ns))\<rparr>)"

definition kprobe_blk_throtl_add_bio_tg ::
  "blk_throtl_config \<Rightarrow> 'a blk_kernel_scheme \<Rightarrow> u64 \<Rightarrow> u64 \<Rightarrow> u64 \<Rightarrow> map_fault \<Rightarrow>
     blk_throtl_state \<Rightarrow> blk_throtl_state" where
  "kprobe_blk_throtl_add_bio_tg cfg K caller bio start_ns f s =
     (if ignored_caller_start cfg \<le> caller \<and> caller < ignored_caller_end cfg then s
      else if caller < tracked_caller_start cfg \<or> tracked_caller_end cfg \<le> caller
      then blk_throtl_fail BLK_THROTL_FAILURE_UNKNOWN_CALLER 0 s
      else if blk_throtl_unhealthy s then s
      else if bio = 0 \<or> blk_throtl_wait_bio_operation K bio = None then s
      else
        let (ret, m) = bpf_map_update_elem f BPF_NOEXIST bio start_ns (pending_map s);
            s1 = s\<lparr>pending_map := m\<rparr>
        in if ret \<noteq> 0
           then blk_throtl_fail
                  (if ret = - EEXIST then BLK_THROTL_FAILURE_PENDING_COLLISION
                   else BLK_THROTL_FAILURE_PENDING_INSERT) ret s1
           else s1)"

definition kprobe_blk_throtl_pop_queued ::
  "u64 \<Rightarrow> u64 \<Rightarrow> map_fault \<Rightarrow> blk_throtl_state \<Rightarrow> blk_throtl_state" where
  "kprobe_blk_throtl_pop_queued parm2 task f s =
     (if parm2 \<noteq> 0 then s
      else
        let (ret, m) = bpf_map_update_elem f BPF_NOEXIST task True (pop_call_map s);
            s1 = s\<lparr>pop_call_map := m\<rparr>
        in if ret \<noteq> 0 then blk_throtl_fail BLK_THROTL_FAILURE_POP_STATE ret s1 else s1)"

record pop_faults =
  pf_call_delete :: map_fault
  pf_owner :: map_fault
  pf_aggregate :: map_fault
  pf_pending_delete :: map_fault

text \<open>The part of the return probe between finding the pending start time and its
  \<^verbatim>\<open>out\<close> label.\<close>

definition blk_throtl_settle ::
  "'a blk_kernel_scheme \<Rightarrow> u64 \<Rightarrow> u32 \<Rightarrow> u64 \<Rightarrow> u64 \<Rightarrow> u32 \<Rightarrow> pop_faults \<Rightarrow>
     blk_throtl_state \<Rightarrow> blk_throtl_state" where
  "blk_throtl_settle K bio operation start_ns now cpu fs s =
     (if blk_throtl_unhealthy s then s
      else if now < start_ns then blk_throtl_fail BLK_THROTL_FAILURE_TIME_ROLLBACK 0 s
      else
        let blkg = core_read (bi_blkg K) bio
        in if blkg = 0 then blk_throtl_fail BLK_THROTL_FAILURE_OWNER 0 s
           else
             case blk_throtl_lookup_or_create_owner K (pf_owner fs) blkg bio s of
               (None, s1) \<Rightarrow> s1
             | (Some owner, s1) \<Rightarrow>
                 blk_throtl_account_wait (pf_aggregate fs) cpu
                   \<lparr>wk_css = ow_css owner, wk_css_serial = ow_css_serial owner,
                    wk_major = ow_major owner, wk_minor = ow_minor owner,
                    wk_operation = operation, wk_reserved = 0\<rparr>
                   (now - start_ns) s1)"

definition kretprobe_blk_throtl_pop_queued ::
  "'a blk_kernel_scheme \<Rightarrow> u64 \<Rightarrow> u64 \<Rightarrow> u64 \<Rightarrow> u32 \<Rightarrow> pop_faults \<Rightarrow>
     blk_throtl_state \<Rightarrow> blk_throtl_state" where
  "kretprobe_blk_throtl_pop_queued K bio task now cpu fs s =
     (case pop_call_map s task of
        None \<Rightarrow> s
      | Some _ \<Rightarrow>
          let (ret, m) = bpf_map_delete_elem (pf_call_delete fs) task (pop_call_map s);
              s1 = s\<lparr>pop_call_map := m\<rparr>
          in if ret \<noteq> 0 then blk_throtl_fail BLK_THROTL_FAILURE_POP_STATE ret s1
             else if bio = 0 then s1
             else
               case blk_throtl_wait_bio_operation K bio of
                 None \<Rightarrow> s1
               | Some operation \<Rightarrow>
                   (case pending_map s1 bio of
                      None \<Rightarrow> s1
                    | Some start_ns \<Rightarrow>
                        snd (blk_throtl_delete_pending (pf_pending_delete fs) bio
                               (blk_throtl_settle K bio operation start_ns now cpu fs s1))))"

definition kprobe_blk_throtl_pd_free ::
  "'a blk_kernel_scheme \<Rightarrow> u64 \<Rightarrow> map_fault \<Rightarrow> map_fault \<Rightarrow> blk_throtl_state \<Rightarrow> blk_throtl_state" where
  "kprobe_blk_throtl_pd_free K pd f_retire f_delete s =
     (let blkg = (if pd \<noteq> 0 then core_read (pd_blkg K) pd else 0)
      in if blkg = 0 then s
         else
           case blkg_owner_map s blkg of
             None \<Rightarrow> s
           | Some owner \<Rightarrow>
               snd (blk_throtl_delete_owner f_delete blkg
                      (blk_throtl_retire_aggregate f_retire owner s)))"

text \<open>One firing of one probe of the object.\<close>

datatype throtl_event =
    Add_bio_tg blk_kernel u64 u64 u64 map_fault
  | Pop_queued u64 u64 map_fault
  | Pop_queued_ret blk_kernel u64 u64 u64 u32 pop_faults
  | Pd_free blk_kernel u64 map_fault map_fault
  | Device_hook device_event

fun throtl_step :: "blk_throtl_config \<Rightarrow> throtl_event \<Rightarrow> blk_throtl_state \<Rightarrow> blk_throtl_state" where
  "throtl_step cfg (Add_bio_tg K caller bio now f) s =
     kprobe_blk_throtl_add_bio_tg cfg K caller bio now f s"
| "throtl_step cfg (Pop_queued parm2 task f) s = kprobe_blk_throtl_pop_queued parm2 task f s"
| "throtl_step cfg (Pop_queued_ret K bio task now cpu fs) s =
     kretprobe_blk_throtl_pop_queued K bio task now cpu fs s"
| "throtl_step cfg (Pd_free K pd f1 f2) s = kprobe_blk_throtl_pd_free K pd f1 f2 s"
| "throtl_step cfg (Device_hook e) s = s\<lparr>status := io_control_device_hook e (status s)\<rparr>"

definition blk_throtl_init :: blk_throtl_state where
  "blk_throtl_init =
     \<lparr>blkg_owner_map = Map.empty, retired_map = Map.empty, pending_map = Map.empty,
      pop_call_map = Map.empty, wait_agg_map = Map.empty,
      status = Some \<lparr>failure = 0, devices_changed = 0\<rparr>\<rparr>"

section \<open>Health and frames\<close>

lemma blk_throtl_unhealthy_status: "blk_throtl_unhealthy s = unhealthy (status s)"
  by (simp add: blk_throtl_unhealthy_def unhealthy_def)

interpretation throtl: failure_latch blk_throtl_publish
proof unfold_locales
  show "reports P st (blk_throtl_publish r e st)" if "r \<noteq> 0" "P r" for r e P st
    using that by (cases st) (auto simp: blk_throtl_publish_def reports_def)
qed

lemmas throtl_reports [simp, intro] = throtl.fail_reports throtl.fail_after

lemma publish_unhealthy [simp]: "r \<noteq> 0 \<Longrightarrow> unhealthy (blk_throtl_publish r e st)"
  by (auto simp: blk_throtl_publish_def unhealthy_def split: option.splits)

lemma blk_throtl_fail_simps [simp]:
  "blkg_owner_map (blk_throtl_fail r e s) = blkg_owner_map s"
  "retired_map (blk_throtl_fail r e s) = retired_map s"
  "pending_map (blk_throtl_fail r e s) = pending_map s"
  "pop_call_map (blk_throtl_fail r e s) = pop_call_map s"
  "wait_agg_map (blk_throtl_fail r e s) = wait_agg_map s"
  "status (blk_throtl_fail r e s) = blk_throtl_publish r e (status s)"
  by (simp_all add: blk_throtl_fail_def)

lemma delete_pending_effect:
  "blk_throtl_delete_pending f bio s = (ok, s') \<Longrightarrow>
     blkg_owner_map s' = blkg_owner_map s \<and> wait_agg_map s' = wait_agg_map s \<and>
     (if ok then pending_map s' = (pending_map s)(bio := None) \<and> status s' = status s
      else pending_map s' = pending_map s \<and>
           unhealthy (status s') \<and>
           reports (\<lambda>r. r = BLK_THROTL_FAILURE_PENDING_DELETE) (status s) (status s'))"
  by (cases f; cases "pending_map s bio")
    (auto simp: blk_throtl_delete_pending_def bpf_map_delete_elem_def Let_def split: if_splits)

lemma owner_effect:
  "blk_throtl_lookup_or_create_owner K f blkg bio s = (r, s') \<Longrightarrow>
     pending_map s' = pending_map s \<and> wait_agg_map s' = wait_agg_map s \<and>
     (r \<noteq> None \<longrightarrow> status s' = status s \<and> blkg_owner_map s' blkg = r) \<and>
     reports (\<lambda>r. r = BLK_THROTL_FAILURE_OWNER) (status s) (status s')"
  by (auto simp: blk_throtl_lookup_or_create_owner_def Let_def
      split: option.splits if_splits prod.splits)

lemma account_frame:
  "pending_map (blk_throtl_account_wait f cpu key ns s) = pending_map s"
  "blkg_owner_map (blk_throtl_account_wait f cpu key ns s) = blkg_owner_map s"
  by (auto simp: blk_throtl_account_wait_def Let_def split: option.splits prod.splits)

lemma account_status:
  "reports (\<lambda>r. r = BLK_THROTL_FAILURE_AGGREGATE) (status s)
     (status (blk_throtl_account_wait f cpu key ns s))"
  by (auto simp: blk_throtl_account_wait_def Let_def split: option.splits prod.splits)

lemma account_one_more:
  "one_more key cpu (wait_agg_map s) (wait_agg_map (blk_throtl_account_wait f cpu key ns s))"
proof (cases "wait_agg_map s key")
  case (Some row)
  then show ?thesis
    by (auto simp: blk_throtl_account_wait_def one_more_def counter_def wait_count_add_le)
next
  case None
  then show ?thesis
    using wait_count_add_le [of 0 ns]
    by (cases rule: bmap.update_cases [of f BPF_NOEXIST key "\<lambda>_. 0" "wait_agg_map s"])
      (auto simp: blk_throtl_account_wait_def one_more_def counter_def)
qed

section \<open>What one firing can do\<close>

text \<open>The three ways a firing can move waits: keep or drop pending starts without touching a
  counter, admit one bio, or settle one wait into one counter.\<close>

definition drops :: "blk_throtl_state \<Rightarrow> blk_throtl_state \<Rightarrow> bool" where
  "drops s s' \<longleftrightarrow> wait_agg_map s' = wait_agg_map s \<and> pending_map s' \<subseteq>\<^sub>m pending_map s"

definition admits :: "u64 \<Rightarrow> u64 \<Rightarrow> blk_throtl_state \<Rightarrow> blk_throtl_state \<Rightarrow> bool" where
  "admits bio now s s' \<longleftrightarrow> pending_map s bio = None \<and> wait_agg_map s' = wait_agg_map s \<and>
     pending_map s' = (pending_map s)(bio \<mapsto> now) \<and> \<not> unhealthy (status s)"

definition settles :: "u64 \<Rightarrow> io_control_wait_key \<Rightarrow> u32 \<Rightarrow> blk_throtl_state \<Rightarrow> blk_throtl_state \<Rightarrow> bool" where
  "settles bio key cpu s s' \<longleftrightarrow> \<not> unhealthy (status s) \<and> pending_map s bio \<noteq> None \<and>
     one_more key cpu (wait_agg_map s) (wait_agg_map s') \<and>
     (pending_map s' = (pending_map s)(bio := None) \<or>
      pending_map s' = pending_map s \<and> unhealthy (status s'))"

lemma settle_effect:
  assumes s': "s' = blk_throtl_settle K bio op st now cpu fs s"
  shows "pending_map s' = pending_map s \<and>
    (unhealthy (status s) \<longrightarrow> s' = s) \<and>
    (\<exists>key. one_more key cpu (wait_agg_map s) (wait_agg_map s')) \<and>
    reports (\<lambda>r. r = BLK_THROTL_FAILURE_TIME_ROLLBACK \<longrightarrow> now < st) (status s) (status s')"
proof (cases "blk_throtl_unhealthy s \<or> now < st \<or> core_read (bi_blkg K) bio = 0")
  case True
  then show ?thesis
    unfolding s'
    by (auto simp: blk_throtl_settle_def Let_def blk_throtl_unhealthy_status)
next
  case False
  obtain r s1 where o: "blk_throtl_lookup_or_create_owner K (pf_owner fs) (core_read (bi_blkg K) bio) bio s = (r, s1)"
    by (cases "blk_throtl_lookup_or_create_owner K (pf_owner fs) (core_read (bi_blkg K) bio) bio s") auto
  note oe = owner_effect [OF o]
  show ?thesis
  proof (cases r)
    case None
    with False o oe show ?thesis
      unfolding s'
      by (auto simp: blk_throtl_settle_def Let_def blk_throtl_unhealthy_status elim!: reports_mono)
  next
    case (Some owner)
    define key where "key = \<lparr>wk_css = ow_css owner, wk_css_serial = ow_css_serial owner,
      wk_major = ow_major owner, wk_minor = ow_minor owner, wk_operation = op, wk_reserved = 0\<rparr>"
    have eq: "s' =
        blk_throtl_account_wait (pf_aggregate fs) cpu key (now - st) s1"
      using False o Some unfolding s' key_def by (simp add: blk_throtl_settle_def Let_def)
    show ?thesis
      unfolding eq using False oe Some account_one_more [of key cpu s1 "pf_aggregate fs" "now - st"]
        account_status [of s1 "pf_aggregate fs" cpu key "now - st"]
      by (auto simp: account_frame blk_throtl_unhealthy_status elim!: reports_mono)
  qed
qed


lemma add_effect:
  assumes "s' = kprobe_blk_throtl_add_bio_tg cfg K caller bio now f s"
  shows "(drops s s' \<or> admits bio now s s') \<and> blkg_owner_map s' = blkg_owner_map s \<and>
    reports (\<lambda>r. r \<noteq> BLK_THROTL_FAILURE_TIME_ROLLBACK) (status s) (status s')"
  unfolding assms kprobe_blk_throtl_add_bio_tg_def blk_throtl_unhealthy_status drops_def admits_def
  by (cases f; cases "pending_map s bio") (auto simp: Let_def bpf_map_update_elem_def)

lemma pop_effect:
  assumes "s' = kprobe_blk_throtl_pop_queued parm2 task f s"
  shows "drops s s' \<and> blkg_owner_map s' = blkg_owner_map s \<and>
    reports (\<lambda>r. r \<noteq> BLK_THROTL_FAILURE_TIME_ROLLBACK) (status s) (status s')"
  unfolding assms kprobe_blk_throtl_pop_queued_def drops_def
  by (auto simp: Let_def split: prod.splits)

lemma pd_free_effect:
  assumes "s' = kprobe_blk_throtl_pd_free K pd f1 f2 s"
  shows "drops s s' \<and> pop_call_map s' = pop_call_map s \<and>
    reports (\<lambda>r. r \<noteq> BLK_THROTL_FAILURE_TIME_ROLLBACK) (status s) (status s')"
  unfolding assms kprobe_blk_throtl_pd_free_def blk_throtl_delete_owner_def
    blk_throtl_retire_aggregate_def drops_def
  by (auto simp: Let_def split: prod.splits option.splits)

lemma pop_ret_effect:
  assumes s': "s' = kretprobe_blk_throtl_pop_queued K bio task now cpu fs s"
  shows "(drops s s' \<or> (\<exists>key. settles bio key cpu s s')) \<and>
    reports (\<lambda>r. r = BLK_THROTL_FAILURE_TIME_ROLLBACK \<longrightarrow> (\<exists>st. pending_map s bio = Some st \<and> now < st))
      (status s) (status s')"
proof (cases "\<exists>st op. pop_call_map s task \<noteq> None \<and>
    fst (bpf_map_delete_elem (pf_call_delete fs) task (pop_call_map s)) = 0 \<and> bio \<noteq> 0 \<and>
    blk_throtl_wait_bio_operation K bio = Some op \<and> pending_map s bio = Some st")
  case False
  then show ?thesis
    unfolding s' kretprobe_blk_throtl_pop_queued_def drops_def
    by (auto simp: Let_def split: prod.splits option.splits)
next
  case True
  then obtain st op m where h: "pop_call_map s task \<noteq> None" "bio \<noteq> 0"
      "bpf_map_delete_elem (pf_call_delete fs) task (pop_call_map s) = (0, m)"
      "blk_throtl_wait_bio_operation K bio = Some op" "pending_map s bio = Some st"
    by (metis prod.collapse)
  define s1 where "s1 = s\<lparr>pop_call_map := m\<rparr>"
  define s2 where "s2 = blk_throtl_settle K bio op st now cpu fs s1"
  obtain ok where d: "blk_throtl_delete_pending (pf_pending_delete fs) bio s2 = (ok, s')"
    using h unfolding s' kretprobe_blk_throtl_pop_queued_def s1_def s2_def
    by (cases "blk_throtl_delete_pending (pf_pending_delete fs) bio s2") (auto simp: s1_def s2_def)
  have [simp]: "pending_map s1 = pending_map s" "wait_agg_map s1 = wait_agg_map s" "status s1 = status s"
    by (simp_all add: s1_def)
  note e1 = settle_effect [OF s2_def] and e2 = delete_pending_effect [OF d]
  have "drops s s' \<or> (\<exists>key. settles bio key cpu s s')"
  proof (cases "unhealthy (status s)")
    case True
    with e1 e2 show ?thesis by (auto simp: drops_def map_le_def split: if_splits)
  next
    case False
    with e1 e2 h(5) show ?thesis unfolding settles_def by (auto split: if_splits)
  qed
  moreover have "reports (\<lambda>r. r = BLK_THROTL_FAILURE_TIME_ROLLBACK \<longrightarrow> now < st) (status s) (status s')"
  proof (rule reports_trans)
    show "reports (\<lambda>r. r = BLK_THROTL_FAILURE_TIME_ROLLBACK \<longrightarrow> now < st) (status s) (status s2)"
      using e1 by simp
    show "reports (\<lambda>r. r = BLK_THROTL_FAILURE_TIME_ROLLBACK \<longrightarrow> now < st) (status s2) (status s')"
      using e2 by (auto elim: reports_mono split: if_splits)
  qed
  ultimately show ?thesis using h(5) by (auto elim: reports_mono)
qed

lemma settle_pop_call:
  "pop_call_map (blk_throtl_settle K bio op st now cpu fs s) = pop_call_map s"
  by (auto simp: blk_throtl_settle_def blk_throtl_lookup_or_create_owner_def
      blk_throtl_account_wait_def Let_def split: option.splits prod.splits if_splits)

section \<open>A concrete session\<close>

text \<open>A write of 4096 bytes by the bio at address 8, in the blkg at 16 of disk 8:0.\<close>

definition demo_cfg :: blk_throtl_config where
  "demo_cfg = \<lparr>tracked_caller_start = 100, tracked_caller_end = 200,
     ignored_caller_start = 0, ignored_caller_end = 50\<rparr>"

definition demo_kernel :: blk_kernel where
  "demo_kernel = empty_blk_kernel\<lparr>bi_opf := [8 \<mapsto> 1], bi_size := [8 \<mapsto> 4096], bi_blkg := [8 \<mapsto> 16],
     bi_disk := [8 \<mapsto> 64], blkg_blkcg := [16 \<mapsto> 32], css_serial_nr := [32 \<mapsto> 7],
     disk_major := [64 \<mapsto> 8], disk_first_minor := [64 \<mapsto> 0], pd_blkg := [24 \<mapsto> 16]\<rparr>"

definition no_pop_faults :: pop_faults where
  "no_pop_faults = \<lparr>pf_call_delete = Fault_none, pf_owner = Fault_none,
     pf_aggregate = Fault_none, pf_pending_delete = Fault_none\<rparr>"

definition demo_failed :: blk_throtl_state where
  "demo_failed = blk_throtl_init\<lparr>status := Some \<lparr>failure = pack_failure 6 0, devices_changed = 0\<rparr>\<rparr>"

lemma demo_kernel_fields [simp]:
  "bi_blkg demo_kernel = [8 \<mapsto> 16]" "pd_blkg demo_kernel = [24 \<mapsto> 16]"
  "blkg_blkcg demo_kernel = [16 \<mapsto> 32]" "blkcg_css_offset demo_kernel = 0"
  "css_serial_nr demo_kernel = [32 \<mapsto> 7]" "disk_major demo_kernel = [64 \<mapsto> 8]"
  "disk_first_minor demo_kernel = [64 \<mapsto> 0]" "bio_disk demo_kernel 8 = 64"
  by (simp_all add: demo_kernel_def empty_blk_kernel_def bio_disk_def core_read_def)

lemma demo_operation [simp]: "blk_throtl_wait_bio_operation demo_kernel 8 = Some 1"
  by (simp add: blk_throtl_wait_bio_operation_def demo_kernel_def core_read_def)

lemma demo_init [simp]:
  "\<not> unhealthy (status blk_throtl_init)" "pending_map blk_throtl_init = Map.empty"
  "pop_call_map blk_throtl_init = Map.empty" "blkg_owner_map blk_throtl_init = Map.empty"
  "wait_agg_map blk_throtl_init = Map.empty" "retired_map blk_throtl_init = Map.empty"
  by (simp_all add: blk_throtl_init_def unhealthy_def)

section \<open>Runs\<close>

lemma step_moves:
  assumes "s' = throtl_step cfg e s"
  obtains (drop) "drops s s'"
    | (admit) K caller bio now f where "e = Add_bio_tg K caller bio now f" "admits bio now s s'"
    | (settle) K bio task now cpu fs key where "e = Pop_queued_ret K bio task now cpu fs"
        "settles bio key cpu s s'"
proof (cases e)
  case (Add_bio_tg K caller bio now f)
  with assms have "s' = kprobe_blk_throtl_add_bio_tg cfg K caller bio now f s" by simp
  from add_effect [OF this] have "drops s s' \<or> admits bio now s s'" by (rule conjunct1)
  then show ?thesis using drop admit [OF Add_bio_tg] by (elim disjE)
next
  case (Pop_queued parm2 task f)
  with assms have "s' = kprobe_blk_throtl_pop_queued parm2 task f s" by simp
  from pop_effect [OF this, THEN conjunct1] show ?thesis by (rule drop)
next
  case (Pop_queued_ret K bio task now cpu fs)
  with assms have "s' = kretprobe_blk_throtl_pop_queued K bio task now cpu fs s" by simp
  from pop_ret_effect [OF this] have "drops s s' \<or> (\<exists>key. settles bio key cpu s s')" by (rule conjunct1)
  then show ?thesis using drop settle [OF Pop_queued_ret] by (elim disjE exE)
next
  case (Pd_free K pd f1 f2)
  with assms have "s' = kprobe_blk_throtl_pd_free K pd f1 f2 s" by simp
  from pd_free_effect [OF this, THEN conjunct1] show ?thesis by (rule drop)
next
  case (Device_hook d)
  with assms show ?thesis by (auto intro!: drop simp: drops_def)
qed

text \<open>The reasons a firing may publish; only the return probe can see the clock go back.\<close>

definition rolls_back :: "throtl_event \<Rightarrow> blk_throtl_state \<Rightarrow> bool" where
  "rolls_back e s = (case e of
      Pop_queued_ret K bio task now cpu fs \<Rightarrow>
        (case pending_map s bio of Some st \<Rightarrow> now < st | None \<Rightarrow> False)
    | _ \<Rightarrow> False)"

lemmas add_reports = add_effect [OF refl, THEN conjunct2, THEN conjunct2, THEN reports_mono]
  and pop_reports = pop_effect [OF refl, THEN conjunct2, THEN conjunct2, THEN reports_mono]
  and pd_free_reports = pd_free_effect [OF refl, THEN conjunct2, THEN conjunct2, THEN reports_mono]

lemma step_status:
  "(\<exists>d. e = Device_hook d \<and> status (throtl_step cfg e s) = io_control_device_hook d (status s)) \<or>
   reports (\<lambda>r. r = BLK_THROTL_FAILURE_TIME_ROLLBACK \<longrightarrow> rolls_back e s) (status s)
     (status (throtl_step cfg e s))"
proof (cases e)
  case (Pop_queued_ret K bio task now cpu fs)
  then show ?thesis
    using pop_ret_effect [OF refl, of s K bio task now cpu fs]
    by (auto simp: rolls_back_def elim!: reports_mono)
next
  case Add_bio_tg
  then show ?thesis by (auto intro: add_reports)
next
  case Pop_queued
  then show ?thesis by (auto intro: pop_reports)
next
  case Pd_free
  then show ?thesis by (auto intro: pd_free_reports)
qed simp

lemma step_unhealthy: "unhealthy (status s) \<Longrightarrow> unhealthy (status (throtl_step cfg e s))"
  using step_status [of e cfg s] by (auto dest: reports_unhealthy)

definition admitted :: "throtl_event \<Rightarrow> blk_throtl_state \<Rightarrow> blk_throtl_state \<Rightarrow> bool" where
  "admitted e s s' = (case e of
      Add_bio_tg K caller bio now f \<Rightarrow> pending_map s bio = None \<and> pending_map s' bio \<noteq> None
    | _ \<Rightarrow> False)"

fun admissions :: "blk_throtl_config \<Rightarrow> throtl_event list \<Rightarrow> blk_throtl_state \<Rightarrow> nat" where
  "admissions cfg [] s = 0"
| "admissions cfg (e # es) s =
     (if admitted e s (throtl_step cfg e s) then 1 else 0) + admissions cfg es (throtl_step cfg e s)"

text \<open>What the counters may have reached after \<open>n\<close> admissions: each pending start is an
  admission that has not been counted, unless the session has already failed.\<close>

definition ledger :: "(io_control_wait_key \<times> u32) set \<Rightarrow> nat \<Rightarrow> blk_throtl_state \<Rightarrow> bool" where
  "ledger P n s \<longleftrightarrow> finite (dom (pending_map s)) \<and> total P (wait_agg_map s) \<le> n \<and>
     (\<not> unhealthy (status s) \<longrightarrow> total P (wait_agg_map s) + card (dom (pending_map s)) \<le> n)"

lemma ledger_step:
  assumes fin: "finite P" and led: "ledger P n s" and s': "s' = throtl_step cfg e s"
  shows "ledger P (n + (if admitted e s s' then 1 else 0)) s'"
  using s'
proof (cases rule: step_moves)
  case drop
  then have d: "dom (pending_map s') \<subseteq> dom (pending_map s)" and w: "wait_agg_map s' = wait_agg_map s"
    by (auto simp: drops_def map_le_implies_dom_le)
  then have "card (dom (pending_map s')) \<le> card (dom (pending_map s))" "finite (dom (pending_map s'))"
    using led by (auto simp: ledger_def intro: card_mono finite_subset)
  moreover have "\<not> unhealthy (status s') \<Longrightarrow> \<not> unhealthy (status s)"
    using step_unhealthy s' by blast
  ultimately show ?thesis using led w by (auto simp: ledger_def)
next
  case (admit K caller bio now f)
  then have "admitted e s s'" by (simp add: admits_def admitted_def)
  moreover have "card (dom (pending_map s')) = Suc (card (dom (pending_map s)))"
    using admit(2) led card_insert_disjoint [of "dom (pending_map s)" bio]
    by (simp add: admits_def ledger_def domIff)
  ultimately show ?thesis using led admit by (auto simp: ledger_def admits_def)
next
  case (settle K bio task now cpu fs key)
  then have h: "\<not> unhealthy (status s)" "bio \<in> dom (pending_map s)"
    and t: "total P (wait_agg_map s') \<le> Suc (total P (wait_agg_map s))"
    by (auto simp: settles_def intro: total_one_more)
  have pos: "card (dom (pending_map s)) > 0"
    using led h by (auto simp: ledger_def card_gt_0_iff)
  have c: "card (dom (pending_map s) - {bio}) = card (dom (pending_map s)) - 1"
    using h(2) by (rule card_Diff_singleton)
  have n: "Suc (total P (wait_agg_map s)) \<le> n" and
    n': "Suc (total P (wait_agg_map s)) + card (dom (pending_map s) - {bio}) \<le> n"
    using led h(1) pos unfolding c by (simp_all add: ledger_def)
  have "finite (dom (pending_map s'))"
    using settle led by (auto simp: ledger_def settles_def)
  moreover have "total P (wait_agg_map s') \<le> n" using t n by simp
  moreover have "total P (wait_agg_map s') + card (dom (pending_map s')) \<le> n" if "\<not> unhealthy (status s')"
    using that settle t n' by (auto simp: settles_def simp del: card_Diff_insert)
  ultimately show ?thesis using settle(1) by (simp add: ledger_def admitted_def)
qed

lemma ledger_run:
  "finite P \<Longrightarrow> ledger P n s \<Longrightarrow> ledger P (n + admissions cfg es s) (fold (throtl_step cfg) es s)"
proof (induction es arbitrary: n s)
  case (Cons e es)
  from Cons.IH [OF Cons.prems(1) ledger_step [where cfg = cfg and e = e, OF Cons.prems refl]]
  show ?case by (simp add: add.assoc)
qed simp

text \<open>C1. No wait is counted twice: in every run of the probes from an empty session, whatever
  the interleaving and whatever helper calls fail, the IOs summed over any set of counters are
  at most the bios admitted.\<close>

theorem throtl_no_double_count:
  assumes "finite P"
  shows "(\<Sum>(k, c) \<in> P. counter (wait_agg_map (fold (throtl_step cfg) es blk_throtl_init)) k c)
           \<le> admissions cfg es blk_throtl_init"
proof -
  have "ledger P 0 blk_throtl_init"
    by (simp add: ledger_def total_def counter_def blk_throtl_init_def split_def)
  from ledger_run [OF assms this, of cfg es] show ?thesis by (simp add: ledger_def total_def)
qed

theorem throtl_no_double_count_witness:
  "admissions demo_cfg [Add_bio_tg demo_kernel 150 8 1000 Fault_none] blk_throtl_init = 1 \<and>
   (\<Sum>(k, c) \<in> {(\<lparr>wk_css = 32, wk_css_serial = 7, wk_major = 8, wk_minor = 0, wk_operation = 1,
                  wk_reserved = 0\<rparr>, 0)}.
      counter (wait_agg_map (fold (throtl_step demo_cfg)
        [Add_bio_tg demo_kernel 150 8 1000 Fault_none] blk_throtl_init)) k c) \<le> 1"
proof -
  have a: "admissions demo_cfg [Add_bio_tg demo_kernel 150 8 1000 Fault_none] blk_throtl_init = 1"
    by (simp add: admitted_def kprobe_blk_throtl_add_bio_tg_def blk_throtl_unhealthy_status
        demo_cfg_def word_cmp_nat)
  from throtl_no_double_count [of "{(\<lparr>wk_css = 32, wk_css_serial = 7, wk_major = 8, wk_minor = 0,
      wk_operation = 1, wk_reserved = 0\<rparr>, 0)}" demo_cfg "[Add_bio_tg demo_kernel 150 8 1000 Fault_none]"]
  show ?thesis unfolding a by simp
qed

text \<open>C3. A failed session stays failed and frozen: after a failure was published no sequence of
  probe firings makes the session healthy again, changes a wait counter or admits a bio.\<close>

theorem throtl_failure_sticky:
  assumes "unhealthy (status s)"
  shows "unhealthy (status (fold (throtl_step cfg) es s)) \<and>
         wait_agg_map (fold (throtl_step cfg) es s) = wait_agg_map s \<and>
         pending_map (fold (throtl_step cfg) es s) \<subseteq>\<^sub>m pending_map s"
  using assms
proof (induction es arbitrary: s)
  case (Cons e es)
  have "drops s (throtl_step cfg e s)"
    by (cases rule: step_moves [of "throtl_step cfg e s" cfg e s, OF refl]) (use Cons.prems in \<open>auto simp: admits_def settles_def\<close>)
  with Cons.IH [OF step_unhealthy [OF Cons.prems]] show ?case
    by (auto simp: drops_def intro: map_le_trans)
qed simp

theorem throtl_failure_sticky_witness:
  "unhealthy (status demo_failed) \<and>
   wait_agg_map (fold (throtl_step demo_cfg) [Add_bio_tg demo_kernel 150 8 1000 Fault_none] demo_failed) =
     wait_agg_map demo_failed"
proof -
  have u: "unhealthy (status demo_failed)" by (simp add: demo_failed_def unhealthy_def)
  from throtl_failure_sticky [OF u, of demo_cfg "[Add_bio_tg demo_kernel 150 8 1000 Fault_none]"] u
  show ?thesis by blast
qed

section \<open>The clock\<close>

fun event_time :: "throtl_event \<Rightarrow> u64 list" where
  "event_time (Add_bio_tg K caller bio now f) = [now]"
| "event_time (Pop_queued_ret K bio task now cpu fs) = [now]"
| "event_time _ = []"

definition started_by :: "u64 \<Rightarrow> blk_throtl_state \<Rightarrow> bool" where
  "started_by t s \<longleftrightarrow> (\<forall>bio st. pending_map s bio = Some st \<longrightarrow> st \<le> t) \<and>
     failure_reason (status s) \<noteq> BLK_THROTL_FAILURE_TIME_ROLLBACK"

lemma started_by_step:
  assumes inv: "started_by t s" and t: "\<forall>u \<in> set (event_time e). t \<le> u"
  shows "started_by (last (t # event_time e)) (throtl_step cfg e s)"
proof -
  have t': "t \<le> last (t # event_time e)"
    using t by (cases e) auto
  have "\<not> rolls_back e s"
    using inv t by (cases e)
      (auto simp: rolls_back_def started_by_def not_less dest: order_trans split: option.splits)
  then have r: "failure_reason (status (throtl_step cfg e s)) \<noteq> BLK_THROTL_FAILURE_TIME_ROLLBACK"
    using step_status [of e cfg s] inv by (auto simp: started_by_def dest: reports_reason)
  have old: "st \<le> last (t # event_time e)" if "pending_map s bio = Some st" for bio st
    using that inv t' unfolding started_by_def by (meson order_trans)
  have "st \<le> last (t # event_time e)" if p: "pending_map s' bio = Some st"
      and s': "s' = throtl_step cfg e s" for s' bio st
    using s'
  proof (cases rule: step_moves)
    case drop
    then have "pending_map s bio = Some st"
      using p by (auto simp: drops_def map_le_def dom_def)
    then show ?thesis by (rule old)
  next
    case admit
    then show ?thesis using p old [of bio st] by (auto simp: admits_def split: if_splits)
  next
    case settle
    then have "pending_map s bio = Some st"
      using p by (auto simp: settles_def split: if_splits)
    then show ?thesis by (rule old)
  qed
  with r show ?thesis by (auto simp: started_by_def)
qed

lemma started_by_run:
  "started_by t s \<Longrightarrow> sorted (t # concat (map event_time es)) \<Longrightarrow>
   \<exists>u. started_by u (fold (throtl_step cfg) es s)"
proof (induction es arbitrary: t s)
  case (Cons e es)
  have "started_by (last (t # event_time e)) (throtl_step cfg e s)"
    using Cons.prems by (intro started_by_step) auto
  moreover have "sorted (last (t # event_time e) # concat (map event_time es))"
    using Cons.prems(2) by (cases e) auto
  ultimately show ?case using Cons.IH by simp
qed auto

text \<open>With a clock that does not go back, no session fails with a time rollback: the
  unsigned subtraction of the start time never wraps.\<close>

theorem throtl_no_rollback:
  assumes "sorted (concat (map event_time es))"
  shows "failure_reason (status (fold (throtl_step cfg) es blk_throtl_init))
           \<noteq> BLK_THROTL_FAILURE_TIME_ROLLBACK"
proof -
  have "started_by 0 blk_throtl_init"
    by (simp add: started_by_def blk_throtl_init_def failure_reason_def)
  from started_by_run [OF this, of es cfg] assms show ?thesis
    by (auto simp: started_by_def)
qed

section \<open>One wait, end to end\<close>

definition retired_key :: "blk_throtl_blkg_owner \<Rightarrow> io_control_retired_key" where
  "retired_key owner = \<lparr>rk_css = ow_css owner, rk_css_serial = ow_css_serial owner,
     rk_major = ow_major owner, rk_minor = ow_minor owner\<rparr>"

definition owner_wait_key :: "blk_throtl_blkg_owner \<Rightarrow> u32 \<Rightarrow> io_control_wait_key" where
  "owner_wait_key owner op = \<lparr>wk_css = ow_css owner, wk_css_serial = ow_css_serial owner,
     wk_major = ow_major owner, wk_minor = ow_minor owner, wk_operation = op, wk_reserved = 0\<rparr>"

text \<open>Who a bio is charged to: the saved owner of its blkg, or the identity read from it.\<close>

definition bio_owner :: "'a blk_kernel_scheme \<Rightarrow> u64 \<Rightarrow> u64 \<Rightarrow> blk_throtl_state \<Rightarrow> blk_throtl_blkg_owner" where
  "bio_owner K blkg bio s = (case blkg_owner_map s blkg of
      Some owner \<Rightarrow> owner
    | None \<Rightarrow>
        \<lparr>ow_css = blkcg_css K (core_read (blkg_blkcg K) blkg),
         ow_css_serial = core_read (css_serial_nr K) (blkcg_css K (core_read (blkg_blkcg K) blkg)),
         ow_major = core_read (disk_major K) (bio_disk K bio),
         ow_minor = core_read (disk_first_minor K) (bio_disk K bio)\<rparr>)"

lemma bio_owner_frame [simp]:
  "bio_owner K blkg bio (pending_map_update g s) = bio_owner K blkg bio s"
  "bio_owner K blkg bio (pop_call_map_update h s) = bio_owner K blkg bio s"
  by (simp_all add: bio_owner_def)

text \<open>Every failed helper fails the session, so in a session that is still healthy afterwards all of them
  succeeded.\<close>

lemma owner_healthy:
  assumes "blk_throtl_lookup_or_create_owner K f blkg bio s = (r, s')" and "\<not> unhealthy (status s')"
  shows "r = Some (bio_owner K blkg bio s) \<and>
    s' = s\<lparr>blkg_owner_map := (blkg_owner_map s)(blkg \<mapsto> bio_owner K blkg bio s)\<rparr>"
proof (cases "blkg_owner_map s blkg")
  case None
  with assms show ?thesis
    by (auto simp: blk_throtl_lookup_or_create_owner_def bio_owner_def bpf_map_update_elem_def Let_def split: if_splits)
next
  case (Some owner)
  then have "r = Some owner" "s' = s" using assms(1) by (simp_all add: blk_throtl_lookup_or_create_owner_def)
  with Some show ?thesis by (simp add: bio_owner_def fun_upd_idem)
qed

lemma account_healthy:
  assumes "\<not> unhealthy (status (blk_throtl_account_wait f cpu key ns s))"
  shows "blk_throtl_account_wait f cpu key ns s =
     s\<lparr>wait_agg_map := (wait_agg_map s)(key \<mapsto>
         (table_row (wait_agg_map s) key)(cpu := io_control_wait_add (table_row (wait_agg_map s) key cpu) ns))\<rparr>"
  using assms
  by (cases "wait_agg_map s key")
    (auto simp: blk_throtl_account_wait_def bpf_map_update_elem_def table_row_def split: if_splits)

lemma settle_healthy:
  assumes "\<not> unhealthy (status (blk_throtl_settle K bio operation start now cpu fs s))"
    and blkg: "blkg = core_read (bi_blkg K) bio" and owner: "owner = bio_owner K blkg bio s"
    and key: "key = owner_wait_key owner operation"
  shows "start \<le> now \<and> blkg \<noteq> 0 \<and> blk_throtl_settle K bio operation start now cpu fs s =
    s\<lparr>blkg_owner_map := (blkg_owner_map s)(blkg \<mapsto> owner),
      wait_agg_map := (wait_agg_map s)(key \<mapsto> (table_row (wait_agg_map s) key)
        (cpu := io_control_wait_add (table_row (wait_agg_map s) key cpu) (now - start)))\<rparr>"
proof -
  obtain r s1 where o: "blk_throtl_lookup_or_create_owner K (pf_owner fs) blkg bio s = (r, s1)"
    by (cases "blk_throtl_lookup_or_create_owner K (pf_owner fs) blkg bio s")
  have guards: "\<not> blk_throtl_unhealthy s" "\<not> now < start" "blkg \<noteq> 0"
    using assms(1) by (auto simp: blk_throtl_settle_def blk_throtl_unhealthy_status blkg Let_def split: if_splits)
  have "\<not> unhealthy (status s1)"
    using assms(1) guards o reports_unhealthy [OF account_status [of s1]]
    by (auto simp: blk_throtl_settle_def blkg [symmetric] Let_def split: option.splits)
  note oh = owner_healthy [OF o this]
  have "blk_throtl_settle K bio operation start now cpu fs s =
      blk_throtl_account_wait (pf_aggregate fs) cpu key (now - start) s1"
    using guards o oh by (simp add: blk_throtl_settle_def blkg [symmetric] key owner owner_wait_key_def)
  moreover from this have "\<not> unhealthy (status (blk_throtl_account_wait (pf_aggregate fs) cpu key (now - start) s1))"
    using assms(1) by simp
  ultimately show ?thesis
    using account_healthy [of "pf_aggregate fs" cpu key "now - start" s1] oh guards by (simp add: owner not_less)
qed

lemma healthy_before: "\<not> unhealthy (status (fold (throtl_step cfg) es s)) \<Longrightarrow> \<not> unhealthy (status s)"
  by (induction es arbitrary: s) (auto dest: step_unhealthy)

lemma add_admitted:
  assumes "\<not> unhealthy (status (throtl_step cfg (Add_bio_tg K caller bio start f) s))"
    and "tracked_caller_start cfg \<le> caller" "caller < tracked_caller_end cfg"
    and "\<not> (ignored_caller_start cfg \<le> caller \<and> caller < ignored_caller_end cfg)"
    and "bio \<noteq> 0" "blk_throtl_wait_bio_operation K bio \<noteq> None"
  shows "pending_map (throtl_step cfg (Add_bio_tg K caller bio start f) s) bio = Some start"
proof -
  have "\<not> blk_throtl_unhealthy s" using assms(1) step_unhealthy blk_throtl_unhealthy_status by blast
  then show ?thesis
    using assms by (auto simp: kprobe_blk_throtl_add_bio_tg_def bpf_map_update_elem_def Let_def split: if_splits)
qed

lemma pop_marked:
  assumes "\<not> unhealthy (status (throtl_step cfg (Pop_queued 0 task f) s))"
  shows "pop_call_map (throtl_step cfg (Pop_queued 0 task f) s) task = Some True"
  using assms by (auto simp: kprobe_blk_throtl_pop_queued_def bpf_map_update_elem_def Let_def split: if_splits)

text \<open>Who may change the pending start of a bio, and the pop marker of a task.\<close>

fun touches_bio :: "throtl_event \<Rightarrow> u64 \<Rightarrow> bool" where
  "touches_bio (Add_bio_tg K caller b now f) bio \<longleftrightarrow> b = bio"
| "touches_bio (Pop_queued_ret K b task now cpu fs) bio \<longleftrightarrow> b = bio"
| "touches_bio _ bio \<longleftrightarrow> False"

fun touches_marker :: "throtl_event \<Rightarrow> u64 \<Rightarrow> bool" where
  "touches_marker (Pop_queued parm2 t f) task \<longleftrightarrow> parm2 = 0 \<and> t = task"
| "touches_marker (Pop_queued_ret K b t now cpu fs) task \<longleftrightarrow> t = task"
| "touches_marker _ task \<longleftrightarrow> False"

lemma delete_pending_other:
  "j \<noteq> bio \<Longrightarrow> pending_map (snd (blk_throtl_delete_pending f bio s)) j = pending_map s j"
  "pop_call_map (snd (blk_throtl_delete_pending f bio s)) = pop_call_map s"
  by (simp_all add: blk_throtl_delete_pending_def Let_def case_prod_beta bmap.delete_other)

lemma pd_free_frame:
  "pending_map (kprobe_blk_throtl_pd_free K pd f1 f2 s) = pending_map s"
  "pop_call_map (kprobe_blk_throtl_pd_free K pd f1 f2 s) = pop_call_map s"
  by (simp_all add: kprobe_blk_throtl_pd_free_def blk_throtl_delete_owner_def blk_throtl_retire_aggregate_def Let_def
      case_prod_beta split: option.split)

interpretation bios: touched_rows "throtl_step cfg" pending_map touches_bio "\<lambda>_. True" for cfg
proof unfold_locales
  show "pending_map (throtl_step cfg e s) bio = pending_map s bio" if "\<not> touches_bio e bio" for e s bio
    using that
    by (cases e) (auto simp: settle_effect [OF refl, THEN conjunct1] kprobe_blk_throtl_add_bio_tg_def kprobe_blk_throtl_pop_queued_def
        kretprobe_blk_throtl_pop_queued_def pd_free_frame delete_pending_other Let_def case_prod_beta bmap.update_other
        split: option.split dest: sym)
qed simp

interpretation pop_markers: touched_rows "throtl_step cfg" pop_call_map touches_marker "\<lambda>_. True" for cfg
proof unfold_locales
  show "pop_call_map (throtl_step cfg e s) task = pop_call_map s task" if "\<not> touches_marker e task" for e s task
    using that
    by (cases e) (auto simp: kprobe_blk_throtl_add_bio_tg_def kprobe_blk_throtl_pop_queued_def
        kretprobe_blk_throtl_pop_queued_def pd_free_frame delete_pending_other settle_pop_call Let_def case_prod_beta bmap.update_other bmap.delete_other
        split: option.split)
qed simp

lemma pop_ret_healthy:
  assumes "\<not> unhealthy (status (kretprobe_blk_throtl_pop_queued K bio task now cpu fs s))"
    and "pop_call_map s task \<noteq> None" "pending_map s bio = Some start" "bio \<noteq> 0"
    and "blk_throtl_wait_bio_operation K bio = Some operation"
    and blkg: "blkg = core_read (bi_blkg K) bio" and owner: "owner = bio_owner K blkg bio s"
    and key: "key = owner_wait_key owner operation"
  shows "start \<le> now \<and> blkg \<noteq> 0 \<and> kretprobe_blk_throtl_pop_queued K bio task now cpu fs s =
    s\<lparr>pending_map := (pending_map s)(bio := None), pop_call_map := (pop_call_map s)(task := None),
      blkg_owner_map := (blkg_owner_map s)(blkg \<mapsto> owner),
      wait_agg_map := (wait_agg_map s)(key \<mapsto> (table_row (wait_agg_map s) key)
        (cpu := io_control_wait_add (table_row (wait_agg_map s) key cpu) (now - start)))\<rparr>"
proof -
  define s1 where "s1 = s\<lparr>pop_call_map := (pop_call_map s)(task := None)\<rparr>"
  define s2 where "s2 = blk_throtl_settle K bio operation start now cpu fs s1"
  have "pf_call_delete fs \<noteq> Fault_EBUSY"
    using assms(1,2) by (auto simp: kretprobe_blk_throtl_pop_queued_def bpf_map_delete_elem_def)
  then have eq: "kretprobe_blk_throtl_pop_queued K bio task now cpu fs s = snd (blk_throtl_delete_pending (pf_pending_delete fs) bio s2)"
    using assms(2-5) by (auto simp: kretprobe_blk_throtl_pop_queued_def bpf_map_delete_elem_def s1_def s2_def)
  obtain ok s3 where s3: "blk_throtl_delete_pending (pf_pending_delete fs) bio s2 = (ok, s3)" by fastforce
  have d: "s3 = s2\<lparr>pending_map := (pending_map s2)(bio := None)\<rparr>" "\<not> unhealthy (status s2)"
    using s3 assms(1) unfolding eq
    by (auto simp: blk_throtl_delete_pending_def bpf_map_delete_elem_def Let_def fun_upd_idem split: if_splits)
  have "owner = bio_owner K blkg bio s1" by (simp add: owner s1_def)
  note settle_healthy [OF d(2) [unfolded s2_def] blkg this key]
  then show ?thesis using d(1) s3 by (simp add: eq s2_def [symmetric]) (simp add: s1_def)
qed



text \<open>The final pop of a bio always consumes its pending start and its pop marker, and only
  those: on every path through the return probe, healthy or not, with any failure of the
  owner and counter updates, as long as the two deletions themselves are not refused.\<close>

theorem throtl_pop_consumes:
  assumes "pop_call_map s task \<noteq> None" and "bio \<noteq> 0"
    and "blk_throtl_wait_bio_operation K bio \<noteq> None"
    and "pf_call_delete fs \<noteq> Fault_EBUSY" and "pf_pending_delete fs \<noteq> Fault_EBUSY"
  shows "pending_map (kretprobe_blk_throtl_pop_queued K bio task now cpu fs s) = (pending_map s)(bio := None) \<and>
         pop_call_map (kretprobe_blk_throtl_pop_queued K bio task now cpu fs s) = (pop_call_map s)(task := None)"
proof (cases "pending_map s bio")
  case None
  with assms show ?thesis
    by (auto simp: kretprobe_blk_throtl_pop_queued_def bpf_map_delete_elem_def fun_upd_idem)
next
  case (Some st)
  obtain op where op: "blk_throtl_wait_bio_operation K bio = Some op" using assms by auto
  define s1 where "s1 = s\<lparr>pop_call_map := (pop_call_map s)(task := None)\<rparr>"
  define s2 where "s2 = blk_throtl_settle K bio op st now cpu fs s1"
  have p: "pending_map s2 = pending_map s" using settle_effect [OF s2_def] by (simp add: s1_def)
  have c: "pop_call_map s2 = (pop_call_map s)(task := None)"
    unfolding s2_def s1_def by (simp add: settle_pop_call)
  have "kretprobe_blk_throtl_pop_queued K bio task now cpu fs s =
      snd (blk_throtl_delete_pending (pf_pending_delete fs) bio s2)"
    using assms op Some
    by (auto simp: kretprobe_blk_throtl_pop_queued_def bpf_map_delete_elem_def s1_def s2_def)
  then show ?thesis
    using p c Some assms(5)
    by (simp add: blk_throtl_delete_pending_def bpf_map_delete_elem_def)
qed

text \<open>No blkg is released silently: when the probe sees the release of a blkg whose owner it
  has saved, either the owner's final counters are marked for collection and its cache entry
  is gone, or the session is marked failed. Counters and pending starts are kept.\<close>

theorem throtl_pd_free_retires:
  assumes "pd \<noteq> 0" and "pd_blkg K pd = Some blkg" and "blkg \<noteq> 0"
    and "blkg_owner_map s blkg = Some owner"
    and "s' = kprobe_blk_throtl_pd_free K pd f_retire f_delete s"
  shows "(retired_map s' (retired_key owner) \<noteq> None \<and> blkg_owner_map s' = (blkg_owner_map s)(blkg := None) \<or>
          unhealthy (status s')) \<and>
         wait_agg_map s' = wait_agg_map s \<and> pending_map s' = pending_map s"
proof -
  have s': "s' = snd (blk_throtl_delete_owner f_delete blkg (blk_throtl_retire_aggregate f_retire owner s))"
    using assms by (simp add: kprobe_blk_throtl_pd_free_def)
  show ?thesis
    unfolding s' blk_throtl_delete_owner_def blk_throtl_retire_aggregate_def retired_key_def
    using assms(4)
    by (cases f_retire; cases f_delete)
      (auto simp: Let_def bpf_map_update_elem_def bpf_map_delete_elem_def)
qed

end
