(* ===== verification/Iocost.thy ===== *)
theory Iocost
  imports Wait_Table Kernel_Block
begin

text \<open>
  \<^verbatim>\<open>bpf/iocost_tracing.c\<close>: the residence time of a bio in an IOCOST wait queue. A sample is
  pending from the enqueue to the wake callback; the callback's entry moves it into the wake
  frame of its CPU and the callback's return settles it, or puts it back when nothing was
  woken. The diagnostic hooks of \<^verbatim>\<open>IOCOST_TEST\<close> builds are not part of the model.
\<close>

section \<open>Model\<close>

record iocost_owner_state =
  io_css :: u64
  io_css_serial :: u64
  io_major :: u32
  io_minor :: u32

record iocost_pending =
  start_ns :: u64
  operation :: u32
  reserved :: u32

record iocost_wake_frame =
  bio_ptr :: u64
  end_ns :: u64
  frame_pending :: iocost_pending
  frame_key :: io_control_wait_key

record iocost_state =
  owner_state_map :: "u64 \<rightharpoonup> iocost_owner_state"
  ic_retired_map :: "io_control_retired_key \<rightharpoonup> u8"
  ic_pending_map :: "u64 \<rightharpoonup> iocost_pending"
  ic_wait_agg_map :: wait_table
  wake_frame_map :: "u32 \<rightharpoonup> iocost_wake_frame"
  ic_status :: "io_control_status option"

record iocost_config =
  throttle_caller_start :: u64
  throttle_caller_end :: u64
  over_budget_caller_start :: u64
  over_budget_caller_end :: u64

text \<open>The fields of the kernel's IOCOST structures, at the offsets of the running kernel.\<close>

record iocost_kernel = blk_kernel +
  iocg_pd_blkg :: "u64 \<Rightarrow> u64 option"
  iocg_pd_offset :: u64
  iocg_waitq_offset :: u64
  waitq_head_prev :: "u64 \<Rightarrow> u64 option"
  wq_entry_entry_offset :: u64
  iocg_wait_wait_offset :: u64
  iocg_wait_bio :: "u64 \<Rightarrow> u64 option"
  wake_ctx_iocg :: "u64 \<Rightarrow> u64 option"

abbreviation (input) "IOCOST_FAILURE_IDENTITY \<equiv> 1 :: u32"
abbreviation (input) "IOCOST_FAILURE_PENDING_COLLISION \<equiv> 2 :: u32"
abbreviation (input) "IOCOST_FAILURE_PENDING_INSERT \<equiv> 3 :: u32"
abbreviation (input) "IOCOST_FAILURE_PENDING_DELETE \<equiv> 4 :: u32"
abbreviation (input) "IOCOST_FAILURE_AGGREGATE_INSERT \<equiv> 5 :: u32"
abbreviation (input) "IOCOST_FAILURE_WAKE_FRAME \<equiv> 6 :: u32"
abbreviation (input) "IOCOST_FAILURE_TIME_ROLLBACK \<equiv> 7 :: u32"
abbreviation (input) "IOCOST_FAILURE_OWNER_INSERT \<equiv> 8 :: u32"
abbreviation (input) "IOCOST_FAILURE_OWNER_DELETE \<equiv> 10 :: u32"
abbreviation (input) "IOCOST_FAILURE_RETIRE \<equiv> 11 :: u32"

definition iocost_unhealthy :: "iocost_state \<Rightarrow> bool" where
  "iocost_unhealthy s = (case ic_status s of None \<Rightarrow> True | Some st \<Rightarrow> failure st \<noteq> 0)"

definition iocost_publish :: "u32 \<Rightarrow> int \<Rightarrow> io_control_status option \<Rightarrow> io_control_status option" where
  "iocost_publish reason error st = map_option (\<lambda>x. x\<lparr>failure := pack_failure reason error\<rparr>) st"

definition iocost_fail :: "u32 \<Rightarrow> int \<Rightarrow> iocost_state \<Rightarrow> iocost_state" where
  "iocost_fail reason error s = s\<lparr>ic_status := iocost_publish reason error (ic_status s)\<rparr>"

definition iocost_classify_pending_update_ret :: "int \<Rightarrow> iocost_state \<Rightarrow> iocost_state" where
  "iocost_classify_pending_update_ret ret s =
     (if ret \<noteq> 0
      then iocost_fail (if ret = - EEXIST then IOCOST_FAILURE_PENDING_COLLISION
                        else IOCOST_FAILURE_PENDING_INSERT) ret s
      else s)"

definition iocost_range_contains :: "u64 \<Rightarrow> u64 \<Rightarrow> u64 \<Rightarrow> bool" where
  "iocost_range_contains address start stop \<longleftrightarrow> start < stop \<and> start \<le> address \<and> address < stop"

definition iocost_enqueue_caller :: "iocost_config \<Rightarrow> u64 \<Rightarrow> bool" where
  "iocost_enqueue_caller cfg address =
     (if iocost_range_contains address (throttle_caller_start cfg) (throttle_caller_end cfg) then True
      else iocost_range_contains address (over_budget_caller_start cfg) (over_budget_caller_end cfg))"

definition iocost_read_bio :: "'a blk_kernel_scheme \<Rightarrow> u64 \<Rightarrow> int \<times> u32" where
  "iocost_read_bio K bio =
     (if bio = 0 then (- 1, 0)
      else case bi_opf K bio of
             None \<Rightarrow> (- 1, 0)
           | Some opf \<Rightarrow>
               let op = opf AND REQ_OP_MASK
               in if op \<noteq> REQ_OP_READ \<and> op \<noteq> REQ_OP_WRITE then (0, 0) else (1, op))"

definition iocost_retire_aggregate ::
  "map_fault \<Rightarrow> iocost_owner_state \<Rightarrow> iocost_state \<Rightarrow> iocost_state" where
  "iocost_retire_aggregate f owner s =
     (let key = \<lparr>rk_css = io_css owner, rk_css_serial = io_css_serial owner,
                 rk_major = io_major owner, rk_minor = io_minor owner\<rparr>;
          (ret, m) = bpf_map_update_elem f BPF_NOEXIST key 1 (ic_retired_map s);
          s1 = s\<lparr>ic_retired_map := m\<rparr>
      in if ret \<noteq> 0 \<and> ret \<noteq> - EEXIST then iocost_fail IOCOST_FAILURE_RETIRE ret s1 else s1)"

text \<open>The reads of \<^verbatim>\<open>iocost_ensure_owner\<close>: the new owner row, or \<open>None\<close> when one of them
  fails or yields a null pointer or a zero serial.\<close>

definition iocost_read_identity :: "'a iocost_kernel_scheme \<Rightarrow> u64 \<Rightarrow> u64 \<Rightarrow> iocost_owner_state option" where
  "iocost_read_identity K iocg bio =
     (let disk = bio_disk K bio
      in if iocg = 0 \<or> bio = 0 then None
         else case iocg_pd_blkg K iocg of None \<Rightarrow> None | Some blkg \<Rightarrow>
           if blkg = 0 then None
           else case blkg_blkcg K blkg of None \<Rightarrow> None | Some blkcg \<Rightarrow>
             if blkcg = 0 then None
             else case css_serial_nr K (blkcg_css K blkcg) of None \<Rightarrow> None | Some serial \<Rightarrow>
               if serial = 0 \<or> disk = 0 then None
               else case (disk_major K disk, disk_first_minor K disk) of
                      (Some major, Some minor) \<Rightarrow>
                        Some \<lparr>io_css = blkcg_css K blkcg, io_css_serial = serial,
                              io_major = major, io_minor = minor\<rparr>
                    | _ \<Rightarrow> None)"

definition iocost_ensure_owner ::
  "'a iocost_kernel_scheme \<Rightarrow> map_fault \<Rightarrow> u64 \<Rightarrow> u64 \<Rightarrow> iocost_state \<Rightarrow>
     iocost_owner_state option \<times> iocost_state" where
  "iocost_ensure_owner K f iocg bio s =
     (case owner_state_map s iocg of
        Some owner \<Rightarrow> (Some owner, s)
      | None \<Rightarrow>
          (case iocost_read_identity K iocg bio of
             None \<Rightarrow> (None, iocost_fail IOCOST_FAILURE_IDENTITY 0 s)
           | Some initial \<Rightarrow>
               let (ret, m) = bpf_map_update_elem f BPF_NOEXIST iocg initial (owner_state_map s);
                   s1 = s\<lparr>owner_state_map := m\<rparr>
               in if ret \<noteq> 0 \<and> ret \<noteq> - EEXIST
                  then (None, iocost_fail IOCOST_FAILURE_OWNER_INSERT ret s1)
                  else case m iocg of
                         None \<Rightarrow> (None, iocost_fail IOCOST_FAILURE_OWNER_INSERT (- ENOENT) s1)
                       | Some owner \<Rightarrow> (Some owner, s1)))"

definition iocost_ensure_aggregate ::
  "map_fault \<Rightarrow> io_control_wait_key \<Rightarrow> iocost_state \<Rightarrow> bool \<times> iocost_state" where
  "iocost_ensure_aggregate f key s =
     (case ic_wait_agg_map s key of
        Some _ \<Rightarrow> (True, s)
      | None \<Rightarrow>
          let (ret, m) = bpf_map_update_elem f BPF_NOEXIST key (\<lambda>_. 0) (ic_wait_agg_map s);
              s1 = s\<lparr>ic_wait_agg_map := m\<rparr>
          in if ret \<noteq> 0 \<and> ret \<noteq> - EEXIST
             then (False, iocost_fail IOCOST_FAILURE_AGGREGATE_INSERT ret s1)
             else (True, s1))"

definition iocost_tail_waiter :: "'a iocost_kernel_scheme \<Rightarrow> u64 \<Rightarrow> u64" where
  "iocost_tail_waiter K iocg =
     (if iocg = 0 then 0
      else case waitq_head_prev K (iocg + iocg_waitq_offset K) of
             None \<Rightarrow> 0
           | Some raw_tail \<Rightarrow>
               if raw_tail = 0 then 0
               else
                 let waiter_offset = iocg_wait_wait_offset K + wq_entry_entry_offset K
                 in if raw_tail < waiter_offset then 0
                    else case iocg_wait_bio K (raw_tail - waiter_offset) of
                           None \<Rightarrow> 0
                         | Some bio \<Rightarrow> bio)"

definition kprobe_iocg_kick_waitq ::
  "iocost_config \<Rightarrow> 'a iocost_kernel_scheme \<Rightarrow> u64 \<Rightarrow> u64 \<Rightarrow> u64 \<Rightarrow> map_fault \<Rightarrow>
     iocost_state \<Rightarrow> iocost_state" where
  "kprobe_iocg_kick_waitq cfg K caller iocg now f s =
     (if \<not> iocost_enqueue_caller cfg caller then s
      else if iocost_unhealthy s then s
      else
        let bio = iocost_tail_waiter K iocg
        in if bio = 0 then iocost_fail IOCOST_FAILURE_IDENTITY 0 s
           else
             let (bio_result, oper) = iocost_read_bio K bio
             in if bio_result = 0 then s
                else if bio_result < 0 then iocost_fail IOCOST_FAILURE_IDENTITY 0 s
                else
                  let (ret, m) = bpf_map_update_elem f BPF_ANY bio
                        \<lparr>start_ns = now, operation = oper, reserved = 0\<rparr> (ic_pending_map s)
                  in iocost_classify_pending_update_ret ret (s\<lparr>ic_pending_map := m\<rparr>))"

definition iocost_clear_wake_frame :: "u32 \<Rightarrow> iocost_state \<Rightarrow> iocost_state" where
  "iocost_clear_wake_frame cpu s =
     s\<lparr>wake_frame_map := (wake_frame_map s)(cpu := map_option (\<lambda>fr. fr\<lparr>bio_ptr := 0\<rparr>) (wake_frame_map s cpu))\<rparr>"

definition set_frame :: "u32 \<Rightarrow> (iocost_wake_frame \<Rightarrow> iocost_wake_frame) \<Rightarrow> iocost_state \<Rightarrow> iocost_state" where
  "set_frame cpu g s = s\<lparr>wake_frame_map := (wake_frame_map s)(cpu := map_option g (wake_frame_map s cpu))\<rparr>"

definition iocost_delete_pending :: "map_fault \<Rightarrow> u64 \<Rightarrow> iocost_state \<Rightarrow> bool \<times> iocost_state" where
  "iocost_delete_pending f bio s =
     (let (ret, m) = bpf_map_delete_elem f bio (ic_pending_map s);
          s1 = s\<lparr>ic_pending_map := m\<rparr>
      in if ret = 0 then (True, s1)
         else (False, iocost_fail IOCOST_FAILURE_PENDING_DELETE ret s1))"

record wake_faults =
  wf_owner :: map_fault
  wf_aggregate :: map_fault
  wf_delete :: map_fault

text \<open>The waiter's bio: the reads of the entry probe, \<open>None\<close> on its identity failures.\<close>

definition iocost_wake_identity :: "'a iocost_kernel_scheme \<Rightarrow> u64 \<Rightarrow> u64 \<Rightarrow> (u64 \<times> u64) option" where
  "iocost_wake_identity K wq_entry wake_ctx =
     (if wq_entry = 0 \<or> wake_ctx = 0 then None
      else case wake_ctx_iocg K wake_ctx of None \<Rightarrow> None | Some iocg \<Rightarrow>
        if iocg = 0 then None
        else if wq_entry < iocg_wait_wait_offset K then None
        else case iocg_wait_bio K (wq_entry - iocg_wait_wait_offset K) of None \<Rightarrow> None | Some bio \<Rightarrow>
          if bio = 0 then None else Some (iocg, bio))"

definition owner_key :: "iocost_owner_state \<Rightarrow> u32 \<Rightarrow> io_control_wait_key" where
  "owner_key owner oper =
     \<lparr>wk_css = io_css owner, wk_css_serial = io_css_serial owner, wk_major = io_major owner,
      wk_minor = io_minor owner, wk_operation = oper, wk_reserved = 0\<rparr>"

text \<open>The entry probe once it has found the pending sample.\<close>

definition iocost_take_sample ::
  "'a iocost_kernel_scheme \<Rightarrow> u64 \<Rightarrow> u64 \<Rightarrow> iocost_pending \<Rightarrow> u64 \<Rightarrow> u32 \<Rightarrow> wake_faults \<Rightarrow>
     iocost_state \<Rightarrow> iocost_state" where
  "iocost_take_sample K iocg bio pending now cpu fs s =
     (let s1 = set_frame cpu (\<lambda>fr. fr\<lparr>end_ns := now, frame_pending := pending\<rparr>) s
      in case iocost_ensure_owner K (wf_owner fs) iocg bio s1 of
           (None, s2) \<Rightarrow> s2
         | (Some owner, s2) \<Rightarrow>
             let key = owner_key owner (operation pending);
                 s3 = set_frame cpu (\<lambda>fr. fr\<lparr>frame_key := key\<rparr>) s2;
                 (agg, s4) = iocost_ensure_aggregate (wf_aggregate fs) key s3
             in if \<not> agg then s4
                else
                  let (ok, s5) = iocost_delete_pending (wf_delete fs) bio s4
                  in if \<not> ok then iocost_clear_wake_frame cpu s5
                     else set_frame cpu (\<lambda>fr. fr\<lparr>bio_ptr := bio\<rparr>) s5)"

definition kprobe_iocg_wake_fn ::
  "'a iocost_kernel_scheme \<Rightarrow> u64 \<Rightarrow> u64 \<Rightarrow> u64 \<Rightarrow> u32 \<Rightarrow> wake_faults \<Rightarrow>
     iocost_state \<Rightarrow> iocost_state" where
  "kprobe_iocg_wake_fn K wq_entry wake_ctx now cpu fs s =
     (if wake_frame_map s cpu = None then iocost_fail IOCOST_FAILURE_WAKE_FRAME 0 s
      else
        let s1 = iocost_clear_wake_frame cpu s
        in if iocost_unhealthy s1 then s1
           else case iocost_wake_identity K wq_entry wake_ctx of
                  None \<Rightarrow> iocost_fail IOCOST_FAILURE_IDENTITY 0 s1
                | Some (iocg, bio) \<Rightarrow>
                    (case ic_pending_map s1 bio of
                       None \<Rightarrow> s1
                     | Some pending \<Rightarrow>
                         if start_ns pending = 0 \<or> reserved pending \<noteq> 0
                         then iocost_fail IOCOST_FAILURE_IDENTITY 0 s1
                         else iocost_take_sample K iocg bio pending now cpu fs s1))"

definition kretprobe_iocg_wake_fn :: "u64 \<Rightarrow> u32 \<Rightarrow> map_fault \<Rightarrow> iocost_state \<Rightarrow> iocost_state" where
  "kretprobe_iocg_wake_fn rc cpu f s =
     (case wake_frame_map s cpu of
        None \<Rightarrow> iocost_fail IOCOST_FAILURE_WAKE_FRAME 0 s
      | Some frame \<Rightarrow>
          if bio_ptr frame = 0 then s
          else
            let ret = sint (ucast rc :: u32)
            in if ret = - 1
               then
                 let (update_ret, m) = bpf_map_update_elem f BPF_NOEXIST (bio_ptr frame)
                       (frame_pending frame) (ic_pending_map s)
                 in iocost_clear_wake_frame cpu
                      (iocost_classify_pending_update_ret update_ret (s\<lparr>ic_pending_map := m\<rparr>))
               else if ret \<noteq> 0
               then iocost_clear_wake_frame cpu (iocost_fail IOCOST_FAILURE_WAKE_FRAME 0 s)
               else case ic_wait_agg_map s (frame_key frame) of
                      None \<Rightarrow> iocost_clear_wake_frame cpu s
                    | Some row \<Rightarrow>
                        if end_ns frame < start_ns (frame_pending frame)
                        then iocost_clear_wake_frame cpu (iocost_fail IOCOST_FAILURE_TIME_ROLLBACK 0 s)
                        else iocost_clear_wake_frame cpu
                          (s\<lparr>ic_wait_agg_map := (ic_wait_agg_map s)(frame_key frame \<mapsto>
                               row(cpu := io_control_wait_add (row cpu)
                                     (end_ns frame - start_ns (frame_pending frame))))\<rparr>))"

definition kprobe_ioc_pd_free ::
  "'a iocost_kernel_scheme \<Rightarrow> u64 \<Rightarrow> map_fault \<Rightarrow> map_fault \<Rightarrow> iocost_state \<Rightarrow> iocost_state" where
  "kprobe_ioc_pd_free K pd f_retire f_delete s =
     (if pd = 0 then s
      else if pd < iocg_pd_offset K then iocost_fail IOCOST_FAILURE_IDENTITY 0 s
      else
        let iocg_ptr = pd - iocg_pd_offset K
        in case owner_state_map s iocg_ptr of
             None \<Rightarrow> s
           | Some owner \<Rightarrow>
               let s1 = iocost_retire_aggregate f_retire owner s;
                   (ret, m) = bpf_map_delete_elem f_delete iocg_ptr (owner_state_map s1);
                   s2 = s1\<lparr>owner_state_map := m\<rparr>
               in if ret \<noteq> 0 then iocost_fail IOCOST_FAILURE_OWNER_DELETE ret s2 else s2)"

datatype iocost_event =
    Kick_waitq iocost_kernel u64 u64 u64 map_fault
  | Wake_fn iocost_kernel u64 u64 u64 u32 wake_faults
  | Wake_fn_ret u64 u32 map_fault
  | Ioc_pd_free iocost_kernel u64 map_fault map_fault
  | Ioc_device_hook device_event

fun iocost_step :: "iocost_config \<Rightarrow> iocost_event \<Rightarrow> iocost_state \<Rightarrow> iocost_state" where
  "iocost_step cfg (Kick_waitq K caller iocg now f) s = kprobe_iocg_kick_waitq cfg K caller iocg now f s"
| "iocost_step cfg (Wake_fn K wq ctx now cpu fs) s = kprobe_iocg_wake_fn K wq ctx now cpu fs s"
| "iocost_step cfg (Wake_fn_ret rc cpu f) s = kretprobe_iocg_wake_fn rc cpu f s"
| "iocost_step cfg (Ioc_pd_free K pd f1 f2) s = kprobe_ioc_pd_free K pd f1 f2 s"
| "iocost_step cfg (Ioc_device_hook e) s = s\<lparr>ic_status := io_control_device_hook e (ic_status s)\<rparr>"

section \<open>Health and frames\<close>

lemma iocost_unhealthy_status: "iocost_unhealthy s = unhealthy (ic_status s)"
  by (simp add: iocost_unhealthy_def unhealthy_def)

interpretation iocost: failure_latch iocost_publish
proof unfold_locales
  show "reports P st (iocost_publish r e st)" if "r \<noteq> 0" "P r" for r e P st
    using that by (cases st) (auto simp: iocost_publish_def reports_def)
qed

lemmas iocost_reports [simp, intro] = iocost.fail_reports iocost.fail_after

lemma iocost_publish_unhealthy [simp]: "r \<noteq> 0 \<Longrightarrow> unhealthy (iocost_publish r e st)"
  by (auto simp: iocost_publish_def unhealthy_def split: option.splits)

lemma iocost_fail_simps [simp]:
  "owner_state_map (iocost_fail r e s) = owner_state_map s"
  "ic_retired_map (iocost_fail r e s) = ic_retired_map s"
  "ic_pending_map (iocost_fail r e s) = ic_pending_map s"
  "ic_wait_agg_map (iocost_fail r e s) = ic_wait_agg_map s"
  "wake_frame_map (iocost_fail r e s) = wake_frame_map s"
  "ic_status (iocost_fail r e s) = iocost_publish r e (ic_status s)"
  by (simp_all add: iocost_fail_def)

lemma set_frame_simps [simp]:
  "owner_state_map (set_frame c g s) = owner_state_map s"
  "ic_retired_map (set_frame c g s) = ic_retired_map s"
  "ic_pending_map (set_frame c g s) = ic_pending_map s"
  "ic_wait_agg_map (set_frame c g s) = ic_wait_agg_map s"
  "ic_status (set_frame c g s) = ic_status s"
  "wake_frame_map (set_frame c g s) = (wake_frame_map s)(c := map_option g (wake_frame_map s c))"
  by (simp_all add: set_frame_def)

lemma clear_frame_eq: "iocost_clear_wake_frame cpu = set_frame cpu (\<lambda>fr. fr\<lparr>bio_ptr := 0\<rparr>)"
  by (simp add: fun_eq_iff iocost_clear_wake_frame_def set_frame_def)

lemma classify_simps [simp]:
  "owner_state_map (iocost_classify_pending_update_ret r s) = owner_state_map s"
  "ic_retired_map (iocost_classify_pending_update_ret r s) = ic_retired_map s"
  "ic_pending_map (iocost_classify_pending_update_ret r s) = ic_pending_map s"
  "ic_wait_agg_map (iocost_classify_pending_update_ret r s) = ic_wait_agg_map s"
  "wake_frame_map (iocost_classify_pending_update_ret r s) = wake_frame_map s"
  by (simp_all add: iocost_classify_pending_update_ret_def)

lemma classify_reports:
  "reports (\<lambda>r. r \<noteq> IOCOST_FAILURE_TIME_ROLLBACK) (ic_status s)
     (ic_status (iocost_classify_pending_update_ret ret s))"
  by (auto simp: iocost_classify_pending_update_ret_def)

section \<open>Samples in flight\<close>

text \<open>A sample is in flight while it is pending or owned by the wake frame of a CPU.\<close>

definition busy :: "iocost_state \<Rightarrow> u32 set" where
  "busy s = {c. \<exists>fr. wake_frame_map s c = Some fr \<and> bio_ptr fr \<noteq> 0}"

definition in_flight :: "iocost_state \<Rightarrow> nat" where
  "in_flight s = card (dom (ic_pending_map s)) + card (busy s)"

definition counted :: "(io_control_wait_key \<times> u32) set \<Rightarrow> iocost_state \<Rightarrow> nat" where
  "counted P s = total P (ic_wait_agg_map s)"

lemma busy_set_frame:
  "busy (set_frame c g s) = (if \<exists>fr. wake_frame_map s c = Some fr \<and> bio_ptr (g fr) \<noteq> 0
     then insert c (busy s) else busy s - {c})"
  by (auto simp: busy_def split: if_splits)

lemma busy_cong: "wake_frame_map s' = wake_frame_map s \<Longrightarrow> busy s' = busy s"
  by (simp add: busy_def)

lemma finite_busy [simp]: "finite (busy s)"
  by (rule finite)

lemma ensure_owner_effect:
  "iocost_ensure_owner K f iocg bio s = (r, s') \<Longrightarrow>
     ic_pending_map s' = ic_pending_map s \<and> ic_wait_agg_map s' = ic_wait_agg_map s \<and>
     wake_frame_map s' = wake_frame_map s \<and>
     reports (\<lambda>r. r \<noteq> IOCOST_FAILURE_TIME_ROLLBACK) (ic_status s) (ic_status s')"
  by (auto simp: iocost_ensure_owner_def Let_def split: option.splits prod.splits if_splits)

lemma ensure_aggregate_effect:
  "iocost_ensure_aggregate f key s = (ok, s') \<Longrightarrow>
     ic_pending_map s' = ic_pending_map s \<and> wake_frame_map s' = wake_frame_map s \<and>
     owner_state_map s' = owner_state_map s \<and>
     counter (ic_wait_agg_map s') = counter (ic_wait_agg_map s) \<and>
     (\<forall>k. ic_wait_agg_map s k \<noteq> None \<longrightarrow> ic_wait_agg_map s' k \<noteq> None) \<and>
     (ok \<longrightarrow> ic_wait_agg_map s' key \<noteq> None) \<and>
     reports (\<lambda>r. r \<noteq> IOCOST_FAILURE_TIME_ROLLBACK) (ic_status s) (ic_status s')"
  by (cases f; cases "ic_wait_agg_map s key")
    (auto simp: iocost_ensure_aggregate_def bpf_map_update_elem_def Let_def table_row_zero)

lemma delete_effect:
  "iocost_delete_pending f bio s = (ok, s') \<Longrightarrow>
     wake_frame_map s' = wake_frame_map s \<and> ic_wait_agg_map s' = ic_wait_agg_map s \<and>
     (if ok then ic_pending_map s bio \<noteq> None \<and> ic_pending_map s' = (ic_pending_map s)(bio := None) \<and>
          ic_status s' = ic_status s
      else ic_pending_map s' = ic_pending_map s) \<and>
     reports (\<lambda>r. r \<noteq> IOCOST_FAILURE_TIME_ROLLBACK) (ic_status s) (ic_status s')"
  by (cases f; cases "ic_pending_map s bio")
    (auto simp: iocost_delete_pending_def bpf_map_delete_elem_def Let_def)

text \<open>What every probe keeps: counters other than by settlement, rows, other CPUs' frames.\<close>

definition keeps_rows :: "iocost_state \<Rightarrow> iocost_state \<Rightarrow> bool" where
  "keeps_rows s s' \<longleftrightarrow> (\<forall>k. ic_wait_agg_map s k \<noteq> None \<longrightarrow> ic_wait_agg_map s' k \<noteq> None)"

definition same_counts :: "iocost_state \<Rightarrow> iocost_state \<Rightarrow> bool" where
  "same_counts s s' \<longleftrightarrow> keeps_rows s s' \<and> counter (ic_wait_agg_map s') = counter (ic_wait_agg_map s)"

lemma same_counts_eq: "ic_wait_agg_map s' = ic_wait_agg_map s \<Longrightarrow> same_counts s s'"
  by (simp add: same_counts_def keeps_rows_def)

lemma same_counts_counted: "same_counts s s' \<Longrightarrow> counted P s' = counted P s"
  by (simp add: same_counts_def counted_def total_def)

definition frame_of :: "u64 \<Rightarrow> u64 \<Rightarrow> iocost_pending \<Rightarrow> io_control_wait_key \<Rightarrow> iocost_wake_frame" where
  "frame_of bio now pending key =
     \<lparr>bio_ptr = bio, end_ns = now, frame_pending = pending, frame_key = key\<rparr>"

lemma take_sample_cases:
  assumes s': "s' = iocost_take_sample K iocg bio pending now cpu fs s"
    and fr: "wake_frame_map s cpu = Some fr0" "bio_ptr fr0 = 0"
  obtains (kept) fr where "ic_pending_map s' = ic_pending_map s" "same_counts s s'"
      "wake_frame_map s' = (wake_frame_map s)(cpu \<mapsto> fr)" "bio_ptr fr = 0"
      "reports (\<lambda>r. r \<noteq> IOCOST_FAILURE_TIME_ROLLBACK) (ic_status s) (ic_status s')"
  | (taken) key where "ic_pending_map s bio \<noteq> None"
      "ic_pending_map s' = (ic_pending_map s)(bio := None)" "same_counts s s'"
      "wake_frame_map s' = (wake_frame_map s)(cpu \<mapsto> frame_of bio now pending key)"
      "ic_wait_agg_map s' key \<noteq> None"
      "reports (\<lambda>r. r \<noteq> IOCOST_FAILURE_TIME_ROLLBACK) (ic_status s) (ic_status s')"
proof -
  define s1 where "s1 = set_frame cpu (\<lambda>fr. fr\<lparr>end_ns := now, frame_pending := pending\<rparr>) s"
  obtain r s2 where o: "iocost_ensure_owner K (wf_owner fs) iocg bio s1 = (r, s2)"
    by (cases "iocost_ensure_owner K (wf_owner fs) iocg bio s1") auto
  note oe = ensure_owner_effect [OF o]
  show ?thesis
  proof (cases r)
    case None
    then have "s' = s2" using o by (simp add: s' iocost_take_sample_def s1_def)
    then show ?thesis using oe fr
      by (intro kept [of "fr0\<lparr>end_ns := now, frame_pending := pending\<rparr>"])
        (auto simp: s1_def same_counts_def keeps_rows_def)
  next
    case (Some owner)
    define key where "key = owner_key owner (operation pending)"
    define s3 where "s3 = set_frame cpu (\<lambda>fr. fr\<lparr>frame_key := key\<rparr>) s2"
    obtain agg s4 where a: "iocost_ensure_aggregate (wf_aggregate fs) key s3 = (agg, s4)"
      by (cases "iocost_ensure_aggregate (wf_aggregate fs) key s3") auto
    obtain ok s5 where d: "iocost_delete_pending (wf_delete fs) bio s4 = (ok, s5)"
      by (cases "iocost_delete_pending (wf_delete fs) bio s4") auto
    note ae = ensure_aggregate_effect [OF a] and de = delete_effect [OF d]
    have eq: "s' = (if \<not> agg then s4 else if \<not> ok then iocost_clear_wake_frame cpu s5
        else set_frame cpu (\<lambda>fr. fr\<lparr>bio_ptr := bio\<rparr>) s5)"
      using o a d Some by (simp add: s' iocost_take_sample_def Let_def s1_def s3_def key_def)
    have fr3: "wake_frame_map s3 = (wake_frame_map s)(cpu \<mapsto> frame_of 0 now pending key)"
      using oe fr by (cases fr0) (simp add: s3_def s1_def frame_of_def)
    have r4: "reports (\<lambda>r. r \<noteq> IOCOST_FAILURE_TIME_ROLLBACK) (ic_status s) (ic_status s4)"
      using oe ae by (auto simp: s1_def s3_def intro: reports_trans)
    then have r5: "reports (\<lambda>r. r \<noteq> IOCOST_FAILURE_TIME_ROLLBACK) (ic_status s) (ic_status s5)"
      using de by (blast intro: reports_trans)
    have sc: "same_counts s s4" "ic_pending_map s4 = ic_pending_map s" "wake_frame_map s4 = wake_frame_map s3"
      using oe ae by (auto simp: s1_def s3_def same_counts_def keeps_rows_def)
    have sc5: "ic_wait_agg_map s5 = ic_wait_agg_map s4" "wake_frame_map s5 = wake_frame_map s4"
      using de by auto
    have sc': "same_counts s t" if "ic_wait_agg_map t = ic_wait_agg_map s4" for t
      using sc(1) that by (simp add: same_counts_def keeps_rows_def)
    consider "\<not> agg" | "agg" "\<not> ok" | "agg" "ok" by blast
    then show ?thesis
    proof cases
      case 1
      then show ?thesis using eq sc r4 fr3
        by (intro kept [of "frame_of 0 now pending key"]) (simp_all add: frame_of_def)
    next
      case 2
      then show ?thesis using eq sc sc5 de r5 fr3
        by (intro kept [of "frame_of 0 now pending key"]) (simp_all add: clear_frame_eq frame_of_def sc')
    next
      case 3
      then show ?thesis using eq sc sc5 ae de r5 fr3
        by (intro taken [of key]) (simp_all add: frame_of_def sc')
    qed
  qed
qed

definition frames_le :: "iocost_state \<Rightarrow> iocost_state \<Rightarrow> bool" where
  "frames_le s s' \<longleftrightarrow>
     (\<forall>c fr. wake_frame_map s' c = Some fr \<and> bio_ptr fr \<noteq> 0 \<longrightarrow> wake_frame_map s c = Some fr)"

lemma frames_le_busy: "frames_le s s' \<Longrightarrow> busy s' \<subseteq> busy s"
  by (auto simp: frames_le_def busy_def)

abbreviation (input) "no_rollback \<equiv> \<lambda>r. r \<noteq> IOCOST_FAILURE_TIME_ROLLBACK"

text \<open>A firing that only lets go of samples.\<close>

definition lets_go :: "(u32 \<Rightarrow> bool) \<Rightarrow> iocost_state \<Rightarrow> iocost_state \<Rightarrow> bool" where
  "lets_go R s s' \<longleftrightarrow> ic_pending_map s' = ic_pending_map s \<and> same_counts s s' \<and> frames_le s s' \<and>
     reports R (ic_status s) (ic_status s')"

lemma lets_go_fail: "lets_go R s s1 \<Longrightarrow> r \<noteq> 0 \<Longrightarrow> R r \<Longrightarrow> lets_go R s (iocost_fail r e s1)"
  by (auto simp: lets_go_def same_counts_def keeps_rows_def frames_le_def)

lemma lets_go_clear: "lets_go R s s1 \<Longrightarrow> lets_go R s (iocost_clear_wake_frame cpu s1)"
  by (auto simp: lets_go_def clear_frame_eq same_counts_def keeps_rows_def frames_le_def split: if_splits)

lemma lets_go_refl [simp]: "lets_go R s s"
  by (simp add: lets_go_def same_counts_def keeps_rows_def frames_le_def)

definition takes :: "u64 \<Rightarrow> iocost_pending \<Rightarrow> u64 \<Rightarrow> u32 \<Rightarrow> iocost_state \<Rightarrow> iocost_state \<Rightarrow> bool" where
  "takes bio pending now cpu s s' \<longleftrightarrow> \<not> unhealthy (ic_status s) \<and> bio \<noteq> 0 \<and>
     ic_pending_map s bio = Some pending \<and> ic_pending_map s' = (ic_pending_map s)(bio := None) \<and>
     same_counts s s' \<and> reports no_rollback (ic_status s) (ic_status s') \<and>
     (\<exists>key. wake_frame_map s' = (wake_frame_map s)(cpu \<mapsto> frame_of bio now pending key) \<and>
        ic_wait_agg_map s' key \<noteq> None)"

lemma wake_identity_bio: "iocost_wake_identity K wq ctx = Some (iocg, bio) \<Longrightarrow> bio \<noteq> 0"
  by (auto simp: iocost_wake_identity_def split: if_splits option.splits)

lemma wake_fn_effect:
  assumes s': "s' = kprobe_iocg_wake_fn K wq ctx now cpu fs s"
  shows "lets_go no_rollback s s' \<or> (\<exists>bio pending. takes bio pending now cpu s s')"
proof -
  define s1 where "s1 = iocost_clear_wake_frame cpu s"
  have go: "lets_go no_rollback s s1" by (simp add: s1_def lets_go_clear)
  have st: "ic_status s1 = ic_status s" "ic_pending_map s1 = ic_pending_map s"
      "ic_wait_agg_map s1 = ic_wait_agg_map s"
    by (simp_all add: s1_def clear_frame_eq)
  show ?thesis
  proof (cases "\<exists>iocg bio pending fr0. wake_frame_map s cpu = Some fr0 \<and> \<not> iocost_unhealthy s1 \<and>
      iocost_wake_identity K wq ctx = Some (iocg, bio) \<and> ic_pending_map s1 bio = Some pending \<and>
      start_ns pending \<noteq> 0 \<and> reserved pending = 0")
    case False
    then show ?thesis
      using go unfolding s' kprobe_iocg_wake_fn_def s1_def [symmetric] Let_def
      by (auto intro!: lets_go_fail split: option.splits prod.splits)
  next
    case True
    then obtain iocg bio pending fr0 where h: "wake_frame_map s cpu = Some fr0" "\<not> iocost_unhealthy s1"
        "iocost_wake_identity K wq ctx = Some (iocg, bio)" "ic_pending_map s1 bio = Some pending"
        "start_ns pending \<noteq> 0" "reserved pending = 0"
      by blast
    then have eq: "s' = iocost_take_sample K iocg bio pending now cpu fs s1"
      unfolding s' kprobe_iocg_wake_fn_def s1_def by simp
    have fr: "wake_frame_map s1 cpu = Some (fr0\<lparr>bio_ptr := 0\<rparr>)" "bio_ptr (fr0\<lparr>bio_ptr := 0\<rparr>) = 0"
      using h(1) by (simp_all add: s1_def clear_frame_eq)
    have upd: "(wake_frame_map s1)(cpu \<mapsto> fr) = (wake_frame_map s)(cpu \<mapsto> fr)" for fr
      by (simp add: s1_def clear_frame_eq)
    show ?thesis
      using eq fr
    proof (cases rule: take_sample_cases)
      case (kept fr)
      then have "lets_go no_rollback s s'"
        using st upd by (auto simp: lets_go_def same_counts_def keeps_rows_def frames_le_def split: if_splits)
      then show ?thesis ..
    next
      case (taken key)
      then have "takes bio pending now cpu s s'"
        using st upd h wake_identity_bio [OF h(3)]
        by (auto simp: takes_def same_counts_def keeps_rows_def iocost_unhealthy_status)
      then show ?thesis by blast
    qed
  qed
qed

definition closes :: "u32 \<Rightarrow> iocost_wake_frame \<Rightarrow> iocost_state \<Rightarrow> iocost_state \<Rightarrow> bool" where
  "closes cpu fr s s' \<longleftrightarrow> wake_frame_map s cpu = Some fr \<and> bio_ptr fr \<noteq> 0 \<and>
     frames_le s s' \<and> cpu \<notin> busy s' \<and> keeps_rows s s'"

lemma wake_ret_effect:
  assumes s': "s' = kretprobe_iocg_wake_fn rc cpu f s"
  obtains (go) "lets_go (\<lambda>r. r = IOCOST_FAILURE_TIME_ROLLBACK \<longrightarrow>
        (\<exists>fr. wake_frame_map s cpu = Some fr \<and> bio_ptr fr \<noteq> 0 \<and> end_ns fr < start_ns (frame_pending fr))) s s'"
  | (restore) fr where "closes cpu fr s s'" "same_counts s s'" "ic_pending_map s (bio_ptr fr) = None"
      "ic_pending_map s' = (ic_pending_map s)(bio_ptr fr \<mapsto> frame_pending fr)" "ic_status s' = ic_status s"
  | (settle) fr where "closes cpu fr s s'" "ic_pending_map s' = ic_pending_map s"
      "one_more (frame_key fr) cpu (ic_wait_agg_map s) (ic_wait_agg_map s')" "ic_status s' = ic_status s"
proof (cases "\<exists>fr. wake_frame_map s cpu = Some fr \<and> bio_ptr fr \<noteq> 0")
  case False
  then have "s' = s \<or> s' = iocost_fail IOCOST_FAILURE_WAKE_FRAME 0 s"
    by (auto simp: s' kretprobe_iocg_wake_fn_def split: option.splits)
  then show ?thesis by (auto intro!: go lets_go_fail)
next
  case True
  then obtain fr where fr: "wake_frame_map s cpu = Some fr" "bio_ptr fr \<noteq> 0" by blast
  define ret where "ret = sint (ucast rc :: u32)"
  consider (minus) "ret = - 1" | (other) "ret \<noteq> - 1" "ret \<noteq> 0" | (norow) "ret = 0" "ic_wait_agg_map s (frame_key fr) = None"
    | (earlier) row where "ret = 0" "ic_wait_agg_map s (frame_key fr) = Some row" "end_ns fr < start_ns (frame_pending fr)"
    | (ok) row where "ret = 0" "ic_wait_agg_map s (frame_key fr) = Some row" "\<not> end_ns fr < start_ns (frame_pending fr)"
    by (cases "ic_wait_agg_map s (frame_key fr)") auto
  then show ?thesis
  proof cases
    case minus
    show ?thesis
    proof (cases rule: bmap.update_cases [of f BPF_NOEXIST "bio_ptr fr" "frame_pending fr" "ic_pending_map s"])
      case ok
      then have "ic_pending_map s (bio_ptr fr) = None"
        using bmap.update_taken [of "ic_pending_map s" "bio_ptr fr" f "frame_pending fr"] by (metis fst_conv)
      then show ?thesis using fr minus ok
        by (intro restore [of fr])
          (auto simp: s' kretprobe_iocg_wake_fn_def ret_def [symmetric] clear_frame_eq closes_def frames_le_def
            busy_def same_counts_def keeps_rows_def iocost_classify_pending_update_ret_def split: if_splits)
    next
      case (err e)
      then have "s' = iocost_clear_wake_frame cpu (iocost_classify_pending_update_ret e s)"
        using fr minus by (simp add: s' kretprobe_iocg_wake_fn_def ret_def [symmetric])
      then show ?thesis using err
        by (auto intro!: go lets_go_clear lets_go_fail simp: iocost_classify_pending_update_ret_def
            split: if_splits)
    qed
  next
    case other
    then have "s' = iocost_clear_wake_frame cpu (iocost_fail IOCOST_FAILURE_WAKE_FRAME 0 s)"
      using fr by (simp add: s' kretprobe_iocg_wake_fn_def ret_def [symmetric])
    then show ?thesis by (auto intro!: go lets_go_clear lets_go_fail)
  next
    case norow
    then have "s' = iocost_clear_wake_frame cpu s"
      using fr by (simp add: s' kretprobe_iocg_wake_fn_def ret_def [symmetric])
    then show ?thesis by (auto intro!: go lets_go_clear)
  next
    case earlier
    then have "s' = iocost_clear_wake_frame cpu (iocost_fail IOCOST_FAILURE_TIME_ROLLBACK 0 s)"
      using fr by (simp add: s' kretprobe_iocg_wake_fn_def ret_def [symmetric])
    then show ?thesis using fr earlier by (auto intro!: go lets_go_clear lets_go_fail)
  next
    case (ok row)
    then show ?thesis
      using fr one_more_add [of "frame_key fr" cpu "ic_wait_agg_map s" "end_ns fr - start_ns (frame_pending fr)"]
      by (intro settle [of fr])
        (auto simp: s' kretprobe_iocg_wake_fn_def ret_def [symmetric] clear_frame_eq closes_def frames_le_def
          busy_def keeps_rows_def table_row_def split: if_splits)
  qed
qed

lemma kick_effect:
  assumes s': "s' = kprobe_iocg_kick_waitq cfg K caller iocg now f s"
  shows "lets_go no_rollback s s' \<or>
    (iocost_enqueue_caller cfg caller \<and> \<not> unhealthy (ic_status s) \<and> (\<exists>bio oper. s' = s\<lparr>ic_pending_map :=
       (ic_pending_map s)(bio \<mapsto> \<lparr>start_ns = now, operation = oper, reserved = 0\<rparr>)\<rparr>))"
proof (cases "iocost_enqueue_caller cfg caller \<and> \<not> iocost_unhealthy s \<and> iocost_tail_waiter K iocg \<noteq> 0 \<and>
    fst (iocost_read_bio K (iocost_tail_waiter K iocg)) > 0")
  case False
  then show ?thesis
    unfolding s' kprobe_iocg_kick_waitq_def
    by (auto simp: Let_def intro!: lets_go_fail split: prod.splits)
next
  case True
  define bio where "bio = iocost_tail_waiter K iocg"
  obtain n oper where b: "iocost_read_bio K bio = (n, oper)" by (cases "iocost_read_bio K bio")
  show ?thesis
  proof (cases rule: bmap.update_cases [of f BPF_ANY bio "\<lparr>start_ns = now, operation = oper, reserved = 0\<rparr>"
        "ic_pending_map s"])
    case ok
    with True b show ?thesis
      by (auto simp: s' kprobe_iocg_kick_waitq_def bio_def iocost_unhealthy_status
          iocost_classify_pending_update_ret_def)
  next
    case (err e)
    with True b have "s' = iocost_classify_pending_update_ret e s"
      by (simp add: s' kprobe_iocg_kick_waitq_def bio_def)
    with err show ?thesis
      by (auto intro!: lets_go_fail simp: iocost_classify_pending_update_ret_def)
  qed
qed

lemma ioc_pd_free_effect: "lets_go no_rollback s (kprobe_ioc_pd_free K pd f1 f2 s)"
  unfolding kprobe_ioc_pd_free_def iocost_retire_aggregate_def
  by (auto simp: Let_def lets_go_def same_counts_def keeps_rows_def frames_le_def
      split: option.splits prod.splits)

section \<open>No sample is counted twice\<close>

fun enqueues :: "iocost_config \<Rightarrow> iocost_event \<Rightarrow> nat" where
  "enqueues cfg (Kick_waitq K caller iocg now f) = (if iocost_enqueue_caller cfg caller then 1 else 0)"
| "enqueues cfg _ = 0"

definition held :: "(io_control_wait_key \<times> u32) set \<Rightarrow> iocost_state \<Rightarrow> nat" where
  "held P s = counted P s + in_flight s"

definition finite_pending :: "iocost_state \<Rightarrow> bool" where
  "finite_pending s \<longleftrightarrow> finite (dom (ic_pending_map s))"

lemma lets_go_held: "lets_go R s s' \<Longrightarrow> held P s' \<le> held P s \<and> finite_pending s' = finite_pending s"
  using card_mono [OF finite_busy frames_le_busy, of s s']
  by (auto simp: lets_go_def held_def in_flight_def same_counts_counted finite_pending_def)

lemma takes_held:
  assumes "takes bio pending now cpu s s'" and fin: "finite_pending s"
  shows "held P s' \<le> held P s \<and> finite_pending s'"
proof -
  from assms obtain key where t: "ic_pending_map s bio = Some pending"
      "ic_pending_map s' = (ic_pending_map s)(bio := None)" "same_counts s s'"
      "wake_frame_map s' = (wake_frame_map s)(cpu \<mapsto> frame_of bio now pending key)"
    by (auto simp: takes_def)
  have "busy s' \<subseteq> insert cpu (busy s)"
    using t(4) by (auto simp: busy_def split: if_splits)
  then have "card (busy s') \<le> Suc (card (busy s))"
    using card_mono [of "insert cpu (busy s)" "busy s'"] card_insert_le_m1
    by (metis card_insert_if finite_busy finite_insert le_SucI)
  moreover have "Suc (card (dom (ic_pending_map s) - {bio})) = card (dom (ic_pending_map s))"
    using t(1) fin by (intro card_Suc_Diff1) (auto simp: finite_pending_def)
  ultimately show ?thesis
    using t(2,3) fin by (simp add: held_def in_flight_def same_counts_counted finite_pending_def)
qed

lemma closes_busy: "closes cpu fr s s' \<Longrightarrow> Suc (card (busy s')) \<le> card (busy s)"
proof -
  assume c: "closes cpu fr s s'"
  then have "busy s' \<subset> busy s"
    using frames_le_busy [of s s'] by (auto simp: closes_def busy_def)
  then show ?thesis using psubset_card_mono [OF finite_busy] by (simp add: Suc_le_eq)
qed

lemma admit_held:
  assumes s': "s' = s\<lparr>ic_pending_map := (ic_pending_map s)(bio \<mapsto> v)\<rparr>" and fin: "finite_pending s"
  shows "held P s' \<le> Suc (held P s) \<and> finite_pending s'"
proof -
  have "busy s' = busy s" "counted P s' = counted P s" by (simp_all add: s' busy_def counted_def)
  moreover have "card (dom (ic_pending_map s')) \<le> Suc (card (dom (ic_pending_map s)))"
    using fin by (simp add: s' finite_pending_def card_insert_if)
  ultimately show ?thesis using fin by (simp add: held_def in_flight_def s' finite_pending_def)
qed

lemma iocost_held_step:
  assumes inv: "finite_pending s"
  shows "held P (iocost_step cfg e s) \<le> held P s + enqueues cfg e \<and> finite_pending (iocost_step cfg e s)"
proof (cases e)
  case (Kick_waitq K caller iocg now f)
  define s' where "s' = kprobe_iocg_kick_waitq cfg K caller iocg now f s"
  from kick_effect [OF s'_def] show ?thesis
  proof
    assume "lets_go no_rollback s s'"
    from lets_go_held [OF this, of P] inv show ?thesis by (simp add: Kick_waitq s'_def)
  next
    assume a: "iocost_enqueue_caller cfg caller \<and> \<not> unhealthy (ic_status s) \<and> (\<exists>bio oper. s' =
      s\<lparr>ic_pending_map := (ic_pending_map s)(bio \<mapsto> \<lparr>start_ns = now, operation = oper, reserved = 0\<rparr>)\<rparr>)"
    then obtain bio oper where "s' =
      s\<lparr>ic_pending_map := (ic_pending_map s)(bio \<mapsto> \<lparr>start_ns = now, operation = oper, reserved = 0\<rparr>)\<rparr>" by blast
    from admit_held [OF this inv, of P] a show ?thesis by (simp add: Kick_waitq s'_def)
  qed
next
  case (Wake_fn K wq ctx now cpu fs)
  then show ?thesis
    using wake_fn_effect [where K = K and wq = wq and ctx = ctx and now = now and cpu = cpu and fs = fs and s = s, OF refl] lets_go_held [of _ s _ P] takes_held [OF _ inv, of _ _ _ _ _ P] inv
    by auto
next
  case (Wake_fn_ret rc cpu f)
  define s' where "s' = kretprobe_iocg_wake_fn rc cpu f s"
  from s'_def have "held P s' \<le> held P s \<and> finite_pending s'"
  proof (cases rule: wake_ret_effect)
    case go
    with lets_go_held inv show ?thesis by blast
  next
    case (restore fr)
    then have "card (dom (ic_pending_map s')) = Suc (card (dom (ic_pending_map s)))"
      using inv by (simp add: finite_pending_def domIff card_insert_if)
    with restore closes_busy [OF restore(1)] inv show ?thesis
      by (simp add: held_def in_flight_def same_counts_counted finite_pending_def)
  next
    case (settle fr)
    with closes_busy [OF settle(1)] total_one_more [OF settle(3), of P] inv show ?thesis
      by (simp add: held_def in_flight_def counted_def finite_pending_def)
  qed
  then show ?thesis by (simp add: Wake_fn_ret s'_def)
next
  case (Ioc_pd_free K pd f1 f2)
  then show ?thesis using lets_go_held [OF ioc_pd_free_effect [of s K pd f1 f2], of P] inv by simp
next
  case (Ioc_device_hook d)
  then show ?thesis using inv by (simp add: held_def in_flight_def counted_def finite_pending_def busy_def)
qed

interpretation iocost_ledger: ledger "iocost_step cfg" "enqueues cfg" "held P" finite_pending for cfg P
  by unfold_locales (simp_all add: iocost_held_step)

text \<open>After a failure only the samples that a wake frame already owns can still be counted.\<close>

definition tail_held :: "(io_control_wait_key \<times> u32) set \<Rightarrow> iocost_state \<Rightarrow> nat" where
  "tail_held P s = counted P s + card (busy s)"

lemma lets_go_tail:
  "lets_go R s s' \<Longrightarrow> unhealthy (ic_status s) \<Longrightarrow> tail_held P s' \<le> tail_held P s \<and> unhealthy (ic_status s')"
  using card_mono [OF finite_busy frames_le_busy, of s s']
  by (auto simp: lets_go_def tail_held_def same_counts_counted dest: reports_unhealthy)

lemma iocost_tail_step:
  assumes u: "unhealthy (ic_status s)"
  shows "tail_held P (iocost_step cfg e s) \<le> tail_held P s \<and> unhealthy (ic_status (iocost_step cfg e s))"
proof (cases e)
  case (Kick_waitq K caller iocg now f)
  with kick_effect [OF refl] u show ?thesis by (metis iocost_step.simps(1) lets_go_tail)
next
  case (Wake_fn K wq ctx now cpu fs)
  with wake_fn_effect [OF refl] u show ?thesis by (metis iocost_step.simps(2) lets_go_tail takes_def)
next
  case (Wake_fn_ret rc cpu f)
  define s' where "s' = kretprobe_iocg_wake_fn rc cpu f s"
  from s'_def have "tail_held P s' \<le> tail_held P s \<and> unhealthy (ic_status s')"
  proof (cases rule: wake_ret_effect)
    case go
    with lets_go_tail u show ?thesis by blast
  next
    case (restore fr)
    with closes_busy [OF restore(1)] u show ?thesis
      by (simp add: tail_held_def same_counts_counted)
  next
    case (settle fr)
    with closes_busy [OF settle(1)] total_one_more [OF settle(3), of P] u show ?thesis
      by (simp add: tail_held_def counted_def)
  qed
  then show ?thesis by (simp add: Wake_fn_ret s'_def)
next
  case (Ioc_pd_free K pd f1 f2)
  then show ?thesis using lets_go_tail [OF ioc_pd_free_effect [of s K pd f1 f2] u, of P] by simp
next
  case (Ioc_device_hook d)
  then show ?thesis using u by (simp add: tail_held_def counted_def busy_def)
qed

interpretation iocost_tail: ledger "iocost_step cfg" "\<lambda>_. 0" "tail_held P" "\<lambda>s. unhealthy (ic_status s)" for cfg P
  by unfold_locales (simp_all add: iocost_tail_step)

definition iocost_init :: iocost_state where
  "iocost_init = \<lparr>owner_state_map = Map.empty, ic_retired_map = Map.empty, ic_pending_map = Map.empty,
     ic_wait_agg_map = Map.empty,
     wake_frame_map = (\<lambda>_. Some (frame_of 0 0 \<lparr>start_ns = 0, operation = 0, reserved = 0\<rparr>
       \<lparr>wk_css = 0, wk_css_serial = 0, wk_major = 0, wk_minor = 0, wk_operation = 0, wk_reserved = 0\<rparr>)),
     ic_status = Some \<lparr>failure = 0, devices_changed = 0\<rparr>\<rparr>"

text \<open>C4. No IOCOST wait is counted twice: in every run from an empty session, whatever the
  interleaving of the CPUs' wake callbacks, their results and the failures of helper calls, the
  IOs counted over a set of counters plus the samples still in flight are at most the enqueues.\<close>

theorem iocost_no_double_count:
  "(\<Sum>(k, c) \<in> P. counter (ic_wait_agg_map (fold (iocost_step cfg) es iocost_init)) k c) +
     in_flight (fold (iocost_step cfg) es iocost_init)
   \<le> sum_list (map (enqueues cfg) es)"
proof -
  have "finite_pending iocost_init" "held P iocost_init = 0"
    by (simp_all add: finite_pending_def held_def counted_def total_def counter_def in_flight_def
        busy_def iocost_init_def frame_of_def split_def)
  with iocost_ledger.held_run [of iocost_init P cfg es] show ?thesis
    by (simp add: held_def counted_def total_def)
qed

text \<open>C7. A failed IOCOST session winds down: it never becomes healthy again, and from then on
  the counters grow by at most one IO for each wake frame that was open at the failure.\<close>

theorem iocost_failure_tail:
  assumes "unhealthy (ic_status s)"
  shows "unhealthy (ic_status (fold (iocost_step cfg) es s)) \<and>
    (\<Sum>(k, c) \<in> P. counter (ic_wait_agg_map (fold (iocost_step cfg) es s)) k c) + card (busy (fold (iocost_step cfg) es s))
      \<le> (\<Sum>(k, c) \<in> P. counter (ic_wait_agg_map s) k c) + card (busy s)"
  using iocost_tail.inv_run [OF assms, of cfg es] iocost_tail.held_run [OF assms, of P cfg es]
  by (simp add: tail_held_def counted_def total_def map_replicate_const sum_list_replicate)

section \<open>One sample, end to end\<close>

definition no_wake_faults :: wake_faults where
  "no_wake_faults = \<lparr>wf_owner = Fault_none, wf_aggregate = Fault_none, wf_delete = Fault_none\<rparr>"

text \<open>Who a waiter is charged to: the saved owner of its group, or the identity read now.\<close>

definition iocg_owner :: "'a iocost_kernel_scheme \<Rightarrow> u64 \<Rightarrow> u64 \<Rightarrow> iocost_state \<Rightarrow> iocost_owner_state option" where
  "iocg_owner K iocg bio s = (case owner_state_map s iocg of
      Some owner \<Rightarrow> Some owner | None \<Rightarrow> iocost_read_identity K iocg bio)"

lemma ensure_owner_none:
  "iocg_owner K iocg bio s = Some owner \<Longrightarrow> iocost_ensure_owner K Fault_none iocg bio s =
     (Some owner, s\<lparr>owner_state_map := (owner_state_map s)(iocg \<mapsto> owner)\<rparr>)"
  by (cases "owner_state_map s iocg")
    (auto simp: iocg_owner_def iocost_ensure_owner_def fun_upd_idem)

lemma ensure_aggregate_none:
  "iocost_ensure_aggregate Fault_none key s =
     (True, s\<lparr>ic_wait_agg_map := (ic_wait_agg_map s)(key \<mapsto> table_row (ic_wait_agg_map s) key)\<rparr>)"
  by (cases "ic_wait_agg_map s key")
    (auto simp: iocost_ensure_aggregate_def table_row_def fun_upd_idem)

lemma take_sample_none:
  assumes "iocg_owner K iocg bio s = Some owner" and "ic_pending_map s bio = Some pending"
    and "wake_frame_map s cpu = Some fr0"
  shows "iocost_take_sample K iocg bio pending now cpu no_wake_faults s =
    (let key = owner_key owner (operation pending)
     in s\<lparr>owner_state_map := (owner_state_map s)(iocg \<mapsto> owner),
          ic_pending_map := (ic_pending_map s)(bio := None),
          ic_wait_agg_map := (ic_wait_agg_map s)(key \<mapsto> table_row (ic_wait_agg_map s) key),
          wake_frame_map := (wake_frame_map s)(cpu \<mapsto> frame_of bio now pending key)\<rparr>)"
proof -
  let ?s1 = "set_frame cpu (\<lambda>fr. fr\<lparr>end_ns := now, frame_pending := pending\<rparr>) s"
  have "iocg_owner K iocg bio ?s1 = Some owner"
    using assms(1) by (simp add: iocg_owner_def)
  from ensure_owner_none [OF this] assms show ?thesis
    by (cases fr0) (simp add: iocost_take_sample_def no_wake_faults_def ensure_aggregate_none Let_def
        iocost_delete_pending_def set_frame_def frame_of_def)
qed

lemma wake_fn_none:
  assumes "\<not> unhealthy (ic_status s)" and "wake_frame_map s cpu = Some fr0"
    and "iocost_wake_identity K wq ctx = Some (iocg, bio)" and "ic_pending_map s bio = Some pending"
    and "start_ns pending \<noteq> 0" and "reserved pending = 0" and "iocg_owner K iocg bio s = Some owner"
  shows "kprobe_iocg_wake_fn K wq ctx now cpu no_wake_faults s =
    (let key = owner_key owner (operation pending)
     in s\<lparr>owner_state_map := (owner_state_map s)(iocg \<mapsto> owner),
          ic_pending_map := (ic_pending_map s)(bio := None),
          ic_wait_agg_map := (ic_wait_agg_map s)(key \<mapsto> table_row (ic_wait_agg_map s) key),
          wake_frame_map := (wake_frame_map s)(cpu \<mapsto> frame_of bio now pending key)\<rparr>)"
proof -
  let ?s1 = "iocost_clear_wake_frame cpu s"
  have "iocg_owner K iocg bio ?s1 = Some owner" "ic_pending_map ?s1 bio = Some pending"
      "wake_frame_map ?s1 cpu = Some (fr0\<lparr>bio_ptr := 0\<rparr>)"
    using assms by (simp_all add: iocg_owner_def clear_frame_eq)
  from take_sample_none [OF this, of now] assms show ?thesis
    by (simp add: kprobe_iocg_wake_fn_def Let_def iocost_unhealthy_status clear_frame_eq set_frame_def)
qed

text \<open>In a session that is healthy afterwards every helper call of the entry probe succeeded.\<close>

lemma ensure_owner_healthy:
  assumes "iocost_ensure_owner K f iocg bio s = (r, s')" and "\<not> unhealthy (ic_status s')"
  shows "\<exists>owner. r = Some owner \<and> iocg_owner K iocg bio s = Some owner \<and>
    s' = s\<lparr>owner_state_map := (owner_state_map s)(iocg \<mapsto> owner)\<rparr>"
proof (cases "owner_state_map s iocg")
  case None
  then obtain a where "iocost_read_identity K iocg bio = Some a"
    using assms by (cases "iocost_read_identity K iocg bio") (auto simp: iocost_ensure_owner_def)
  note a = this None
  show ?thesis
    using assms by (cases f) (auto simp: iocost_ensure_owner_def iocg_owner_def bpf_map_update_elem_def Let_def a)
next
  case (Some a)
  then have "r = Some a" "s' = s" using assms(1) by (simp_all add: iocost_ensure_owner_def)
  with Some show ?thesis by (simp add: iocg_owner_def fun_upd_idem)
qed

lemma ensure_aggregate_healthy:
  assumes "iocost_ensure_aggregate f key s = (ok, s')" and "\<not> unhealthy (ic_status s')"
  shows "ok \<and> s' = s\<lparr>ic_wait_agg_map := (ic_wait_agg_map s)(key \<mapsto> table_row (ic_wait_agg_map s) key)\<rparr>"
  using assms by (cases f; cases "ic_wait_agg_map s key")
    (auto simp: iocost_ensure_aggregate_def bpf_map_update_elem_def table_row_def fun_upd_idem Let_def)

lemma delete_pending_healthy:
  assumes "iocost_delete_pending f bio s = (ok, s')" and "\<not> unhealthy (ic_status s')"
  shows "ok \<and> s' = s\<lparr>ic_pending_map := (ic_pending_map s)(bio := None)\<rparr>"
  using assms by (cases f; cases "ic_pending_map s bio")
    (auto simp: iocost_delete_pending_def bpf_map_delete_elem_def Let_def)

lemma take_sample_healthy:
  assumes h: "\<not> unhealthy (ic_status (iocost_take_sample K iocg bio pending now cpu fs s))"
    and fr: "wake_frame_map s cpu = Some fr0"
  shows "\<exists>owner. iocg_owner K iocg bio s = Some owner \<and>
    iocost_take_sample K iocg bio pending now cpu fs s =
    (let key = owner_key owner (operation pending)
     in s\<lparr>owner_state_map := (owner_state_map s)(iocg \<mapsto> owner),
          ic_pending_map := (ic_pending_map s)(bio := None),
          ic_wait_agg_map := (ic_wait_agg_map s)(key \<mapsto> table_row (ic_wait_agg_map s) key),
          wake_frame_map := (wake_frame_map s)(cpu \<mapsto> frame_of bio now pending key)\<rparr>)"
proof -
  define s1 where "s1 = set_frame cpu (\<lambda>fr. fr\<lparr>end_ns := now, frame_pending := pending\<rparr>) s"
  obtain r s2 where o: "iocost_ensure_owner K (wf_owner fs) iocg bio s1 = (r, s2)" by fastforce
  define key where "key = owner_key (the r) (operation pending)"
  define s3 where "s3 = set_frame cpu (\<lambda>fr. fr\<lparr>frame_key := key\<rparr>) s2"
  obtain agg s4 where a: "iocost_ensure_aggregate (wf_aggregate fs) key s3 = (agg, s4)" by fastforce
  obtain ok s5 where d: "iocost_delete_pending (wf_delete fs) bio s4 = (ok, s5)" by fastforce
  have eq: "iocost_take_sample K iocg bio pending now cpu fs s = (if r = None then s2 else if \<not> agg then s4
      else if \<not> ok then iocost_clear_wake_frame cpu s5 else set_frame cpu (\<lambda>fr. fr\<lparr>bio_ptr := bio\<rparr>) s5)"
    using o a d by (cases r) (simp_all add: iocost_take_sample_def Let_def s1_def s3_def key_def)
  have h2: "\<not> unhealthy (ic_status s2)" and h4: "r \<noteq> None \<Longrightarrow> \<not> unhealthy (ic_status s4)"
      and h5: "r \<noteq> None \<and> agg \<Longrightarrow> \<not> unhealthy (ic_status s5)"
    using h ensure_aggregate_effect [OF a] delete_effect [OF d] unfolding eq
    by (auto simp: clear_frame_eq s3_def dest!: reports_unhealthy split: if_splits)
  obtain owner where ow: "r = Some owner" "iocg_owner K iocg bio s1 = Some owner"
      "s2 = s1\<lparr>owner_state_map := (owner_state_map s1)(iocg \<mapsto> owner)\<rparr>"
    using ensure_owner_healthy [OF o h2] by blast
  have ag: "agg" "s4 = s3\<lparr>ic_wait_agg_map := (ic_wait_agg_map s3)(key \<mapsto> table_row (ic_wait_agg_map s3) key)\<rparr>"
    using ensure_aggregate_healthy [OF a h4] ow(1) by simp_all
  have "ok" "s5 = s4\<lparr>ic_pending_map := (ic_pending_map s4)(bio := None)\<rparr>"
    using delete_pending_healthy [OF d h5] ow(1) ag(1) by simp_all
  then show ?thesis
    using ow ag fr unfolding eq
    by (cases fr0) (simp add: iocg_owner_def s1_def s3_def key_def set_frame_def frame_of_def Let_def)
qed

lemma wake_fn_healthy:
  assumes h: "\<not> unhealthy (ic_status (kprobe_iocg_wake_fn K wq ctx now cpu fs s))"
    and bio: "iocost_wake_identity K wq ctx = Some (iocg, bio)" "ic_pending_map s bio = Some pending"
  shows "\<exists>owner. iocg_owner K iocg bio s = Some owner \<and>
    kprobe_iocg_wake_fn K wq ctx now cpu fs s =
    (let key = owner_key owner (operation pending)
     in s\<lparr>owner_state_map := (owner_state_map s)(iocg \<mapsto> owner),
          ic_pending_map := (ic_pending_map s)(bio := None),
          ic_wait_agg_map := (ic_wait_agg_map s)(key \<mapsto> table_row (ic_wait_agg_map s) key),
          wake_frame_map := (wake_frame_map s)(cpu \<mapsto> frame_of bio now pending key)\<rparr>)"
proof -
  define s1 where "s1 = iocost_clear_wake_frame cpu s"
  obtain fr0 where fr: "wake_frame_map s1 cpu = Some fr0"
    using h by (cases "wake_frame_map s cpu") (auto simp: kprobe_iocg_wake_fn_def s1_def clear_frame_eq)
  then have eq: "kprobe_iocg_wake_fn K wq ctx now cpu fs s = iocost_take_sample K iocg bio pending now cpu fs s1"
    using h bio by (auto simp: kprobe_iocg_wake_fn_def s1_def Let_def clear_frame_eq iocost_unhealthy_status split: if_splits)
  show ?thesis
    using take_sample_healthy [OF h [unfolded eq] fr] unfolding eq
    by (auto simp: s1_def clear_frame_eq iocg_owner_def set_frame_def Let_def)
qed

lemma kick_admitted:
  assumes "\<not> unhealthy (ic_status (kprobe_iocg_kick_waitq cfg K caller iocg now f s))"
    and "iocost_enqueue_caller cfg caller" "iocost_tail_waiter K iocg = bio" "iocost_read_bio K bio = (1, oper)"
  shows "ic_pending_map (kprobe_iocg_kick_waitq cfg K caller iocg now f s) bio =
    Some \<lparr>start_ns = now, operation = oper, reserved = 0\<rparr>"
proof -
  have "bio \<noteq> 0" using assms(4) by (auto simp: iocost_read_bio_def)
  with assms show ?thesis
    by (cases f) (auto simp: kprobe_iocg_kick_waitq_def iocost_classify_pending_update_ret_def bpf_map_update_elem_def
        iocost_unhealthy_status Let_def split: if_splits)
qed

text \<open>Two firings meet a bio's pending sample: an enqueue of the bio and the wake of its waiter.
  A wake frame belongs to the wake callbacks of its CPU.\<close>

fun meets_bio :: "iocost_config \<Rightarrow> iocost_event \<Rightarrow> u64 \<Rightarrow> bool" where
  "meets_bio cfg (Kick_waitq K caller iocg now f) bio \<longleftrightarrow>
     iocost_enqueue_caller cfg caller \<and> iocost_tail_waiter K iocg = bio"
| "meets_bio cfg (Wake_fn K wq ctx now cpu fs) bio \<longleftrightarrow> (\<exists>iocg. iocost_wake_identity K wq ctx = Some (iocg, bio))"
| "meets_bio cfg _ bio \<longleftrightarrow> False"

fun uses_frame :: "iocost_event \<Rightarrow> u32 \<Rightarrow> bool" where
  "uses_frame (Wake_fn K wq ctx now c fs) cpu \<longleftrightarrow> c = cpu"
| "uses_frame (Wake_fn_ret rc c f) cpu \<longleftrightarrow> c = cpu"
| "uses_frame _ cpu \<longleftrightarrow> False"

lemma take_sample_frame:
  "j \<noteq> bio \<Longrightarrow> ic_pending_map (iocost_take_sample K iocg bio pending now cpu fs s) j = ic_pending_map s j"
  "c \<noteq> cpu \<Longrightarrow> wake_frame_map (iocost_take_sample K iocg bio pending now cpu fs s) c = wake_frame_map s c"
  by (auto simp: iocost_take_sample_def Let_def clear_frame_eq
      dest!: ensure_owner_effect ensure_aggregate_effect delete_effect split: prod.split option.split)

lemma pending_kept:
  assumes p: "ic_pending_map s bio = Some pending" and e: "\<not> meets_bio cfg e bio"
  shows "ic_pending_map (iocost_step cfg e s) bio = Some pending"
proof (cases e)
  case (Wake_fn_ret rc cpu f)
  then show ?thesis
    using p by (auto simp: kretprobe_iocg_wake_fn_def Let_def clear_frame_eq bpf_map_update_elem_def split: option.split)
next
  case (Wake_fn K wq ctx now cpu fs)
  then show ?thesis
    using p e by (auto simp: kprobe_iocg_wake_fn_def Let_def clear_frame_eq take_sample_frame split: option.split)
next
  case (Ioc_pd_free K pd f1 f2)
  then show ?thesis using p ioc_pd_free_effect [of s K pd f1 f2] by (simp add: lets_go_def)
qed (use p e in \<open>auto simp: kprobe_iocg_kick_waitq_def Let_def case_prod_beta bmap.update_other\<close>)

lemma pending_kept_run:
  "ic_pending_map s bio = Some pending \<Longrightarrow> list_all (\<lambda>e. \<not> meets_bio cfg e bio) es \<Longrightarrow>
     ic_pending_map (fold (iocost_step cfg) es s) bio = Some pending"
  by (induction es arbitrary: s) (auto simp: pending_kept)

interpretation frames: touched_rows "iocost_step cfg" wake_frame_map uses_frame "\<lambda>_. True" for cfg
proof unfold_locales
  show "wake_frame_map (iocost_step cfg e s) cpu = wake_frame_map s cpu" if "\<not> uses_frame e cpu" for e s cpu
  proof (cases e)
    case (Ioc_pd_free K pd f1 f2)
    then show ?thesis
      by (auto simp: kprobe_ioc_pd_free_def iocost_retire_aggregate_def Let_def case_prod_beta split: option.split)
  qed (use that in \<open>auto simp: kprobe_iocg_kick_waitq_def kprobe_iocg_wake_fn_def kretprobe_iocg_wake_fn_def Let_def
        case_prod_beta clear_frame_eq take_sample_frame split: option.split\<close>)
qed simp

lemma rows_kept: "keeps_rows s (iocost_step cfg e s)"
proof (cases e)
  case (Kick_waitq K caller iocg now f)
  then show ?thesis
    using kick_effect [where cfg = cfg and K = K and caller = caller and iocg = iocg and now = now and f = f and s = s, OF refl]
    by (auto simp: lets_go_def same_counts_def keeps_rows_def)
next
  case (Wake_fn K wq ctx now cpu fs)
  then show ?thesis
    using wake_fn_effect [where K = K and wq = wq and ctx = ctx and now = now and cpu = cpu and fs = fs and s = s, OF refl]
    by (auto simp: lets_go_def takes_def same_counts_def)
next
  case (Wake_fn_ret rc cpu f)
  then show ?thesis
    by (cases rule: wake_ret_effect [where rc = rc and cpu = cpu and f = f and s = s, OF refl]) (auto simp: lets_go_def same_counts_def closes_def)
next
  case (Ioc_pd_free K pd f1 f2)
  then show ?thesis using ioc_pd_free_effect [of s K pd f1 f2] by (simp add: lets_go_def same_counts_def)
qed (simp add: keeps_rows_def)

lemma rows_kept_run: "ic_wait_agg_map s k \<noteq> None \<Longrightarrow> ic_wait_agg_map (fold (iocost_step cfg) es s) k \<noteq> None"
  using rows_kept by (induction es arbitrary: s) (auto simp: keeps_rows_def simp del: iocost_step.simps)

lemma healthy_run: "\<not> unhealthy (ic_status (fold (iocost_step cfg) es s)) \<Longrightarrow> \<not> unhealthy (ic_status s)"
  using iocost_tail.inv_run by blast

lemma wake_ret_healthy:
  assumes "\<not> unhealthy (ic_status (kretprobe_iocg_wake_fn rc cpu f s))" and "ucast rc = (0 :: u32)"
    and "wake_frame_map s cpu = Some (frame_of bio now pending key)" "bio \<noteq> 0" "ic_wait_agg_map s key \<noteq> None"
    and row: "row = table_row (ic_wait_agg_map s) key"
  shows "start_ns pending \<le> now \<and> kretprobe_iocg_wake_fn rc cpu f s =
    s\<lparr>ic_wait_agg_map := (ic_wait_agg_map s)(key \<mapsto>
        row(cpu := io_control_wait_add (row cpu) (now - start_ns pending))),
      wake_frame_map := (wake_frame_map s)(cpu \<mapsto> frame_of 0 now pending key)\<rparr>"
  using assms by (auto simp: kretprobe_iocg_wake_fn_def clear_frame_eq frame_of_def table_row_def set_frame_def not_less
      split: if_splits)

text \<open>C5. An IOCOST wait is counted once, with its length: let a bio be enqueued at \<open>start\<close>, its waiter be
  woken at \<open>now\<close> on some CPU and the callback return zero there, with any firings in between that
  neither enqueue the bio nor wake its waiter before, nor run a wake callback on that CPU after,
  its entry, in a session that is healthy at the end. Then the entry takes the sample out of the
  pending map, the clock did not go back, and the return changes exactly this: in the word
  of the waiter's owner, operation and CPU the count grows by one IO and the wait by \<open>now - start\<close>
  in whole units of 10us, each modulo its own field; and the frame of the CPU is idle.\<close>

theorem iocost_wait_settled:
  assumes kick: "iocost_enqueue_caller cfg caller" "iocost_tail_waiter K0 iocg0 = bio" "iocost_read_bio K0 bio = (1, oper)"
    and wake: "iocost_wake_identity K wq ctx = Some (iocg, bio)" and rc: "ucast rc = (0 :: u32)"
    and others: "list_all (\<lambda>e. \<not> meets_bio cfg e bio) es" "list_all (\<lambda>e. \<not> uses_frame e cpu) es'"
    and t: "t = fold (iocost_step cfg) (Kick_waitq K0 caller iocg0 start f # es) s"
    and u: "u = iocost_step cfg (Wake_fn K wq ctx now cpu fs) t"
    and r: "r = fold (iocost_step cfg) es' u"
    and r': "r' = iocost_step cfg (Wake_fn_ret rc cpu f') r"
    and healthy: "\<not> unhealthy (ic_status r')"
  shows "start \<le> now \<and> ic_pending_map u = (ic_pending_map t)(bio := None) \<and>
    (\<exists>owner key row w. iocg_owner K iocg bio t = Some owner \<and> key = owner_key owner oper \<and>
       row = table_row (ic_wait_agg_map r) key \<and>
       r' = r\<lparr>ic_wait_agg_map := (ic_wait_agg_map r)(key \<mapsto> row(cpu := w)),
              wake_frame_map := (wake_frame_map r)(cpu \<mapsto>
                frame_of 0 now \<lparr>start_ns = start, operation = oper, reserved = 0\<rparr> key)\<rparr> \<and>
       wait_count w = (wait_count (row cpu) + 1) mod 2 ^ 26 \<and>
       wait_10us w = (wait_10us (row cpu) + (unat now - unat start) div 10000) mod 2 ^ 38)"
proof -
  define pending where "pending = \<lparr>start_ns = start, operation = oper, reserved = 0\<rparr>"
  define s1 where "s1 = iocost_step cfg (Kick_waitq K0 caller iocg0 start f) s"
  have hu: "\<not> unhealthy (ic_status u)"
    using healthy healthy_run [of cfg "es' @ [Wake_fn_ret rc cpu f']" u] by (simp add: r' r)
  have h1: "\<not> unhealthy (ic_status s1)"
    using hu healthy_run [of cfg "es @ [Wake_fn K wq ctx now cpu fs]" s1] by (simp add: u t s1_def)
  have "ic_pending_map s1 bio = Some pending"
    using kick_admitted [OF _ kick] h1 by (simp add: s1_def pending_def)
  from pending_kept_run [OF this others(1)] have "ic_pending_map t bio = Some pending" by (simp add: t s1_def)
  from wake_fn_healthy [OF _ wake this] hu obtain owner key where owner: "iocg_owner K iocg bio t = Some owner"
      and key: "key = owner_key owner oper" and ueq: "u = t\<lparr>owner_state_map := (owner_state_map t)(iocg \<mapsto> owner),
          ic_pending_map := (ic_pending_map t)(bio := None),
          ic_wait_agg_map := (ic_wait_agg_map t)(key \<mapsto> table_row (ic_wait_agg_map t) key),
          wake_frame_map := (wake_frame_map t)(cpu \<mapsto> frame_of bio now pending key)\<rparr>"
    by (fastforce simp: u pending_def Let_def)
  have fr: "wake_frame_map r cpu = Some (frame_of bio now pending key)"
    using frames.row_kept [OF _ others(2), of cfg u] by (simp add: r ueq)
  have agg: "ic_wait_agg_map r key \<noteq> None" unfolding r by (rule rows_kept_run) (simp add: ueq)
  have "\<not> unhealthy (ic_status (kretprobe_iocg_wake_fn rc cpu f' r))" using healthy by (simp add: r')
  note ret = wake_ret_healthy [OF this rc fr wake_identity_bio [OF wake] agg refl]
  then have "unat (now - start) = unat now - unat start" by (simp add: pending_def unat_sub)
  with ret show ?thesis
    unfolding r' iocost_step.simps
    by (intro conjI exI [of _ owner] exI [of _ key] exI [of _ "table_row (ic_wait_agg_map r) key"]
          exI [of _ "io_control_wait_add (table_row (ic_wait_agg_map r) key cpu) (now - start)"])
      (simp_all add: owner key ueq pending_def wait_count_add wait_10us_add)
qed

text \<open>C6. A wake callback that woke nobody changes nothing: when it returns -1, the pending
  sample taken at its entry is back with its start time, every counter has the same count and
  the CPU's frame is idle.\<close>

theorem iocost_wake_restored:
  assumes "\<not> unhealthy (ic_status s)" and "wake_frame_map s cpu \<noteq> None"
    and "iocost_wake_identity K wq ctx = Some (iocg, bio)" and "ic_pending_map s bio = Some pending"
    and "start_ns pending \<noteq> 0" and "reserved pending = 0" and "iocg_owner K iocg bio s = Some owner"
    and "ucast rc = (- 1 :: u32)"
    and s': "s' = fold (iocost_step cfg)
      [Wake_fn K wq ctx now cpu no_wake_faults, Wake_fn_ret rc cpu Fault_none] s"
  shows "ic_pending_map s' = ic_pending_map s \<and>
    counter (ic_wait_agg_map s') = counter (ic_wait_agg_map s) \<and>
    ic_status s' = ic_status s \<and> busy s' = busy s - {cpu}"
proof -
  obtain fr0 where fr0: "wake_frame_map s cpu = Some fr0" using assms(2) by blast
  define key where "key = owner_key owner (operation pending)"
  define s1 where "s1 = s\<lparr>owner_state_map := (owner_state_map s)(iocg \<mapsto> owner),
      ic_pending_map := (ic_pending_map s)(bio := None),
      ic_wait_agg_map := (ic_wait_agg_map s)(key \<mapsto> table_row (ic_wait_agg_map s) key),
      wake_frame_map := (wake_frame_map s)(cpu \<mapsto> frame_of bio now pending key)\<rparr>"
  have 1: "iocost_step cfg (Wake_fn K wq ctx now cpu no_wake_faults) s = s1"
    using wake_fn_none [OF assms(1) fr0 assms(3-7), of now] by (simp add: s1_def key_def Let_def)
  have b: "bio \<noteq> 0" using wake_identity_bio [OF assms(3)] .
  have "s' = iocost_clear_wake_frame cpu (s1\<lparr>ic_pending_map := (ic_pending_map s)(bio \<mapsto> pending)\<rparr>)"
    unfolding s' fold_simps 1 using b assms(8)
    by (simp add: kretprobe_iocg_wake_fn_def s1_def frame_of_def iocost_classify_pending_update_ret_def)
  moreover have "counter ((ic_wait_agg_map s)(key \<mapsto> table_row (ic_wait_agg_map s) key)) = counter (ic_wait_agg_map s)"
    by (auto simp: counter_def table_row_def fun_eq_iff split: option.splits)
  ultimately show ?thesis
    using assms(4) by (auto simp: clear_frame_eq s1_def frame_of_def busy_def fun_upd_idem)
qed

section \<open>The clock\<close>

fun iocost_time :: "iocost_event \<Rightarrow> u64 list" where
  "iocost_time (Kick_waitq K caller iocg now f) = [now]"
| "iocost_time (Wake_fn K wq ctx now cpu fs) = [now]"
| "iocost_time _ = []"

definition in_order :: "u64 \<Rightarrow> iocost_state \<Rightarrow> bool" where
  "in_order t s \<longleftrightarrow> (\<forall>bio p. ic_pending_map s bio = Some p \<longrightarrow> start_ns p \<le> t) \<and>
     (\<forall>c fr. wake_frame_map s c = Some fr \<and> bio_ptr fr \<noteq> 0 \<longrightarrow>
        start_ns (frame_pending fr) \<le> end_ns fr \<and> start_ns (frame_pending fr) \<le> t) \<and>
     failure_reason (ic_status s) \<noteq> IOCOST_FAILURE_TIME_ROLLBACK"

lemma in_order_later: "in_order t s \<Longrightarrow> t \<le> u \<Longrightarrow> in_order u s"
  unfolding in_order_def by (meson order_trans)

lemma in_order_lets_go: "in_order t s \<Longrightarrow> lets_go R s s' \<Longrightarrow> \<not> R IOCOST_FAILURE_TIME_ROLLBACK \<Longrightarrow> in_order t s'"
  unfolding in_order_def lets_go_def frames_le_def by (metis reports_reason)

lemma in_order_step:
  assumes inv: "in_order t s" and t: "\<forall>u \<in> set (iocost_time e). t \<le> u"
  shows "in_order (last (t # iocost_time e)) (iocost_step cfg e s)"
proof (cases e)
  case (Kick_waitq K caller iocg now f)
  define s' where "s' = kprobe_iocg_kick_waitq cfg K caller iocg now f s"
  have inv': "in_order now s" using inv t Kick_waitq by (auto intro: in_order_later)
  from kick_effect [OF s'_def] have "in_order now s'"
  proof
    assume "lets_go no_rollback s s'"
    with in_order_lets_go [OF inv'] show ?thesis by simp
  next
    assume "iocost_enqueue_caller cfg caller \<and> \<not> unhealthy (ic_status s) \<and> (\<exists>bio oper. s' =
      s\<lparr>ic_pending_map := (ic_pending_map s)(bio \<mapsto> \<lparr>start_ns = now, operation = oper, reserved = 0\<rparr>)\<rparr>)"
    with inv' show ?thesis by (auto simp: in_order_def split: if_splits)
  qed
  then show ?thesis by (simp add: Kick_waitq s'_def)
next
  case (Wake_fn K wq ctx now cpu fs)
  define s' where "s' = kprobe_iocg_wake_fn K wq ctx now cpu fs s"
  have inv': "in_order now s" using inv t Wake_fn by (auto intro: in_order_later)
  from wake_fn_effect [OF s'_def] have "in_order now s'"
  proof
    assume "lets_go no_rollback s s'"
    with in_order_lets_go [OF inv'] show ?thesis by simp
  next
    assume "\<exists>bio pending. takes bio pending now cpu s s'"
    then obtain bio pending where "takes bio pending now cpu s s'" by blast
    with inv' show ?thesis
      by (auto simp: in_order_def takes_def frame_of_def split: if_splits dest: reports_reason)
  qed
  then show ?thesis by (simp add: Wake_fn s'_def)
next
  case (Wake_fn_ret rc cpu f)
  define s' where "s' = kretprobe_iocg_wake_fn rc cpu f s"
  from s'_def have "in_order t s'"
  proof (cases rule: wake_ret_effect)
    case go
    have "\<not> (\<exists>fr. wake_frame_map s cpu = Some fr \<and> bio_ptr fr \<noteq> 0 \<and> end_ns fr < start_ns (frame_pending fr))"
      using inv by (auto simp: in_order_def not_less)
    with in_order_lets_go [OF inv go] show ?thesis by blast
  next
    case (restore fr)
    with inv show ?thesis
      by (auto simp: in_order_def closes_def frames_le_def split: if_splits; blast)
  next
    case (settle fr)
    with inv show ?thesis by (auto simp: in_order_def closes_def frames_le_def; blast)
  qed
  then show ?thesis by (simp add: Wake_fn_ret s'_def)
next
  case (Ioc_pd_free K pd f1 f2)
  then show ?thesis using in_order_lets_go [OF inv ioc_pd_free_effect [of s K pd f1 f2]] by simp
next
  case (Ioc_device_hook d)
  then show ?thesis using inv unfolding in_order_def by auto
qed

lemma in_order_run:
  "in_order t s \<Longrightarrow> sorted (t # concat (map iocost_time es)) \<Longrightarrow> \<exists>u. in_order u (fold (iocost_step cfg) es s)"
proof (induction es arbitrary: t s)
  case (Cons e es)
  have "in_order (last (t # iocost_time e)) (iocost_step cfg e s)"
    using Cons.prems by (intro in_order_step) auto
  moreover have "sorted (last (t # iocost_time e) # concat (map iocost_time es))"
    using Cons.prems(2) by (cases e) auto
  ultimately show ?case using Cons.IH by simp
qed auto

text \<open>With a clock that does not go back, no IOCOST session fails with a time rollback, also
  for samples that were put back and taken again.\<close>

theorem iocost_no_rollback:
  assumes "sorted (concat (map iocost_time es))"
  shows "failure_reason (ic_status (fold (iocost_step cfg) es iocost_init)) \<noteq> IOCOST_FAILURE_TIME_ROLLBACK"
proof -
  have "in_order 0 iocost_init"
    by (simp add: in_order_def iocost_init_def frame_of_def failure_reason_def)
  from in_order_run [OF this, of es cfg] assms show ?thesis by (auto simp: in_order_def)
qed

section \<open>A concrete session\<close>

text \<open>The bio at 8 waits in the group at 512, whose wait queue is at 528; its waiter is at 96 and
  its wait queue entry, linked at 112, starts at 104.\<close>

definition ioc_demo_cfg :: iocost_config where
  "ioc_demo_cfg = \<lparr>throttle_caller_start = 100, throttle_caller_end = 200,
     over_budget_caller_start = 0, over_budget_caller_end = 0\<rparr>"

definition ioc_demo_kernel :: iocost_kernel where
  "ioc_demo_kernel = blk_kernel.extend
     (empty_blk_kernel\<lparr>bi_opf := [8 \<mapsto> 1], bi_disk := [8 \<mapsto> 64], blkg_blkcg := [16 \<mapsto> 32],
        css_serial_nr := [32 \<mapsto> 7], disk_major := [64 \<mapsto> 8], disk_first_minor := [64 \<mapsto> 0]\<rparr>)
     (iocost_kernel.fields [512 \<mapsto> 16] 24 16 [528 \<mapsto> 112] 8 8 [96 \<mapsto> 8] [40 \<mapsto> 512])"

lemma ioc_demo_simps [simp]:
  "iocost_tail_waiter ioc_demo_kernel 512 = 8" "iocost_read_bio ioc_demo_kernel 8 = (1, 1)"
  "iocost_wake_identity ioc_demo_kernel 104 40 = Some (512, 8)"
  "iocost_read_identity ioc_demo_kernel 512 8 =
     Some \<lparr>io_css = 32, io_css_serial = 7, io_major = 8, io_minor = 0\<rparr>"
  "iocg_pd_offset ioc_demo_kernel = 24"
  "iocost_enqueue_caller ioc_demo_cfg 150"
  by (simp_all add: ioc_demo_kernel_def blk_kernel.defs iocost_kernel.defs empty_blk_kernel_def
      iocost_tail_waiter_def iocost_read_bio_def iocost_wake_identity_def iocost_read_identity_def
      bio_disk_def core_read_def ioc_demo_cfg_def iocost_enqueue_caller_def iocost_range_contains_def
      word_cmp_nat)

lemma ioc_demo_init [simp]:
  "\<not> unhealthy (ic_status iocost_init)" "wake_frame_map iocost_init c \<noteq> None"
  "owner_state_map iocost_init = Map.empty" "ic_pending_map iocost_init = Map.empty"
  "ic_wait_agg_map iocost_init = Map.empty"
  by (simp_all add: iocost_init_def unhealthy_def)

definition ioc_demo_failed :: iocost_state where
  "ioc_demo_failed = iocost_init\<lparr>ic_status := Some \<lparr>failure = pack_failure 6 0, devices_changed = 0\<rparr>\<rparr>"

theorem iocost_failure_tail_witness:
  "unhealthy (ic_status ioc_demo_failed) \<and>
   unhealthy (ic_status (fold (iocost_step ioc_demo_cfg)
     [Kick_waitq ioc_demo_kernel 150 512 1000 Fault_none] ioc_demo_failed))"
proof -
  have u: "unhealthy (ic_status ioc_demo_failed)" by (simp add: ioc_demo_failed_def unhealthy_def)
  from iocost_failure_tail [OF u, of ioc_demo_cfg "[Kick_waitq ioc_demo_kernel 150 512 1000 Fault_none]" "{}"] u
  show ?thesis by blast
qed

text \<open>The bio at 8 waits for 55us; another CPU runs a wake callback while CPU 3 runs its own.\<close>

theorem iocost_wait_settled_witness:
  "let r' = fold (iocost_step ioc_demo_cfg)
      [Kick_waitq ioc_demo_kernel 150 512 1000 Fault_none, Wake_fn_ret 0 3 Fault_none,
       Wake_fn ioc_demo_kernel 104 40 56000 3 no_wake_faults, Wake_fn ioc_demo_kernel 104 40 57000 4 no_wake_faults,
       Wake_fn_ret 0 3 Fault_none] iocost_init;
       w = table_row (ic_wait_agg_map r')
         \<lparr>wk_css = 32, wk_css_serial = 7, wk_major = 8, wk_minor = 0, wk_operation = 1, wk_reserved = 0\<rparr> 3
   in wait_count w = 1 \<and> wait_10us w = 5"
proof -
  let ?owner = "\<lparr>io_css = 32, io_css_serial = 7, io_major = 8, io_minor = 0\<rparr>"
  let ?pending = "\<lparr>start_ns = 1000, operation = 1, reserved = 0\<rparr>"
  let ?key = "owner_key ?owner 1"
  define t where "t = iocost_init\<lparr>ic_pending_map := [8 \<mapsto> ?pending]\<rparr>"
  define u where "u = iocost_init\<lparr>owner_state_map := [512 \<mapsto> ?owner], ic_wait_agg_map := [?key \<mapsto> \<lambda>_. 0],
      wake_frame_map := (wake_frame_map iocost_init)(3 \<mapsto> frame_of 8 56000 ?pending ?key)\<rparr>"
  obtain fr where fr: "wake_frame_map t 3 = Some fr" "bio_ptr fr = 0" by (simp add: t_def iocost_init_def frame_of_def)
  have idle: "kretprobe_iocg_wake_fn 0 3 Fault_none t = t"
    using fr by (simp add: kretprobe_iocg_wake_fn_def)
  have te: "t = fold (iocost_step ioc_demo_cfg)
      (Kick_waitq ioc_demo_kernel 150 512 1000 Fault_none # [Wake_fn_ret 0 3 Fault_none]) iocost_init"
    using idle by (simp add: kprobe_iocg_kick_waitq_def iocost_unhealthy_status iocost_classify_pending_update_ret_def t_def)
  have ue: "u = iocost_step ioc_demo_cfg (Wake_fn ioc_demo_kernel 104 40 56000 3 no_wake_faults) t"
    using wake_fn_none [OF _ fr(1), of ioc_demo_kernel 104 40 512 8 ?pending ?owner 56000]
    by (simp add: t_def u_def iocg_owner_def Let_def table_row_def)
  define r where "r = iocost_clear_wake_frame 4 u"
  have re: "r = fold (iocost_step ioc_demo_cfg) [Wake_fn ioc_demo_kernel 104 40 57000 4 no_wake_faults] u"
    by (simp add: kprobe_iocg_wake_fn_def iocost_unhealthy_status clear_frame_eq Let_def r_def u_def)
  have healthy: "\<not> unhealthy (ic_status (iocost_step ioc_demo_cfg (Wake_fn_ret 0 3 Fault_none) r))"
    by (simp add: kretprobe_iocg_wake_fn_def r_def u_def clear_frame_eq frame_of_def word_cmp_nat)
  have others: "list_all (\<lambda>e. \<not> meets_bio ioc_demo_cfg e 8) [Wake_fn_ret 0 3 Fault_none]"
      "list_all (\<lambda>e. \<not> uses_frame e 3) [Wake_fn ioc_demo_kernel 104 40 57000 4 no_wake_faults]" by simp_all
  have owner: "iocg_owner ioc_demo_kernel 512 8 t = Some ?owner" by (simp add: iocg_owner_def t_def)
  have rw: "ic_wait_agg_map r = [?key \<mapsto> \<lambda>_. 0]" by (simp add: r_def u_def clear_frame_eq)
  note iocost_wait_settled [OF ioc_demo_simps(6,1,2,3) _ others te ue re refl healthy]
  then obtain w where "ic_wait_agg_map (iocost_step ioc_demo_cfg (Wake_fn_ret 0 3 Fault_none) r) = [?key \<mapsto> (\<lambda>_. 0)(3 := w)]"
      "wait_count w = 1" "wait_10us w = 5"
    by (auto simp: owner rw table_row_def wait_count_def wait_10us_def)
  moreover have "fold (iocost_step ioc_demo_cfg)
      [Kick_waitq ioc_demo_kernel 150 512 1000 Fault_none, Wake_fn_ret 0 3 Fault_none,
       Wake_fn ioc_demo_kernel 104 40 56000 3 no_wake_faults, Wake_fn ioc_demo_kernel 104 40 57000 4 no_wake_faults,
       Wake_fn_ret 0 3 Fault_none] iocost_init = iocost_step ioc_demo_cfg (Wake_fn_ret 0 3 Fault_none) r"
    unfolding re ue te by simp
  ultimately show ?thesis by (simp add: Let_def owner_key_def table_row_def del: fold.simps fold_simps)
qed

lemma minus_one_32: "ucast (0xFFFFFFFF :: u64) = (- 1 :: u32)"
  by code_simp

theorem iocost_wake_restored_witness:
  "ic_pending_map (fold (iocost_step ioc_demo_cfg)
      [Wake_fn ioc_demo_kernel 104 40 51000 3 no_wake_faults, Wake_fn_ret 0xFFFFFFFF 3 Fault_none]
      (iocost_init\<lparr>ic_pending_map := [8 \<mapsto> \<lparr>start_ns = 1000, operation = 1, reserved = 0\<rparr>]\<rparr>)) =
   [8 \<mapsto> \<lparr>start_ns = 1000, operation = 1, reserved = 0\<rparr>]"
  using iocost_wake_restored [where s = "iocost_init\<lparr>ic_pending_map := [8 \<mapsto> \<lparr>start_ns = 1000, operation = 1, reserved = 0\<rparr>]\<rparr>"
      and cpu = 3 and K = ioc_demo_kernel and wq = 104 and ctx = 40 and iocg = 512 and bio = 8 and rc = "0xFFFFFFFF"
      and owner = "\<lparr>io_css = 32, io_css_serial = 7, io_major = 8, io_minor = 0\<rparr>" and cfg = ioc_demo_cfg and now = 51000, OF _ _ _ _ _ _ _ _ refl]
  by (simp add: iocg_owner_def minus_one_32)

text \<open>No IOCOST group is released silently: when the probe sees the release of a group whose
  owner it has saved, either the owner is marked for final collection and forgotten, or the
  session is marked failed. Counters, pending samples and wake frames are kept.\<close>

theorem iocost_pd_free_retires:
  assumes "pd \<noteq> 0" and "iocg_pd_offset K \<le> pd" and "owner_state_map s (pd - iocg_pd_offset K) = Some owner"
    and s': "s' = kprobe_ioc_pd_free K pd f_retire f_delete s"
  shows "(ic_retired_map s' \<lparr>rk_css = io_css owner, rk_css_serial = io_css_serial owner,
             rk_major = io_major owner, rk_minor = io_minor owner\<rparr> \<noteq> None \<and>
          owner_state_map s' = (owner_state_map s)(pd - iocg_pd_offset K := None) \<or>
          unhealthy (ic_status s')) \<and>
         ic_wait_agg_map s' = ic_wait_agg_map s \<and> ic_pending_map s' = ic_pending_map s \<and>
         wake_frame_map s' = wake_frame_map s"
  using assms(1-3) unfolding s' kprobe_ioc_pd_free_def iocost_retire_aggregate_def
  by (cases f_retire; cases f_delete)
    (auto simp: Let_def not_less bpf_map_update_elem_def bpf_map_delete_elem_def)

end
