(* ===== verification/Io_Latency.thy ===== *)
theory Io_Latency
  imports Io_Control Kernel_Block
begin

text \<open>
  \<^verbatim>\<open>bpf/iolatency_tracing.c\<close> with the layouts of \<^verbatim>\<open>abi/iolatency_types.h\<close>, and
  \<^verbatim>\<open>bpf/iolatency_probe.c\<close>: latency and size histograms of block IO, per disk and per
  container. The object's maps are the fields of \<open>io_latency_state\<close> and each probe is one
  function on it.

  A pointer into a map row is the row's key; the row is read and written through the map. The
  raw context of a tracepoint is its argument array. A CO-RE layout check compares the field
  offsets of the kernel record, and a read of several adjacent fields succeeds as a whole or
  leaves its zeroed buffer. A walk over bios takes a function from the position of a bio to
  the failures of the two map writes made for it.
\<close>

section \<open>Data\<close>

abbreviation (input) "IO_LATENCY_BUCKETS \<equiv> 17 :: nat"
abbreviation (input) "IO_SIZE_BUCKETS \<equiv> 6 :: nat"
abbreviation (input) "IO_LATENCY_REQUEST_SCAN_BUDGET \<equiv> 512 :: nat"
abbreviation (input) "IO_LATENCY_CRYPTO_MODE_CAPACITY \<equiv> 64 :: nat"
abbreviation (input) "IO_LATENCY_REQUEST_CHUNK_BIOS \<equiv> 32 :: nat"
abbreviation (input) "IO_LATENCY_COMPLETION_CHUNK_COUNT \<equiv> 16 :: nat"

abbreviation (input) "IO_LATENCY_STAGE_Q2D \<equiv> 0 :: u32"
abbreviation (input) "IO_LATENCY_STAGE_D2C \<equiv> 1 :: u32"
abbreviation (input) "IO_LATENCY_STAGE_Q2G \<equiv> 2 :: u32"

abbreviation (input) "IO_LATENCY_ROW_COUNTERS \<equiv> 0 :: u32"
abbreviation (input) "IO_LATENCY_CSS_RELEASED \<equiv> 1 :: u32"

abbreviation (input) "IO_LATENCY_CHAIN_OVERFLOW \<equiv> 1 :: u32"
abbreviation (input) "IO_LATENCY_GROUP_INSERT_FAILED \<equiv> 3 :: u32"
abbreviation (input) "IO_LATENCY_GROUP_RELEASE_FAILED \<equiv> 4 :: u32"

abbreviation (input) "IO_LATENCY_PROBE_PENDING \<equiv> 0 :: int"
abbreviation (input) "IO_LATENCY_PROBE_SKIPPED \<equiv> 1 :: int"
abbreviation (input) "IO_LATENCY_PROBE_SUPPORTED \<equiv> 2 :: int"
abbreviation (input) "IO_LATENCY_PROBE_DISABLED \<equiv> 3 :: int"

abbreviation (input) "IO_LATENCY_CRYPTO_PENDING \<equiv> 0 :: int"
abbreviation (input) "IO_LATENCY_CRYPTO_UNUSED \<equiv> 1 :: int"
abbreviation (input) "IO_LATENCY_CRYPTO_INITIALIZED \<equiv> 2 :: int"

abbreviation (input) "IO_SIZE_POINT_QUEUE \<equiv> 0 :: u32"
abbreviation (input) "IO_SIZE_POINT_ISSUE \<equiv> 1 :: u32"

abbreviation (input) "IO_LATENCY_NS_PER_US \<equiv> 1000 :: u64"
abbreviation (input) "IO_LATENCY_NS_PER_MS \<equiv> 1000000 :: u64"
abbreviation (input) "IO_LATENCY_NS_PER_SEC \<equiv> 1000000000 :: u64"
abbreviation (input) "IO_SIZE_KIB \<equiv> 1024 :: u64"

text \<open>The arrays of the counters are functions of the index, so that a write past the end of an
  array would be visible.\<close>

record iolatency_counters =
  buckets :: "u32 \<Rightarrow> nat \<Rightarrow> u64"
  queued_size :: "nat \<Rightarrow> u64"
  issued_size :: "nat \<Rightarrow> u64"

record iolatency_host_counters =
  hc_major :: u32
  hc_minor :: u32
  hc_counters :: "nat \<Rightarrow> iolatency_counters"
  hc_scsi :: u64

record iolatency_container_key =
  ck_blkcg :: u64
  ck_serial :: u64
  ck_major :: u32
  ck_minor :: u32
  ck_operation :: u32
  ck_kind :: u32

record iolatency_queue_probe_result =
  qp_result :: int
  qp_major :: u32
  qp_minor :: u32
  qp_disk :: u64

record io_latency_group_state =
  gs_serial :: u64

definition zero_latency_counters :: iolatency_counters where
  "zero_latency_counters =
     \<lparr>buckets = \<lambda>_ _. 0, queued_size = \<lambda>_. 0, issued_size = \<lambda>_. 0\<rparr>"

record io_latency_state =
  io_latency_group_map :: "u64 \<rightharpoonup> io_latency_group_state"
  blkdisk_lat_map :: "u64 \<rightharpoonup> iolatency_host_counters"
  blkcg_lat_map :: "iolatency_container_key \<rightharpoonup> iolatency_counters"
  io_latency_probe_result :: "string \<rightharpoonup> iolatency_queue_probe_result"
  io_status :: "io_control_status option"

record io_latency_config =
  block_bio_queue_bio_arg :: u32
  block_bio_remap_bio_arg :: u32
  block_rq_remap_request_arg :: u32
  io_latency_bio_trace_completion :: u32
  io_latency_root_blkcg :: u64

text \<open>The further kernel fields read by this object, with the offsets that its layout checks
  compare.\<close>

record iolat_kernel = blk_kernel +
  off_bi_disk :: u32
  off_bi_bdev :: u32
  off_bi_opf :: u32
  has_bi_partno :: bool
  bi_partno :: "u64 \<Rightarrow> u8 option"
  disk_part_tbl :: "u64 \<Rightarrow> u64 option"
  part_tbl_part :: "u64 \<times> u8 \<Rightarrow> u64 option"
  part_devt :: "u64 \<Rightarrow> u32 option"
  bd_dev :: "u64 \<Rightarrow> u32 option"
  bi_flags :: "u64 \<Rightarrow> u32 option"
  has_bi_issue :: bool
  bi_issue :: "u64 \<Rightarrow> u64 option"
  has_issue_time_ns :: bool
  issue_time_ns :: "u64 \<Rightarrow> u64 option"
  has_rq_disk :: bool
  rq_disk :: "u64 \<Rightarrow> u64 option"
  rq_q :: "u64 \<Rightarrow> u64 option"
  q_disk :: "u64 \<Rightarrow> u64 option"
  cmd_flags :: "u64 \<Rightarrow> u32 option"
  rq_data_len :: "u64 \<Rightarrow> u32 option"
  rq_bio :: "u64 \<Rightarrow> u64 option"
  rq_biotail :: "u64 \<Rightarrow> u64 option"
  start_time_ns :: "u64 \<Rightarrow> u64 option"
  io_start_time_ns :: "u64 \<Rightarrow> u64 option"
  has_stats_sectors :: bool
  stats_sectors :: "u64 \<Rightarrow> u16 option"
  aux_size :: u32
  aux_stats_sectors :: "u64 \<Rightarrow> u16 option"
  off_cmd_flags :: u32
  off_data_len :: u32
  off_bio :: u32
  off_biotail :: u32
  off_start_time_ns :: u32
  off_io_start_time_ns :: u32

text \<open>Kernel memory read by the sysfs hook.\<close>

record queue_kernel =
  attr_name_of :: "u64 \<Rightarrow> u64 option"
  kobj_parent :: "u64 \<Rightarrow> u64 option"
  kobj_name :: "u64 \<Rightarrow> u64 option"
  str_at :: "u64 \<Rightarrow> string option"
  off_device_kobj :: u64
  has_bd_device :: bool
  off_bd_device :: u64
  queue_bd_disk :: "u64 \<Rightarrow> u64 option"
  off_part0_dev :: u64
  disk_queue :: "u64 \<Rightarrow> u64 option"
  q_mq_ops :: "u64 \<Rightarrow> u64 option"
  q_stats :: "u64 \<Rightarrow> u64 option"
  off_callbacks :: u64
  callbacks_next :: "u64 \<Rightarrow> u64 option"
  has_accounting :: bool
  stats_accounting :: "u64 \<Rightarrow> u32 option"
  stats_enable_accounting :: "u64 \<Rightarrow> bool option"
  queue_disk_major :: "u64 \<Rightarrow> u32 option"
  queue_disk_minor :: "u64 \<Rightarrow> u32 option"

definition io_latency_publish ::
  "u32 \<Rightarrow> int \<Rightarrow> io_control_status option \<Rightarrow> io_control_status option" where
  "io_latency_publish reason error st =
     (if error = - EBUSY then st
      else map_option (\<lambda>x. x\<lparr>failure := pack_failure reason error\<rparr>) st)"

definition io_latency_fail :: "u32 \<Rightarrow> int \<Rightarrow> io_latency_state \<Rightarrow> io_latency_state" where
  "io_latency_fail reason error s = s\<lparr>io_status := io_latency_publish reason error (io_status s)\<rparr>"

section \<open>The queue probe\<close>

definition io_latency_device_disk :: "queue_kernel \<Rightarrow> u64 \<Rightarrow> u64" where
  "io_latency_device_disk Q device =
     (if has_bd_device Q then core_read (queue_bd_disk Q) (device - off_bd_device Q)
      else device - off_part0_dev Q)"

text \<open>The state sampled from a queue: the value that the probe publishes, after the labels
  \<^verbatim>\<open>failed\<close> and \<^verbatim>\<open>finished\<close>. A faulting read gives its errno.\<close>

definition queue_probe_failed :: "iolatency_queue_probe_result" where
  "queue_probe_failed = \<lparr>qp_result = - EFAULT, qp_major = 0, qp_minor = 0, qp_disk = 0\<rparr>"

definition queue_probe_sample ::
  "queue_kernel \<Rightarrow> u64 \<Rightarrow> u64 \<Rightarrow> iolatency_queue_probe_result" where
  "queue_probe_sample Q disk q =
     (case q_stats Q q of None \<Rightarrow> queue_probe_failed
      | Some stats \<Rightarrow> (case callbacks_next Q stats of None \<Rightarrow> queue_probe_failed
        | Some nxt \<Rightarrow>
            (case (if has_accounting Q then map_option (\<lambda>a. a \<noteq> 0) (stats_accounting Q stats)
                   else stats_enable_accounting Q stats) of
               None \<Rightarrow> queue_probe_failed
             | Some enabled \<Rightarrow>
                 (case queue_disk_major Q disk of None \<Rightarrow> queue_probe_failed
                  | Some major \<Rightarrow> (case queue_disk_minor Q disk of None \<Rightarrow> queue_probe_failed
                    | Some minor \<Rightarrow>
                        \<lparr>qp_result = (if \<not> enabled \<and> nxt = stats + off_callbacks Q
                                      then IO_LATENCY_PROBE_DISABLED
                                      else IO_LATENCY_PROBE_SUPPORTED),
                         qp_major = major, qp_minor = minor, qp_disk = disk\<rparr>)))))"

definition queue_probe_result ::
  "queue_kernel \<Rightarrow> string \<Rightarrow> u64 \<Rightarrow> iolatency_queue_probe_result" where
  "queue_probe_result Q name parent =
     (let disk = io_latency_device_disk Q (parent - off_device_kobj Q)
      in if disk = 0 then queue_probe_failed
         else case disk_queue Q disk of None \<Rightarrow> queue_probe_failed
           | Some q \<Rightarrow>
               if name_byte name 0 = CHR ''n'' \<and> name_byte name 1 = CHR ''v'' \<and>
                  name_byte name 2 = CHR ''m'' \<and> name_byte name 3 = CHR ''e''
               then case q_mq_ops Q q of None \<Rightarrow> queue_probe_failed
                 | Some mq_ops \<Rightarrow>
                     if mq_ops = 0
                     then \<lparr>qp_result = IO_LATENCY_PROBE_SKIPPED, qp_major = 0, qp_minor = 0, qp_disk = 0\<rparr>
                     else queue_probe_sample Q disk q
               else queue_probe_sample Q disk q)"

definition probe_queue_stats ::
  "queue_kernel \<Rightarrow> map_fault \<Rightarrow> u64 \<Rightarrow> u64 \<Rightarrow> io_latency_state \<Rightarrow> io_latency_state" where
  "probe_queue_stats Q f kobj attr s =
     (case attr_name_of Q attr of None \<Rightarrow> s
      | Some attr_name \<Rightarrow> (case probe_read_str (str_at Q) 9 attr_name of None \<Rightarrow> s
        | Some (ret, attribute) \<Rightarrow>
            if ret \<noteq> 8 \<or> name_byte attribute 0 \<noteq> CHR ''i'' \<or>
               name_byte attribute 1 \<noteq> CHR ''o'' \<or> name_byte attribute 2 \<noteq> CHR ''s'' \<or>
               name_byte attribute 3 \<noteq> CHR ''t'' \<or> name_byte attribute 4 \<noteq> CHR ''a'' \<or>
               name_byte attribute 5 \<noteq> CHR ''t'' \<or> name_byte attribute 6 \<noteq> CHR ''s'' \<or>
               name_byte attribute 7 \<noteq> CHR 0x00
            then s
            else case kobj_parent Q kobj of None \<Rightarrow> s
            | Some parent \<Rightarrow> (case kobj_name Q parent of None \<Rightarrow> s
              | Some disk_name \<Rightarrow> (case probe_read_str (str_at Q) 32 disk_name of None \<Rightarrow> s
                | Some (_, name) \<Rightarrow>
                    if io_latency_probe_result s name = None then s
                    else s\<lparr>io_latency_probe_result :=
                             snd (bpf_map_update_elem f BPF_EXIST name
                               (queue_probe_result Q name parent) (io_latency_probe_result s))\<rparr>))))"

section \<open>Histograms\<close>

definition io_histogram_above :: "u64 \<Rightarrow> u64 \<Rightarrow> u32" where
  "io_histogram_above v threshold = ucast (drop_bit 63 ((threshold - v) OR v))"

definition io_latency_bucket :: "u64 \<Rightarrow> u64 \<Rightarrow> u64 \<Rightarrow> int" where
  "io_latency_bucket start_ns end_ns queue_stage =
     (if start_ns = 0 \<or> end_ns = 0 then - 1
      else if end_ns < start_ns then (if queue_stage \<noteq> 0 then 0 else - 1)
      else
        let ns = end_ns - start_ns
        in if ns \<le> 50 * IO_LATENCY_NS_PER_US then 0
           else
             let bucket = 1 + io_histogram_above ns (100 * IO_LATENCY_NS_PER_US)
                   + io_histogram_above ns (250 * IO_LATENCY_NS_PER_US)
                   + io_histogram_above ns (500 * IO_LATENCY_NS_PER_US)
                   + io_histogram_above ns IO_LATENCY_NS_PER_MS;
                 bucket = bucket + io_histogram_above ns (2 * IO_LATENCY_NS_PER_MS);
                 bucket = bucket + io_histogram_above ns (4 * IO_LATENCY_NS_PER_MS);
                 bucket = bucket + io_histogram_above ns (8 * IO_LATENCY_NS_PER_MS);
                 bucket = bucket + io_histogram_above ns (16 * IO_LATENCY_NS_PER_MS);
                 bucket = bucket + io_histogram_above ns (32 * IO_LATENCY_NS_PER_MS);
                 bucket = bucket + io_histogram_above ns (64 * IO_LATENCY_NS_PER_MS);
                 bucket = bucket + io_histogram_above ns (128 * IO_LATENCY_NS_PER_MS);
                 bucket = bucket + io_histogram_above ns (256 * IO_LATENCY_NS_PER_MS);
                 bucket = bucket + io_histogram_above ns (512 * IO_LATENCY_NS_PER_MS);
                 bucket = bucket + io_histogram_above ns IO_LATENCY_NS_PER_SEC;
                 bucket = bucket + io_histogram_above ns (2 * IO_LATENCY_NS_PER_SEC)
             in sint bucket)"

definition io_size_bucket :: "u32 \<Rightarrow> int" where
  "io_size_bucket bytes =
     (let wide = ucast bytes :: u64
      in if wide \<le> 4 * IO_SIZE_KIB then 0
         else sint (io_histogram_above wide (4 * IO_SIZE_KIB)
           + io_histogram_above wide (16 * IO_SIZE_KIB)
           + io_histogram_above wide (64 * IO_SIZE_KIB)
           + io_histogram_above wide (256 * IO_SIZE_KIB)
           + io_histogram_above wide (1024 * IO_SIZE_KIB)))"

definition io_latency_pointer_argument :: "(nat \<Rightarrow> u64) \<Rightarrow> u32 \<Rightarrow> u64" where
  "io_latency_pointer_argument args index = (if index = 0 then args 0 else args 1)"

definition bump :: "(nat \<Rightarrow> u64) \<Rightarrow> nat \<Rightarrow> nat \<Rightarrow> u64" where
  "bump row i = row(i := row i + 1)"

definition increment_latency :: "u32 \<Rightarrow> nat \<Rightarrow> iolatency_counters \<Rightarrow> iolatency_counters" where
  "increment_latency stage bucket c =
     (if stage = IO_LATENCY_STAGE_Q2D
      then c\<lparr>buckets := (buckets c)(IO_LATENCY_STAGE_Q2D := bump (buckets c IO_LATENCY_STAGE_Q2D) bucket)\<rparr>
      else if stage = IO_LATENCY_STAGE_D2C
      then c\<lparr>buckets := (buckets c)(IO_LATENCY_STAGE_D2C := bump (buckets c IO_LATENCY_STAGE_D2C) bucket)\<rparr>
      else if stage = IO_LATENCY_STAGE_Q2G
      then c\<lparr>buckets := (buckets c)(IO_LATENCY_STAGE_Q2G := bump (buckets c IO_LATENCY_STAGE_Q2G) bucket)\<rparr>
      else c)"

definition increment_io_size :: "u32 \<Rightarrow> nat \<Rightarrow> iolatency_counters \<Rightarrow> iolatency_counters" where
  "increment_io_size point bucket c =
     (if point = IO_SIZE_POINT_QUEUE then c\<lparr>queued_size := bump (queued_size c) bucket\<rparr>
      else if point = IO_SIZE_POINT_ISSUE then c\<lparr>issued_size := bump (issued_size c) bucket\<rparr>
      else c)"

text \<open>Writes through a pointer to the counters of a disk's operation, and of a container row.\<close>

definition at_host ::
  "u64 \<Rightarrow> u64 \<Rightarrow> (iolatency_counters \<Rightarrow> iolatency_counters) \<Rightarrow> io_latency_state \<Rightarrow> io_latency_state" where
  "at_host disk operation g s =
     (case blkdisk_lat_map s disk of None \<Rightarrow> s
      | Some h \<Rightarrow> s\<lparr>blkdisk_lat_map := (blkdisk_lat_map s)(disk \<mapsto>
          h\<lparr>hc_counters := (hc_counters h)(unat operation := g (hc_counters h (unat operation)))\<rparr>)\<rparr>)"

definition at_row ::
  "iolatency_container_key \<Rightarrow> (iolatency_counters \<Rightarrow> iolatency_counters) \<Rightarrow>
     io_latency_state \<Rightarrow> io_latency_state" where
  "at_row key g s = s\<lparr>blkcg_lat_map := (blkcg_lat_map s)(key := map_option g (blkcg_lat_map s key))\<rparr>"

section \<open>Container identity\<close>

definition io_latency_bio_css :: "io_latency_config \<Rightarrow> 'a blk_kernel_scheme \<Rightarrow> u64 \<Rightarrow> u64" where
  "io_latency_bio_css cfg K bio =
     (let blkcg = core_read (blkg_blkcg K) (core_read (bi_blkg K) bio)
      in if blkcg = 0 \<or> blkcg = io_latency_root_blkcg cfg then 0 else blkcg_css K blkcg)"

definition io_latency_css_serial ::
  "'a blk_kernel_scheme \<Rightarrow> map_fault \<Rightarrow> u64 \<Rightarrow> io_latency_state \<Rightarrow> u64 \<times> io_latency_state" where
  "io_latency_css_serial K f css s =
     (case io_latency_group_map s css of
        Some gr \<Rightarrow> (gs_serial gr, s)
      | None \<Rightarrow>
          let initial = \<lparr>gs_serial = core_read (css_serial_nr K) css\<rparr>
          in if gs_serial initial = 0 then (0, s)
             else
               let (ret, m) = bpf_map_update_elem f BPF_NOEXIST css initial (io_latency_group_map s);
                   s1 = s\<lparr>io_latency_group_map := m\<rparr>
               in if ret \<noteq> 0 \<and> ret \<noteq> - EEXIST
                  then (0, io_latency_fail IO_LATENCY_GROUP_INSERT_FAILED ret s1)
                  else (case m css of None \<Rightarrow> 0 | Some gr \<Rightarrow> gs_serial gr, s1))"

definition io_latency_bio_identity ::
  "io_latency_config \<Rightarrow> 'a blk_kernel_scheme \<Rightarrow> map_fault \<Rightarrow> u64 \<Rightarrow> iolatency_container_key \<Rightarrow>
     io_latency_state \<Rightarrow> iolatency_container_key \<times> io_latency_state" where
  "io_latency_bio_identity cfg K f bio key s =
     (let css = io_latency_bio_css cfg K bio
      in if css = 0 then (key, s)
         else let (serial, s1) = io_latency_css_serial K f css s
              in (if serial \<noteq> 0 then key\<lparr>ck_blkcg := css, ck_serial := serial\<rparr> else key, s1))"

definition io_latency_css_released ::
  "map_fault \<Rightarrow> map_fault \<Rightarrow> u64 \<Rightarrow> io_latency_state \<Rightarrow> io_latency_state" where
  "io_latency_css_released f1 f2 css s =
     (case io_latency_group_map s css of None \<Rightarrow> s
      | Some gr \<Rightarrow>
          if gs_serial gr = 0 then s
          else
            let key = \<lparr>ck_blkcg = css, ck_serial = gs_serial gr, ck_major = 0, ck_minor = 0,
                       ck_operation = 0, ck_kind = IO_LATENCY_CSS_RELEASED\<rparr>;
                (ret, m) = bpf_map_update_elem f1 BPF_NOEXIST key zero_latency_counters (blkcg_lat_map s);
                s1 = s\<lparr>blkcg_lat_map := m\<rparr>;
                s2 = (if ret \<noteq> 0 \<and> ret \<noteq> - EEXIST
                      then io_latency_fail IO_LATENCY_GROUP_RELEASE_FAILED ret s1 else s1);
                (ret2, g) = bpf_map_delete_elem f2 css (io_latency_group_map s2);
                s3 = s2\<lparr>io_latency_group_map := g\<rparr>
            in if ret2 \<noteq> 0 \<and> ret2 \<noteq> - ENOENT
               then io_latency_fail IO_LATENCY_GROUP_RELEASE_FAILED ret2 s3 else s3)"

text \<open>The key of the row found or created, \<open>None\<close> for a NULL pointer.\<close>

definition lookup_container_counters ::
  "map_fault \<Rightarrow> iolatency_container_key \<Rightarrow> io_latency_state \<Rightarrow>
     iolatency_container_key option \<times> io_latency_state" where
  "lookup_container_counters f state s =
     (let key = \<lparr>ck_blkcg = ck_blkcg state, ck_serial = ck_serial state, ck_major = ck_major state,
                 ck_minor = ck_minor state, ck_operation = ck_operation state,
                 ck_kind = IO_LATENCY_ROW_COUNTERS\<rparr>
      in if ck_blkcg state = 0 \<or> ck_serial state = 0 then (None, s)
         else if blkcg_lat_map s key \<noteq> None then (Some key, s)
         else
           let (ret, m) = bpf_map_update_elem f BPF_NOEXIST key zero_latency_counters (blkcg_lat_map s);
               s1 = s\<lparr>blkcg_lat_map := m\<rparr>
           in if ret = - EBUSY then (None, s1)
              else (if m key = None then None else Some key, s1))"

definition account_io_latency ::
  "u64 \<Rightarrow> u64 \<Rightarrow> u32 \<Rightarrow> u64 \<Rightarrow> u64 \<Rightarrow> io_latency_state \<Rightarrow> int \<times> io_latency_state" where
  "account_io_latency disk operation stage start_ns end_ns s =
     (let bucket = word_of_int (io_latency_bucket start_ns end_ns
                     (if stage \<noteq> IO_LATENCY_STAGE_D2C then 1 else 0)) :: u64
      in if of_nat IO_LATENCY_BUCKETS \<le> bucket then (- 1, s)
         else (int (unat bucket), at_host disk operation (increment_latency stage (unat bucket)) s))"

definition io_latency_request_disk :: "iolat_kernel \<Rightarrow> u64 \<Rightarrow> u64" where
  "io_latency_request_disk K req =
     (if has_rq_disk K then core_read (rq_disk K) req
      else core_read (q_disk K) (core_read (rq_q K) req))"

section \<open>Queueing\<close>

type_synonym bio_faults = "map_fault \<times> map_fault"

definition queue_bio_latency ::
  "io_latency_config \<Rightarrow> 'a blk_kernel_scheme \<Rightarrow> bio_faults \<Rightarrow> u64 \<Rightarrow> u64 \<Rightarrow> u64 \<Rightarrow>
     io_latency_state \<Rightarrow> io_latency_state" where
  "queue_bio_latency cfg K f bio disk operation s =
     (if operation \<noteq> ucast REQ_OP_READ \<and> operation \<noteq> ucast REQ_OP_WRITE then s
      else case blkdisk_lat_map s disk of None \<Rightarrow> s
      | Some counters \<Rightarrow>
          let bytes = core_read (bi_size K) bio
          in if bytes = 0 then s
             else
               let bucket = nat (io_size_bucket bytes);
                   s1 = at_host disk operation (increment_io_size IO_SIZE_POINT_QUEUE bucket) s;
                   (series, s2) = io_latency_bio_identity cfg K (fst f) bio
                     \<lparr>ck_blkcg = 0, ck_serial = 0, ck_major = hc_major counters,
                      ck_minor = hc_minor counters, ck_operation = ucast operation, ck_kind = 0\<rparr> s1
               in if ck_blkcg series = 0 then s2
                  else case lookup_container_counters (snd f) series s2 of
                         (None, s3) \<Rightarrow> s3
                       | (Some key, s3) \<Rightarrow>
                           at_row key (increment_io_size IO_SIZE_POINT_QUEUE bucket) s3)"

definition queue_bio_on_disk ::
  "io_latency_config \<Rightarrow> 'a blk_kernel_scheme \<Rightarrow> bio_faults \<Rightarrow> u64 \<Rightarrow> u64 \<Rightarrow>
     io_latency_state \<Rightarrow> io_latency_state" where
  "queue_bio_on_disk cfg K f bio disk s =
     queue_bio_latency cfg K f bio disk (ucast (core_read (bi_opf K) bio AND REQ_OP_MASK)) s"

text \<open>One read of two fields: both, or the zeroes of the buffer.\<close>

definition core_read2 ::
  "('a \<Rightarrow> 'b::zero option) \<Rightarrow> ('a \<Rightarrow> 'c::zero option) \<Rightarrow> 'a \<Rightarrow> 'b \<times> 'c" where
  "core_read2 f g p = (case (f p, g p) of (Some a, Some b) \<Rightarrow> (a, b) | _ \<Rightarrow> (0, 0))"

definition trace_bio_queue ::
  "io_latency_config \<Rightarrow> iolat_kernel \<Rightarrow> bio_faults \<Rightarrow> (nat \<Rightarrow> u64) \<Rightarrow>
     io_latency_state \<Rightarrow> io_latency_state" where
  "trace_bio_queue cfg K f args s =
     (let bio = io_latency_pointer_argument args (block_bio_queue_bio_arg cfg);
          device_offset = (if has_bi_disk K then off_bi_disk K else off_bi_bdev K)
      in if bio = 0 then s
         else if off_bi_opf K = device_offset + 8
         then
           let (device, operation) =
                 core_read2 (if has_bi_disk K then bi_disk K else bi_bdev K) (bi_opf K) bio;
               disk = (if has_bi_disk K then device
                       else if device \<noteq> 0 then core_read (bd_disk K) device else 0)
           in if disk \<noteq> 0
              then queue_bio_latency cfg K f bio disk (ucast (operation AND REQ_OP_MASK)) s
              else s
         else
           let disk = bio_disk K bio
           in if disk \<noteq> 0 then queue_bio_on_disk cfg K f bio disk s else s)"

definition io_latency_remap_disk :: "iolat_kernel \<Rightarrow> u64 \<Rightarrow> u32 \<Rightarrow> u64" where
  "io_latency_remap_disk K bio from_dev =
     (if has_bi_partno K
      then
        let disk = core_read (bi_disk K) bio; partno = core_read (bi_partno K) bio
        in if partno \<noteq> 0 \<and> from_dev \<noteq> 0 \<and>
              from_dev = core_read (part_devt K)
                (core_read (part_tbl_part K) (core_read (disk_part_tbl K) disk, partno))
           then 0 else disk
      else
        let bdev = core_read (bi_bdev K) bio
        in if from_dev \<noteq> 0 \<and> from_dev = core_read (bd_dev K) bdev then 0
           else core_read (bd_disk K) bdev)"

definition trace_bio_remap ::
  "io_latency_config \<Rightarrow> iolat_kernel \<Rightarrow> bio_faults \<Rightarrow> (nat \<Rightarrow> u64) \<Rightarrow>
     io_latency_state \<Rightarrow> io_latency_state" where
  "trace_bio_remap cfg K f args s =
     (let bio = io_latency_pointer_argument args (block_bio_remap_bio_arg cfg);
          from_dev = (if block_bio_remap_bio_arg cfg \<noteq> 0 then args 2 else args 1)
      in if bio \<noteq> 0 \<and>
            core_read (bi_flags K) bio AND push_bit (unat (io_latency_bio_trace_completion cfg)) 1 \<noteq> 0
         then
           let disk = io_latency_remap_disk K bio (ucast from_dev)
           in if disk \<noteq> 0 then queue_bio_on_disk cfg K f bio disk s else s
         else s)"

text \<open>The loop of \<open>queue_remapped_bios\<close>: at most \<open>i\<close> further bios, the next one at position \<open>n\<close>
  of the walk.\<close>

fun queue_remapped_loop ::
  "io_latency_config \<Rightarrow> 'a blk_kernel_scheme \<Rightarrow> (nat \<Rightarrow> bio_faults) \<Rightarrow> u64 \<Rightarrow> u64 \<Rightarrow> nat \<Rightarrow> nat \<Rightarrow> u64 \<Rightarrow>
     io_latency_state \<Rightarrow> u64 \<times> io_latency_state" where
  "queue_remapped_loop cfg K F disk operation 0 n bio s = (bio, s)"
| "queue_remapped_loop cfg K F disk operation (Suc i) n bio s =
     (if bio = 0 then (bio, s)
      else queue_remapped_loop cfg K F disk operation i (Suc n) (core_read (bi_next K) bio)
             (queue_bio_latency cfg K (F n) bio disk operation s))"

definition queue_remapped_bios ::
  "io_latency_config \<Rightarrow> 'a blk_kernel_scheme \<Rightarrow> (nat \<Rightarrow> bio_faults) \<Rightarrow> nat \<Rightarrow> u64 \<Rightarrow> u64 \<Rightarrow> u64 \<Rightarrow>
     io_latency_state \<Rightarrow> u64 \<times> io_latency_state" where
  "queue_remapped_bios cfg K F n bio disk operation s =
     queue_remapped_loop cfg K F disk operation IO_LATENCY_REQUEST_CHUNK_BIOS n bio s"

fun queue_remapped_chunks ::
  "io_latency_config \<Rightarrow> 'a blk_kernel_scheme \<Rightarrow> (nat \<Rightarrow> bio_faults) \<Rightarrow> u64 \<Rightarrow> u64 \<Rightarrow> nat \<Rightarrow> nat \<Rightarrow> u64 \<Rightarrow>
     io_latency_state \<Rightarrow> u64 \<times> io_latency_state" where
  "queue_remapped_chunks cfg K F disk operation 0 n bio s = (bio, s)"
| "queue_remapped_chunks cfg K F disk operation (Suc i) n bio s =
     (if bio = 0 then (bio, s)
      else let (bio', s') = queue_remapped_bios cfg K F n bio disk operation s
           in queue_remapped_chunks cfg K F disk operation i
                (n + IO_LATENCY_REQUEST_CHUNK_BIOS) bio' s')"

definition trace_request_remap ::
  "io_latency_config \<Rightarrow> iolat_kernel \<Rightarrow> (nat \<Rightarrow> bio_faults) \<Rightarrow> (nat \<Rightarrow> u64) \<Rightarrow>
     io_latency_state \<Rightarrow> io_latency_state" where
  "trace_request_remap cfg K F args s =
     (let req = io_latency_pointer_argument args (block_rq_remap_request_arg cfg);
          disk = io_latency_request_disk K req;
          operation = core_read (cmd_flags K) req AND REQ_OP_MASK
      in if req = 0 then s
         else if blkdisk_lat_map s disk = None then s
         else if (operation \<noteq> REQ_OP_READ \<and> operation \<noteq> REQ_OP_WRITE) \<or> core_read (rq_data_len K) req = 0
         then s
         else
           let (bio, s1) = queue_remapped_chunks cfg K F disk (ucast operation)
                 (IO_LATENCY_REQUEST_SCAN_BUDGET div IO_LATENCY_REQUEST_CHUNK_BIOS) 0
                 (core_read (rq_bio K) req) s
           in if bio \<noteq> 0 then io_latency_fail IO_LATENCY_CHAIN_OVERFLOW 0 s1 else s1)"

section \<open>Completion\<close>

text \<open>\<open>rc_host\<close> is the key of the host row whose counters of \<open>rc_operation\<close> are written.\<close>

record request_completion =
  rc_disk :: u64
  rc_operation :: u64
  rc_host :: u64
  rc_get_request_ns :: u64
  rc_issue_ns :: u64
  rc_now :: u64
  rc_d2c_bucket :: int

definition io_latency_bio_queue_ns :: "iolat_kernel \<Rightarrow> u64 \<Rightarrow> u64 \<Rightarrow> u64" where
  "io_latency_bio_queue_ns K bio now =
     (if has_bi_issue K
      then
        let m = push_bit 51 1 - 1; stamp = core_read (bi_issue K) bio AND m
        in if stamp = 0 then 0
           else let age = (now - stamp) AND m in if age \<le> now then now - age else 0
      else
        let stamp = (if has_issue_time_ns K then core_read (issue_time_ns K) bio else 0)
        in if stamp \<le> now then stamp else 0)"

definition account_completed_container ::
  "io_latency_config \<Rightarrow> 'a blk_kernel_scheme \<Rightarrow> bio_faults \<Rightarrow> u64 \<Rightarrow> u64 \<Rightarrow> u64 \<Rightarrow> u64 \<Rightarrow>
     io_latency_state \<Rightarrow> io_latency_state" where
  "account_completed_container cfg K f bio disk operation packed s =
     (let q2g = packed AND 255;
          q2d = drop_bit 8 packed AND 255;
          d2c = drop_bit 16 packed AND 255;
          sz = drop_bit 24 packed AND 255
      in if packed = 0xffffffff then s
         else
           let (series, s1) = io_latency_bio_identity cfg K (fst f) bio
                 \<lparr>ck_blkcg = 0, ck_serial = 0, ck_major = ucast (drop_bit 32 disk),
                  ck_minor = ucast disk, ck_operation = ucast operation, ck_kind = 0\<rparr> s
           in case lookup_container_counters (snd f) series s1 of
                (None, s2) \<Rightarrow> s2
              | (Some key, s2) \<Rightarrow>
                  let s3 = (if q2g < of_nat IO_LATENCY_BUCKETS
                            then at_row key (increment_latency IO_LATENCY_STAGE_Q2G (unat q2g)) s2 else s2);
                      s4 = (if q2d < of_nat IO_LATENCY_BUCKETS
                            then at_row key (increment_latency IO_LATENCY_STAGE_Q2D (unat q2d)) s3 else s3);
                      s5 = (if d2c < of_nat IO_LATENCY_BUCKETS
                            then at_row key (increment_latency IO_LATENCY_STAGE_D2C (unat d2c)) s4 else s4)
                  in if sz < of_nat IO_SIZE_BUCKETS
                     then at_row key (increment_io_size IO_SIZE_POINT_ISSUE (unat sz)) s5 else s5)"

definition byte_of_int :: "int \<Rightarrow> u64" where
  "byte_of_int i = ucast (word_of_int i :: u8)"

definition pack_buckets :: "int \<Rightarrow> int \<Rightarrow> u32 \<Rightarrow> int \<Rightarrow> u64" where
  "pack_buckets q2g q2d d2c sz =
     byte_of_int q2g OR push_bit 8 (byte_of_int q2d) OR
     push_bit 16 (ucast (ucast d2c :: u8)) OR push_bit 24 (byte_of_int sz)"

definition complete_bio_latency ::
  "io_latency_config \<Rightarrow> iolat_kernel \<Rightarrow> bio_faults \<Rightarrow> u64 \<Rightarrow> request_completion \<Rightarrow> u64 \<Rightarrow>
     io_latency_state \<Rightarrow> io_latency_state" where
  "complete_bio_latency cfg K f bio c issued_bytes s =
     (let queue_ns = io_latency_bio_queue_ns K bio (rc_now c);
          (sz, s1) =
            (if issued_bytes \<noteq> 0
             then let b = io_size_bucket (ucast issued_bytes)
                  in (b, at_host (rc_host c) (rc_operation c)
                           (increment_io_size IO_SIZE_POINT_ISSUE (nat b)) s)
             else (- 1, s));
          d2c_bucket = word_of_int (rc_d2c_bucket c) :: u32;
          (d2c, s2) =
            (if d2c_bucket < of_nat IO_LATENCY_BUCKETS
             then (d2c_bucket, at_host (rc_host c) (rc_operation c)
                     (increment_latency IO_LATENCY_STAGE_D2C (unat d2c_bucket)) s1)
             else (255, s1));
          (q2g, s3) =
            (if queue_ns \<noteq> 0
             then account_io_latency (rc_host c) (rc_operation c) IO_LATENCY_STAGE_Q2G
                    queue_ns (rc_get_request_ns c) s2
             else (- 1, s2));
          (q2d, s4) =
            (if queue_ns \<noteq> 0
             then account_io_latency (rc_host c) (rc_operation c) IO_LATENCY_STAGE_Q2D
                    queue_ns (rc_issue_ns c) s3
             else (- 1, s3))
      in account_completed_container cfg K f bio (rc_disk c) (rc_operation c)
           (pack_buckets q2g q2d d2c sz) s4)"

text \<open>The loop of \<open>complete_bio_chunk\<close>: \<open>None\<close> is its result false, which ends the walk;
  \<open>Some\<close> the cursor left for the next chunk.\<close>

type_synonym bio_completion_cursor = "u64 \<times> u32"

fun complete_bio_loop ::
  "io_latency_config \<Rightarrow> iolat_kernel \<Rightarrow> (nat \<Rightarrow> bio_faults) \<Rightarrow> request_completion \<Rightarrow> nat \<Rightarrow> nat \<Rightarrow>
     bio_completion_cursor \<Rightarrow> io_latency_state \<Rightarrow> bio_completion_cursor option \<times> io_latency_state" where
  "complete_bio_loop cfg K F c 0 n (bio, remaining) s = (Some (bio, remaining), s)"
| "complete_bio_loop cfg K F c (Suc i) n (bio, remaining) s =
     (if bio = 0 then (Some (bio, remaining), s)
      else
        let bytes = core_read (bi_size K) bio
        in if remaining < bytes then (None, s)
           else
             let s1 = complete_bio_latency cfg K (F n) bio c 0 s; rest = remaining - bytes
             in if rest = 0 then (None, s1)
                else complete_bio_loop cfg K F c i (Suc n) (core_read (bi_next K) bio, rest) s1)"

definition complete_bio_chunk ::
  "io_latency_config \<Rightarrow> iolat_kernel \<Rightarrow> (nat \<Rightarrow> bio_faults) \<Rightarrow> nat \<Rightarrow> request_completion \<Rightarrow>
     bio_completion_cursor \<Rightarrow> nat \<Rightarrow> io_latency_state \<Rightarrow>
     bio_completion_cursor option \<times> io_latency_state" where
  "complete_bio_chunk cfg K F n c cursor limit s = complete_bio_loop cfg K F c limit n cursor s"

text \<open>The chunk loop with \<open>k\<close> chunks left.\<close>

fun complete_chunks ::
  "io_latency_config \<Rightarrow> iolat_kernel \<Rightarrow> (nat \<Rightarrow> bio_faults) \<Rightarrow> request_completion \<Rightarrow> nat \<Rightarrow> nat \<Rightarrow>
     bio_completion_cursor \<Rightarrow> io_latency_state \<Rightarrow> bio_completion_cursor option \<times> io_latency_state" where
  "complete_chunks cfg K F c 0 n cursor s = (Some cursor, s)"
| "complete_chunks cfg K F c (Suc k) n cursor s =
     (if fst cursor = 0 then (Some cursor, s)
      else
        let limit = (if k = 0
                     then IO_LATENCY_REQUEST_SCAN_BUDGET - 1 -
                          (IO_LATENCY_COMPLETION_CHUNK_COUNT - 1) * IO_LATENCY_REQUEST_CHUNK_BIOS
                     else IO_LATENCY_REQUEST_CHUNK_BIOS)
        in case complete_bio_chunk cfg K F n c cursor limit s of
             (None, s1) \<Rightarrow> (None, s1)
           | (Some cursor', s1) \<Rightarrow> complete_chunks cfg K F c k (n + limit) cursor' s1)"

definition header_snapshot :: "iolat_kernel \<Rightarrow> bool" where
  "header_snapshot K =
     (let size_offset = off_data_len K - off_cmd_flags K
      in off_bio K = off_cmd_flags K + 32 \<and> off_biotail K = off_bio K + 8 \<and>
         4 \<le> size_offset \<and> size_offset \<le> 32 - 4)"

text \<open>The one read of the request header, from \<^verbatim>\<open>cmd_flags\<close> to \<^verbatim>\<open>biotail\<close>.\<close>

definition request_header :: "iolat_kernel \<Rightarrow> u64 \<Rightarrow> (u32 \<times> u32) \<times> u64 \<times> u64" where
  "request_header K req =
     (case (cmd_flags K req, rq_data_len K req, rq_bio K req, rq_biotail K req) of
        (Some flags, Some len, Some bio, Some tail) \<Rightarrow> ((flags, len), bio, tail)
      | _ \<Rightarrow> ((0, 0), 0, 0))"

definition request_bios :: "iolat_kernel \<Rightarrow> u64 \<Rightarrow> u64 \<times> u64" where
  "request_bios K req =
     (if header_snapshot K then snd (request_header K req)
      else if off_biotail K = off_bio K + 8 then core_read2 (rq_bio K) (rq_biotail K) req
      else (core_read (rq_bio K) req, 0))"

definition request_times :: "iolat_kernel \<Rightarrow> u64 \<Rightarrow> u64 \<times> u64" where
  "request_times K req =
     (if off_io_start_time_ns K = off_start_time_ns K + 8
      then core_read2 (start_time_ns K) (io_start_time_ns K) req
      else (core_read (start_time_ns K) req, core_read (io_start_time_ns K) req))"

definition completed_operation :: "iolat_kernel \<Rightarrow> u64 \<Rightarrow> u32" where
  "completed_operation K req =
     (if header_snapshot K then fst (fst (request_header K req)) else core_read (cmd_flags K) req)
     AND REQ_OP_MASK"

definition request_bytes :: "iolat_kernel \<Rightarrow> u64 \<Rightarrow> u32" where
  "request_bytes K req =
     (if header_snapshot K then snd (fst (request_header K req)) else core_read (rq_data_len K) req)"

definition request_issued_bytes ::
  "iolat_kernel \<Rightarrow> u64 \<Rightarrow> iolatency_host_counters \<Rightarrow> u32 \<Rightarrow> u64 \<Rightarrow> u64" where
  "request_issued_bytes K req counters remaining issue_ns =
     (if request_bytes K req \<le> remaining \<and> issue_ns \<noteq> 0
      then
        if hc_scsi counters \<noteq> 0
        then
          if has_stats_sectors K then push_bit 9 (ucast (core_read (stats_sectors K) req))
          else push_bit 9 (ucast (core_read (aux_stats_sectors K) (req - ucast (aux_size K))))
        else ucast remaining
      else 0)"

text \<open>The completion context, read once for the request.\<close>

definition completion_of ::
  "iolat_kernel \<Rightarrow> u64 \<Rightarrow> u64 \<Rightarrow> iolatency_host_counters \<Rightarrow> u64 \<Rightarrow> request_completion" where
  "completion_of K req disk counters now =
     (let (get_ns, issue_ns) = request_times K req
      in \<lparr>rc_disk = push_bit 32 (ucast (hc_major counters)) OR ucast (hc_minor counters),
          rc_operation = ucast (completed_operation K req), rc_host = disk,
          rc_get_request_ns = get_ns, rc_issue_ns = issue_ns, rc_now = now,
          rc_d2c_bucket = io_latency_bucket issue_ns now 0\<rparr>)"

definition trace_request_complete ::
  "io_latency_config \<Rightarrow> iolat_kernel \<Rightarrow> (nat \<Rightarrow> bio_faults) \<Rightarrow> (nat \<Rightarrow> u64) \<Rightarrow> u64 \<Rightarrow>
     io_latency_state \<Rightarrow> io_latency_state" where
  "trace_request_complete cfg K F args now s =
     (let req = args 0; remaining = ucast (args 2) :: u32;
          operation = completed_operation K req; disk = io_latency_request_disk K req
      in if req = 0 \<or> remaining = 0 then s
         else if operation \<noteq> REQ_OP_READ \<and> operation \<noteq> REQ_OP_WRITE then s
         else if disk = 0 then s
         else case blkdisk_lat_map s disk of None \<Rightarrow> s
         | Some counters \<Rightarrow>
             let (bio, tail) = request_bios K req
             in if bio = 0 then s
                else
                  let c = completion_of K req disk counters now;
                      issued = request_issued_bytes K req counters remaining (rc_issue_ns c);
                      bytes = core_read (bi_size K) bio;
                      s1 = complete_bio_latency cfg K (F 0) bio c issued s
                  in if remaining = request_bytes K req \<and> bio = tail then s1
                     else if remaining < bytes then s
                     else if remaining - bytes = 0 then s1
                     else
                       case complete_chunks cfg K F c IO_LATENCY_COMPLETION_CHUNK_COUNT 1
                              (core_read (bi_next K) bio, remaining - bytes) s1 of
                         (None, s2) \<Rightarrow> s2
                       | (Some (next_bio, _), s2) \<Rightarrow>
                           if next_bio \<noteq> 0 then io_latency_fail IO_LATENCY_CHAIN_OVERFLOW 0 s2
                           else s2)"

section \<open>The crypto probe\<close>

text \<open>The loop over the initialised flags with \<open>n\<close> iterations left; \<open>mem\<close> is byte memory.\<close>

fun crypto_scan :: "(u64 \<Rightarrow> u8 option) \<Rightarrow> u64 \<Rightarrow> u32 \<Rightarrow> nat \<Rightarrow> nat \<Rightarrow> int \<Rightarrow> int" where
  "crypto_scan mem tfms modes 0 i completed = completed"
| "crypto_scan mem tfms modes (Suc n) i completed =
     (if modes \<le> of_nat i then completed
      else case mem (tfms + of_nat i) of
             None \<Rightarrow> - EFAULT
           | Some initialized \<Rightarrow>
               crypto_scan mem tfms modes n (Suc i)
                 (if initialized \<noteq> 0 then IO_LATENCY_CRYPTO_INITIALIZED else completed))"

definition probe_crypto_fallback ::
  "(u64 \<Rightarrow> u8 option) \<Rightarrow> u64 \<Rightarrow> u32 \<Rightarrow> int option \<Rightarrow> int option" where
  "probe_crypto_fallback mem tfms modes result =
     (case result of None \<Rightarrow> None
      | Some r \<Rightarrow>
          if r \<noteq> 0 then Some r
          else Some (crypto_scan mem tfms modes IO_LATENCY_CRYPTO_MODE_CAPACITY 0
                       IO_LATENCY_CRYPTO_UNUSED))"

section \<open>Firings\<close>

datatype io_latency_event =
    Queue_attr_show queue_kernel map_fault u64 u64
  | Bio_queue iolat_kernel bio_faults "nat \<Rightarrow> u64"
  | Bio_remap iolat_kernel bio_faults "nat \<Rightarrow> u64"
  | Rq_remap iolat_kernel "nat \<Rightarrow> bio_faults" "nat \<Rightarrow> u64"
  | Rq_complete iolat_kernel "nat \<Rightarrow> bio_faults" "nat \<Rightarrow> u64" u64
  | Css_free map_fault map_fault u64
  | Device_change device_event

fun io_latency_step :: "io_latency_config \<Rightarrow> io_latency_event \<Rightarrow> io_latency_state \<Rightarrow> io_latency_state" where
  "io_latency_step cfg (Queue_attr_show Q f kobj attr) s = probe_queue_stats Q f kobj attr s"
| "io_latency_step cfg (Bio_queue K f args) s = trace_bio_queue cfg K f args s"
| "io_latency_step cfg (Bio_remap K f args) s = trace_bio_remap cfg K f args s"
| "io_latency_step cfg (Rq_remap K F args) s = trace_request_remap cfg K F args s"
| "io_latency_step cfg (Rq_complete K F args now) s = trace_request_complete cfg K F args now s"
| "io_latency_step cfg (Css_free f1 f2 css) s = io_latency_css_released f1 f2 css s"
| "io_latency_step cfg (Device_change e) s = s\<lparr>io_status := io_control_device_hook e (io_status s)\<rparr>"

end
