(* ===== verification/Io_Latency_Facts.thy ===== *)
theory Io_Latency_Facts
  imports Io_Latency
begin

text \<open>
  Facts on \<open>Io_Latency\<close>: the branch-free histograms are the usual classification by bounds,
  the chunked walks over a request's bios are bounded walks of the plain chain, a container row
  receives the samples of its host row, and every run keeps the maps well formed and publishes
  only known failures.
\<close>

section \<open>Histograms\<close>

lemma drop_bit_top: "drop_bit 63 w = (of_bool (2 ^ 63 \<le> w) :: u64)"
proof (rule word_unat_eq_iff [THEN iffD2])
  have "unat w div 2 ^ 63 = (if 2 ^ 63 \<le> unat w then 1 else 0)"
    using unat_bound64 [of w] by auto
  then show "unat (drop_bit 63 w) = unat (of_bool (2 ^ 63 \<le> w) :: u64)"
    by (simp add: unat_drop_bit_div word_le_nat_alt)
qed

lemma histogram_above:
  assumes "t < 2 ^ 63"
  shows "io_histogram_above v t = of_nat (of_bool (t < v))"
proof -
  have top: "drop_bit 63 ((t - v) OR v) = (of_bool (t < v) :: u64)"
  proof -
    have "2 ^ 63 \<le> ((t - v) OR v) \<longleftrightarrow> 2 ^ 63 \<le> t - v \<or> 2 ^ 63 \<le> v"
    proof -
      have "drop_bit 63 ((t - v) OR v) = drop_bit 63 (t - v) OR drop_bit 63 v"
        by (simp only: drop_bit_or)
      then show ?thesis unfolding drop_bit_top by (auto simp: of_bool_def split: if_splits)
    qed
    also have "\<dots> \<longleftrightarrow> t < v"
      using assms unat_bound64 [of v]
      by (auto simp: word_le_nat_alt word_less_nat_alt unat_sub_if' split: if_splits)
    finally show ?thesis by (simp only: drop_bit_top)
  qed
  show ?thesis unfolding io_histogram_above_def top by (cases "t < v") simp_all
qed

text \<open>The upper bounds of all buckets but the last, and the bucket of a value.\<close>

definition latency_bounds :: "u64 list" where
  "latency_bounds = [50000, 100000, 250000, 500000, 1000000, 2000000, 4000000, 8000000, 16000000,
     32000000, 64000000, 128000000, 256000000, 512000000, 1000000000, 2000000000]"

definition size_bounds :: "u64 list" where
  "size_bounds = [4096, 16384, 65536, 262144, 1048576]"

definition bucket_of :: "u64 list \<Rightarrow> u64 \<Rightarrow> nat" where
  "bucket_of bounds v = length (filter (\<lambda>t. t < v) bounds)"

lemma sint_of_nat32: "n < 2 ^ 31 \<Longrightarrow> sint (of_nat n :: u32) = int n"
  by (simp add: signed_of_nat signed_take_bit_int_eq_self)

lemma bucket_of_Nil: "bucket_of [] v = 0"
  and bucket_of_Cons: "bucket_of (t # ts) v = of_bool (t < v) + bucket_of ts v"
  by (simp_all add: bucket_of_def)

lemma bucket_of_le: "bucket_of bounds v \<le> length bounds"
  by (simp add: bucket_of_def)

lemma bucket_of_first:
  assumes "v \<le> b" and "\<And>t. t \<in> set bounds \<Longrightarrow> b \<le> t"
  shows "bucket_of bounds v = 0"
proof -
  have "\<not> t < v" if "t \<in> set bounds" for t
    using assms(1) assms(2) [OF that] by (meson le_less_trans not_le order_trans)
  then show ?thesis by (simp add: bucket_of_def filter_empty_conv)
qed

lemma above_latency: "t \<in> set latency_bounds \<Longrightarrow> io_histogram_above v t = of_nat (of_bool (t < v))"
  by (rule histogram_above) (auto simp: latency_bounds_def)

lemma above_size: "t \<in> set size_bounds \<Longrightarrow> io_histogram_above v t = of_nat (of_bool (t < v))"
  by (rule histogram_above) (auto simp: size_bounds_def)

lemma above_sum:
  "(\<And>t. t \<in> set ts \<Longrightarrow> io_histogram_above v t = of_nat (of_bool (t < v))) \<Longrightarrow>
   sum_list (map (io_histogram_above v) ts) = of_nat (bucket_of ts v)"
  by (induction ts) (simp_all add: bucket_of_Nil bucket_of_Cons del: of_nat_of_bool)

lemma size_bucket_sum:
  assumes "\<not> ucast b \<le> (4096 :: u64)"
  shows "io_size_bucket b = sint (sum_list (map (io_histogram_above (ucast b)) size_bounds))"
proof -
  have "sum_list (map (io_histogram_above (ucast b)) size_bounds) =
     io_histogram_above (ucast b) (4 * 1024) + io_histogram_above (ucast b) (16 * 1024)
     + io_histogram_above (ucast b) (64 * 1024) + io_histogram_above (ucast b) (256 * 1024)
     + io_histogram_above (ucast b) (1024 * 1024)"
    unfolding size_bounds_def
    by (simp only: list.map sum_list.Cons sum_list.Nil add.assoc add_0_right arith_simps)
  then show ?thesis using assms unfolding io_size_bucket_def Let_def by (simp only: arith_simps if_False)
qed

lemma size_bucket_eq: "io_size_bucket b = int (bucket_of size_bounds (ucast b))"
proof (cases "(ucast b :: u64) \<le> 4096")
  case True
  then have "bucket_of size_bounds (ucast b) = 0"
    by (rule bucket_of_first) (auto simp: size_bounds_def)
  then show ?thesis using True unfolding io_size_bucket_def Let_def
    by (simp only: arith_simps if_True of_nat_0)
next
  case False
  have "bucket_of size_bounds (ucast b) < 2 ^ 31"
    using bucket_of_le [of size_bounds "ucast b"] by (simp add: size_bounds_def)
  then show ?thesis
    by (simp only: size_bucket_sum [OF False] above_sum [OF above_size] sint_of_nat32)
qed

lemma latency_bucket_sum:
  assumes "a \<noteq> 0" "b \<noteq> 0" "\<not> b < a" and v: "\<not> b - a \<le> 50000"
  shows "io_latency_bucket a b q = sint (sum_list (map (io_histogram_above (b - a)) latency_bounds))"
proof -
  have "io_histogram_above (b - a) 50000 = 1"
    using v above_latency [of 50000 "b - a"] by (simp add: latency_bounds_def not_le)
  then have "sum_list (map (io_histogram_above (b - a)) latency_bounds) =
     1 + io_histogram_above (b - a) (100 * 1000) + io_histogram_above (b - a) (250 * 1000)
     + io_histogram_above (b - a) (500 * 1000) + io_histogram_above (b - a) 1000000
     + io_histogram_above (b - a) (2 * 1000000) + io_histogram_above (b - a) (4 * 1000000)
     + io_histogram_above (b - a) (8 * 1000000) + io_histogram_above (b - a) (16 * 1000000)
     + io_histogram_above (b - a) (32 * 1000000) + io_histogram_above (b - a) (64 * 1000000)
     + io_histogram_above (b - a) (128 * 1000000) + io_histogram_above (b - a) (256 * 1000000)
     + io_histogram_above (b - a) (512 * 1000000) + io_histogram_above (b - a) 1000000000
     + io_histogram_above (b - a) (2 * 1000000000)"
    unfolding latency_bounds_def
    by (simp only: list.map sum_list.Cons sum_list.Nil add.assoc add_0_right arith_simps)
  then show ?thesis using assms unfolding io_latency_bucket_def Let_def
    by (simp only: arith_simps if_False simp_thms)
qed

lemma latency_bucket_eq:
  "io_latency_bucket a b q =
     (if a = 0 \<or> b = 0 then - 1 else if b < a then (if q \<noteq> 0 then 0 else - 1)
      else int (bucket_of latency_bounds (b - a)))"
proof (cases "a = 0 \<or> b = 0 \<or> b < a")
  case True
  then show ?thesis unfolding io_latency_bucket_def by auto
next
  case ok: False
  show ?thesis
  proof (cases "b - a \<le> 50000")
    case True
    have "bucket_of latency_bounds (b - a) = 0"
      using True by (rule bucket_of_first) (auto simp: latency_bounds_def)
    then show ?thesis using ok True unfolding io_latency_bucket_def Let_def
      by (simp only: arith_simps if_True if_False of_nat_0 simp_thms de_Morgan_disj)
  next
    case False
    have "bucket_of latency_bounds (b - a) < 2 ^ 31"
      using bucket_of_le [of latency_bounds "b - a"] by (simp add: latency_bounds_def)
    then have "io_latency_bucket a b q = int (bucket_of latency_bounds (b - a))"
      using ok False by (simp only: latency_bucket_sum above_sum [OF above_latency] sint_of_nat32 de_Morgan_disj simp_thms)
    then show ?thesis using ok by simp
  qed
qed

lemma latency_bucket_range: "- 1 \<le> io_latency_bucket a b q" "io_latency_bucket a b q \<le> 16"
  using bucket_of_le [of latency_bounds "b - a"] by (auto simp: latency_bucket_eq latency_bounds_def)

lemma size_bucket_range: "0 \<le> io_size_bucket b" "io_size_bucket b \<le> 5"
  using bucket_of_le [of size_bounds "ucast b"] by (auto simp: size_bucket_eq size_bounds_def)

section \<open>Samples\<close>

definition sample :: "(nat \<Rightarrow> iolatency_counters \<Rightarrow> iolatency_counters) \<Rightarrow> int \<Rightarrow> iolatency_counters \<Rightarrow> iolatency_counters" where
  "sample inc b c = (if 0 \<le> b then inc (nat b) c else c)"

definition samples :: "int \<Rightarrow> int \<Rightarrow> int \<Rightarrow> int \<Rightarrow> iolatency_counters \<Rightarrow> iolatency_counters" where
  "samples q2g q2d d2c sz c =
     sample (increment_io_size IO_SIZE_POINT_ISSUE) sz (sample (increment_latency IO_LATENCY_STAGE_D2C) d2c
       (sample (increment_latency IO_LATENCY_STAGE_Q2D) q2d (sample (increment_latency IO_LATENCY_STAGE_Q2G) q2g c)))"

lemma samples_order:
  "sample (increment_latency IO_LATENCY_STAGE_Q2D) q2d (sample (increment_latency IO_LATENCY_STAGE_Q2G) q2g
     (sample (increment_latency IO_LATENCY_STAGE_D2C) d2c (sample (increment_io_size IO_SIZE_POINT_ISSUE) sz c))) =
   samples q2g q2d d2c sz c"
  by (cases c) (simp add: samples_def sample_def increment_latency_def increment_io_size_def bump_def fun_upd_twist)

lemma at_host_twice: "at_host d op g (at_host d op h s) = at_host d op (\<lambda>c. g (h c)) s"
  by (auto simp: at_host_def split: option.splits)

lemma at_row_twice: "at_row k g (at_row k h s) = at_row k (\<lambda>c. g (h c)) s"
  by (cases "blkcg_lat_map s k") (simp_all add: at_row_def)

lemma at_row_id: "at_row k (\<lambda>c. c) s = s"
  by (cases s) (simp add: at_row_def option.map_ident)

lemma at_host_id: "at_host d op (\<lambda>c. c) s = s"
  by (cases s) (simp add: at_host_def fun_upd_idem split: option.splits)

text \<open>The packed byte fields.\<close>

lemma word_small_range:
  assumes "- 1 \<le> i" "i \<le> 16"
  obtains "i = - 1" | n where "i = int n" "n \<le> 16"
proof (cases "i = - 1")
  case False
  then have "i = int (nat i)" "nat i \<le> 16" using assms by auto
  then show ?thesis by (rule that(2))
qed (rule that(1))

lemma unat_byte_of_int: "n < 256 \<Longrightarrow> unat (byte_of_int (int n)) = n"
  by (simp add: byte_of_int_def unsigned_ucast_eq unsigned_of_nat take_bit_nat_eq_self)

lemma mask8: "(255 :: u64) = mask 8" by (simp add: mask_eq_exp_minus_1)

lemma byte_of_int_minus: "byte_of_int (- 1) = 255"
  unfolding byte_of_int_def mask8 by (simp add: unsigned_minus_1_eq_mask)

lemma byte_of_int_small:
  assumes "- 1 \<le> i" "i \<le> 16"
  shows "(byte_of_int i < 17 \<longleftrightarrow> 0 \<le> i) \<and> (byte_of_int i < 6 \<longleftrightarrow> 0 \<le> i \<and> i < 6) \<and>
    (0 \<le> i \<longrightarrow> unat (byte_of_int i) = nat i) \<and> (byte_of_int i = 255 \<longleftrightarrow> i = - 1)"
  using assms
proof (cases rule: word_small_range)
  case 1
  then show ?thesis by (simp only: byte_of_int_minus) simp
next
  case (2 n)
  then have u: "unat (byte_of_int (int n)) = n" by (simp add: unat_byte_of_int)
  have "byte_of_int (int n) \<noteq> 255"
  proof
    assume "byte_of_int (int n) = 255"
    with u have "unat (255 :: u64) = n" by simp
    with 2(2) show False by simp
  qed
  then show ?thesis using 2 unfolding word_less_nat_alt 2(1) u by simp
qed

lemma bytes_unpack:
  fixes a b d z :: u8
  defines "p \<equiv> ucast a OR push_bit 8 (ucast b) OR push_bit 16 (ucast d) OR push_bit 24 (ucast z) :: u64"
  shows "p AND 255 = ucast a" "drop_bit 8 p AND 255 = ucast b"
    "drop_bit 16 p AND 255 = ucast d" "drop_bit 24 p AND 255 = ucast z"
  unfolding p_def mask8
  by (rule bit_eqI, auto simp: bit_simps dest: bit_imp_le_length)+

lemma bytes_full:
  fixes a b d z :: u8
  assumes "ucast a OR push_bit 8 (ucast b) OR push_bit 16 (ucast d) OR push_bit 24 (ucast z) = (0xffffffff :: u64)"
  shows "ucast a = (255 :: u64)" "ucast b = (255 :: u64)" "ucast d = (255 :: u64)" "ucast z = (255 :: u64)"
  using bytes_unpack [of a b d z] unfolding assms by simp_all

section \<open>Walks\<close>

text \<open>The first \<open>n\<close> bios of a chain, and what follows them.\<close>

fun bio_chain :: "'a blk_kernel_scheme \<Rightarrow> nat \<Rightarrow> u64 \<Rightarrow> u64 list" where
  "bio_chain K 0 bio = []"
| "bio_chain K (Suc n) bio = (if bio = 0 then [] else bio # bio_chain K n (core_read (bi_next K) bio))"

fun chain_after :: "'a blk_kernel_scheme \<Rightarrow> nat \<Rightarrow> u64 \<Rightarrow> u64" where
  "chain_after K 0 bio = bio"
| "chain_after K (Suc n) bio = (if bio = 0 then 0 else chain_after K n (core_read (bi_next K) bio))"

lemma bio_chain_0 [simp]: "bio_chain K n 0 = []" by (cases n) simp_all
lemma chain_after_0 [simp]: "chain_after K n 0 = 0" by (cases n) simp_all
lemma length_bio_chain: "length (bio_chain K n bio) \<le> n"
  by (induction n arbitrary: bio) simp_all

lemma chain_after_iff: "chain_after K n bio \<noteq> 0 \<longleftrightarrow> n < length (bio_chain K (Suc n) bio)"
  by (induction n arbitrary: bio) simp_all

lemma queue_remapped_loop_fold:
  "queue_remapped_loop cfg K F disk operation i n bio s =
     (chain_after K i bio,
      fold (\<lambda>(j, b). queue_bio_latency cfg K (F j) b disk operation) (enumerate n (bio_chain K i bio)) s)"
  by (induction i arbitrary: n bio s) simp_all

lemma queue_remapped_loop_null [simp]:
  "queue_remapped_loop cfg K F disk operation i n 0 s = (0, s)"
  by (cases i) simp_all

lemma queue_remapped_loop_add:
  "queue_remapped_loop cfg K F disk operation (i + k) n bio s =
     (let (bio', s') = queue_remapped_loop cfg K F disk operation i n bio s
      in queue_remapped_loop cfg K F disk operation k (n + i) bio' s')"
proof (induction i arbitrary: n bio s)
  case (Suc i)
  show ?case by (simp add: Suc.IH Let_def split: prod.split)
qed simp

lemma queue_remapped_chunks_loop:
  "queue_remapped_chunks cfg K F disk operation i n bio s =
     queue_remapped_loop cfg K F disk operation (32 * i) n bio s"
proof (induction i arbitrary: n bio s)
  case (Suc i)
  have "32 * Suc i = 32 + 32 * i" by simp
  then show ?case
    by (simp only: queue_remapped_loop_add queue_remapped_chunks.simps queue_remapped_bios_def Suc.IH
        queue_remapped_loop_null Let_def split: prod.split if_split) simp
qed simp

text \<open>C12. The remap probe counts exactly the first 512 bios of the request, in chain order,
  whatever the chain: its walk in chunks of 32 is the plain bounded walk, it always ends, also
  on a cyclic chain, and the overflow failure is published if and only if a 513th bio exists.\<close>

theorem remap_walk:
  "trace_request_remap cfg K F args s =
     (let req = io_latency_pointer_argument args (block_rq_remap_request_arg cfg);
          disk = io_latency_request_disk K req;
          operation = core_read (cmd_flags K) req AND REQ_OP_MASK;
          bio = core_read (rq_bio K) req
      in if req \<noteq> 0 \<and> blkdisk_lat_map s disk \<noteq> None \<and> operation \<in> {REQ_OP_READ, REQ_OP_WRITE} \<and>
            core_read (rq_data_len K) req \<noteq> 0
         then (if 512 < length (bio_chain K 513 bio) then io_latency_fail IO_LATENCY_CHAIN_OVERFLOW 0 else id)
                (fold (\<lambda>(i, b). queue_bio_latency cfg K (F i) b disk (ucast operation))
                   (enumerate 0 (bio_chain K 512 bio)) s)
         else s)"
proof -
  have "chain_after K 512 bio \<noteq> 0 \<longleftrightarrow> 512 < length (bio_chain K 513 bio)" for bio
    using chain_after_iff [of K 512 bio] by (simp only: numeral_eq_Suc pred_numeral_simps)
  then show ?thesis
    unfolding trace_request_remap_def Let_def queue_remapped_chunks_loop queue_remapped_loop_fold
    by simp
qed

text \<open>The bios of a list that a completion of some bytes finishes entirely, and their bytes.\<close>

fun whole_bios :: "'a blk_kernel_scheme \<Rightarrow> u32 \<Rightarrow> u64 list \<Rightarrow> u64 list" where
  "whole_bios K remaining [] = []"
| "whole_bios K remaining (b # bs) =
     (let bytes = core_read (bi_size K) b
      in if remaining < bytes then [] else if remaining - bytes = 0 then [b]
         else b # whole_bios K (remaining - bytes) bs)"

definition bio_bytes :: "'a blk_kernel_scheme \<Rightarrow> u64 list \<Rightarrow> nat" where
  "bio_bytes K bs = (\<Sum>b \<leftarrow> bs. unat (core_read (bi_size K) b))"

lemma complete_bio_loop_null [simp]: "complete_bio_loop cfg K F c i n (0, r) s = (Some (0, r), s)"
  by (cases i) simp_all

lemma complete_bio_loop_add:
  "complete_bio_loop cfg K F c (i + k) n cur s =
     (case complete_bio_loop cfg K F c i n cur s of
        (None, s') \<Rightarrow> (None, s')
      | (Some cur', s') \<Rightarrow> complete_bio_loop cfg K F c k (n + i) cur' s')"
proof (induction i arbitrary: n cur s)
  case 0
  then show ?case by (cases cur) simp
next
  case (Suc i)
  show ?case by (cases cur) (simp add: Suc.IH Let_def split: prod.split option.split)
qed

lemma complete_chunks_loop:
  "complete_chunks cfg K F c (Suc k) n cur s = complete_bio_loop cfg K F c (32 * Suc k - 1) n cur s"
proof (induction k arbitrary: n cur s)
  case 0
  show ?case by (cases cur) (simp add: complete_bio_chunk_def split: prod.splits option.splits)
next
  case (Suc k)
  have e: "32 * Suc (Suc k) - 1 = 32 + (32 * Suc k - 1)" by simp
  show ?case
    unfolding e complete_bio_loop_add
    by (subst complete_chunks.simps, cases cur)
      (simp add: complete_bio_chunk_def Suc.IH del: complete_chunks.simps split: prod.split option.split)
qed


lemma bio_bytes_simps [simp]:
  "bio_bytes K [] = 0"
  "bio_bytes K (b # bs) = unat (core_read (bi_size K) b) + bio_bytes K bs"
  by (simp_all add: bio_bytes_def)

lemma remaining_sub:
  fixes r b :: u32
  assumes "\<not> r < b" and "r - b \<noteq> 0"
  shows "unat b + n < unat r \<longleftrightarrow> n < unat (r - b)"
  using assms by (auto simp: unat_sub word_less_nat_alt word_le_nat_alt)

lemma complete_bio_loop_result:
  "r \<noteq> 0 \<Longrightarrow>
   snd (complete_bio_loop cfg K F c i n (bio, r) s) =
     fold (\<lambda>(j, b). complete_bio_latency cfg K (F j) b c 0)
       (enumerate n (whole_bios K r (bio_chain K i bio))) s \<and>
   map_option fst (fst (complete_bio_loop cfg K F c i n (bio, r) s)) =
     (if bio_bytes K (bio_chain K i bio) < unat r then Some (chain_after K i bio) else None)"
proof (induction i arbitrary: n bio r s)
  case 0
  then show ?case by (simp add: unat_gt_0)
next
  case (Suc i)
  consider "bio = 0" | "bio \<noteq> 0" "r < core_read (bi_size K) bio"
    | "bio \<noteq> 0" "\<not> r < core_read (bi_size K) bio" "r - core_read (bi_size K) bio = 0"
    | "bio \<noteq> 0" "\<not> r < core_read (bi_size K) bio" "r - core_read (bi_size K) bio \<noteq> 0"
    by blast
  then show ?case
  proof cases
    case 1
    then show ?thesis using Suc.prems by (simp add: unat_gt_0)
  next
    case 2
    then show ?thesis by (simp add: word_less_nat_alt)
  next
    case 3
    then show ?thesis by simp
  next
    case 4
    then show ?thesis
      using Suc.IH [OF 4(3)] remaining_sub [OF 4(2,3)] by (simp add: Let_def)
  qed
qed

lemma fold_enumerate_later:
  "1 \<le> n \<Longrightarrow> fold (\<lambda>(j, b). g j b (if j = 0 then x else y)) (enumerate n bs) s =
     fold (\<lambda>(j, b). g j b y) (enumerate n bs) s"
  by (rule fold_cong) (auto simp: in_set_enumerate_eq)

lemma chain_head:
  assumes "bio \<noteq> 0"
  shows "bio_chain K 512 bio = bio # bio_chain K 511 (core_read (bi_next K) bio)"
    and "512 < length (bio_chain K 513 bio) \<longleftrightarrow> chain_after K 511 (core_read (bi_next K) bio) \<noteq> 0"
  using assms bio_chain.simps(2) [of K 511 bio] chain_after_iff [of K 512 bio] chain_after.simps(2) [of K 511 bio]
  by (simp_all del: bio_chain.simps chain_after.simps)

text \<open>The first bio owns the issued size; the loop continues with the second.\<close>

lemma walk_from_second:
  assumes "\<not> r < core_read (bi_size K) bio" and "r - core_read (bi_size K) bio \<noteq> 0"
  shows "fold (\<lambda>(i, b). complete_bio_latency cfg K (F i) b c (if i = 0 then issued else 0))
       (enumerate 0 (whole_bios K r (bio # bio_chain K i bio'))) s =
     snd (complete_bio_loop cfg K F c i 1 (bio', r - core_read (bi_size K) bio)
       (complete_bio_latency cfg K (F 0) bio c issued s))"
  using assms complete_bio_loop_result [OF assms(2), of cfg K F c i 1 bio' "complete_bio_latency cfg K (F 0) bio c issued s"]
    fold_enumerate_later [of 1 "\<lambda>j b. complete_bio_latency cfg K (F j) b c" issued 0
      "whole_bios K (r - core_read (bi_size K) bio) (bio_chain K i bio')" "complete_bio_latency cfg K (F 0) bio c issued s"]
  by simp

text \<open>C8. A data completion accounts exactly the bios it finishes: the longest run of whole bios
  from the head of the request that fits in the completed bytes, at most 512 of them, each once
  and in order, the first one owning the issued size. Bytes that reach past 512 bios are
  reported as an overflow, and nothing else is. The read of a single-bio request that skips the bio's size relies on the size
  of that bio being the request's.\<close>

theorem completion_walk:
  assumes row: "blkdisk_lat_map s disk = Some counters"
    and req: "args 0 = req" "req \<noteq> 0" and bytes: "ucast (args 2) = remaining" "remaining \<noteq> 0"
    and op: "completed_operation K req \<in> {REQ_OP_READ, REQ_OP_WRITE}"
    and disk: "io_latency_request_disk K req = disk" "disk \<noteq> 0"
    and bios: "request_bios K req = (bio, tail)" "bio \<noteq> 0"
    and single: "remaining = request_bytes K req \<Longrightarrow> bio = tail \<Longrightarrow> core_read (bi_size K) bio = remaining"
  shows "trace_request_complete cfg K F args now s =
     (let c = completion_of K req disk counters now;
          issued = request_issued_bytes K req counters remaining (rc_issue_ns c)
      in (if bio_bytes K (bio_chain K 512 bio) < unat remaining \<and> 512 < length (bio_chain K 513 bio)
          then io_latency_fail IO_LATENCY_CHAIN_OVERFLOW 0 else id)
           (fold (\<lambda>(i, b). complete_bio_latency cfg K (F i) b c (if i = 0 then issued else 0))
              (enumerate 0 (whole_bios K remaining (bio_chain K 512 bio))) s))"
proof -
  let ?c = "completion_of K req disk counters now"
  let ?issued = "request_issued_bytes K req counters remaining (rc_issue_ns ?c)"
  let ?size = "core_read (bi_size K) bio" and ?next = "core_read (bi_next K) bio"
  let ?s1 = "complete_bio_latency cfg K (F 0) bio ?c ?issued s"
  let ?g = "\<lambda>(i, b). complete_bio_latency cfg K (F i) b ?c (if i = 0 then ?issued else 0)"
  note chain = chain_head(1) [OF bios(2), of K] and more = chain_head(2) [OF bios(2), of K]
  note start = trace_request_complete_def row req bytes op disk bios Let_def
  consider "remaining = ?size" | "remaining < ?size"
    | "\<not> remaining < ?size" "remaining - ?size \<noteq> 0" by force
  then show ?thesis
  proof cases
    case 1
    then show ?thesis using op bytes(2) by (auto simp: start chain)
  next
    case 2
    then have "\<not> (remaining = request_bytes K req \<and> bio = tail)" using single by auto
    with 2 show ?thesis using op bytes(2) by (auto simp: start chain word_less_nat_alt)
  next
    case 3
    then have "\<not> (remaining = request_bytes K req \<and> bio = tail)" using single by auto
    then have run: "trace_request_complete cfg K F args now s =
        (case complete_bio_loop cfg K F ?c 511 1 (?next, remaining - ?size) ?s1 of
           (None, s2) \<Rightarrow> s2
         | (Some (next_bio, _), s2) \<Rightarrow>
             if next_bio \<noteq> 0 then io_latency_fail IO_LATENCY_CHAIN_OVERFLOW 0 s2 else s2)"
      using 3 op bytes(2) complete_chunks_loop [of cfg K F ?c 15 1] by (auto simp: start)
    note walk = complete_bio_loop_result [OF 3(2), where cfg = cfg and K = K and F = F and c = ?c
        and i = 511 and n = 1 and bio = ?next and s = ?s1]
    have "fold ?g (enumerate 0 (whole_bios K remaining (bio_chain K 512 bio))) s =
        snd (complete_bio_loop cfg K F ?c 511 1 (?next, remaining - ?size) ?s1)"
      unfolding chain by (rule walk_from_second [OF 3])
    moreover have "bio_bytes K (bio_chain K 512 bio) < unat remaining \<longleftrightarrow>
        bio_bytes K (bio_chain K 511 ?next) < unat (remaining - ?size)"
      using remaining_sub [OF 3] by (simp add: chain)
    moreover obtain left s2 where
        "complete_bio_loop cfg K F ?c 511 1 (?next, remaining - ?size) ?s1 = (left, s2)" by fastforce
    ultimately show ?thesis
      using walk unfolding run more by (cases left) (auto simp: Let_def split: if_splits)
  qed
qed

section \<open>Effects\<close>

text \<open>The failure words that the object can publish: a chain overflow, and the two group
  failures with the errno of a full map or of a failed allocation.\<close>

definition io_latency_words :: "u64 set" where
  "io_latency_words = {pack_failure IO_LATENCY_CHAIN_OVERFLOW 0,
     pack_failure IO_LATENCY_GROUP_INSERT_FAILED (- E2BIG), pack_failure IO_LATENCY_GROUP_INSERT_FAILED (- ENOMEM),
     pack_failure IO_LATENCY_GROUP_RELEASE_FAILED (- E2BIG), pack_failure IO_LATENCY_GROUP_RELEASE_FAILED (- ENOMEM)}"

definition publishes :: "io_control_status option \<Rightarrow> io_control_status option \<Rightarrow> bool" where
  "publishes st st' \<longleftrightarrow> st' = st \<or>
     (\<exists>x w. st = Some x \<and> w \<in> io_latency_words \<and> st' = Some (x\<lparr>failure := w\<rparr>))"

definition learns :: "(u64 \<rightharpoonup> io_latency_group_state) \<Rightarrow> (u64 \<rightharpoonup> io_latency_group_state) \<Rightarrow> bool" where
  "learns g g' \<longleftrightarrow> g' = g \<or> (\<exists>css v. g css = None \<and> gs_serial v \<noteq> 0 \<and> g' = g(css \<mapsto> v))"

lemma learns_refl [simp]: "learns g g" by (simp add: learns_def)

lemma learns_new: "g css = None \<Longrightarrow> gs_serial v \<noteq> 0 \<Longrightarrow> learns g (g(css \<mapsto> v))"
  unfolding learns_def by blast

lemma publishes_refl [simp]: "publishes st st" by (simp add: publishes_def)

lemma publishes_trans [trans]: "publishes a b \<Longrightarrow> publishes b c \<Longrightarrow> publishes a c"
  unfolding publishes_def by (elim disjE exE conjE) (simp, blast, blast, force)

lemma publish_word:
  "error = - EBUSY \<or> pack_failure reason error \<in> io_latency_words \<Longrightarrow>
   publishes st (io_latency_publish reason error st)"
  by (cases st) (auto simp: publishes_def io_latency_publish_def)

lemma update_errors:
  "fst (bpf_map_update_elem f BPF_NOEXIST k v m) \<in> {0, - EBUSY, - EEXIST, - ENOMEM, - E2BIG}"
  by (auto simp: bpf_map_update_elem_def)

lemma delete_errors: "fst (bpf_map_delete_elem f k m) \<in> {0, - EBUSY, - ENOENT}"
  by (auto simp: bpf_map_delete_elem_def)

definition row_or_zero :: "io_latency_state \<Rightarrow> iolatency_container_key \<Rightarrow> iolatency_counters" where
  "row_or_zero s key = (case blkcg_lat_map s key of None \<Rightarrow> zero_latency_counters | Some c \<Rightarrow> c)"

lemma css_serial_effect:
  assumes "io_latency_css_serial K f css s = (serial, s1)"
  shows "\<exists>g st. s1 = s\<lparr>io_latency_group_map := g, io_status := st\<rparr> \<and> learns (io_latency_group_map s) g \<and>
           publishes (io_status s) st \<and> (serial \<noteq> 0 \<longrightarrow> g css = Some \<lparr>gs_serial = serial\<rparr>)"
proof (cases "io_latency_group_map s css")
  case (Some gr)
  then show ?thesis using assms
    by (intro exI [of _ "io_latency_group_map s"] exI [of _ "io_status s"])
       (auto simp: io_latency_css_serial_def learns_def)
next
  case None
  let ?v = "\<lparr>gs_serial = core_read (css_serial_nr K) css\<rparr>"
  obtain ret m where u: "bpf_map_update_elem f BPF_NOEXIST css ?v (io_latency_group_map s) = (ret, m)"
    by fastforce
  have m: "m = io_latency_group_map s \<and> ret \<noteq> 0 \<or> m = (io_latency_group_map s)(css \<mapsto> ?v) \<and> ret = 0"
    by (rule bmap.update_cases [of f BPF_NOEXIST css ?v "io_latency_group_map s"]) (auto simp: u)
  have ret: "ret \<in> {0, - EBUSY, - EEXIST, - ENOMEM, - E2BIG}"
    using update_errors [of f css ?v "io_latency_group_map s"] by (simp add: u)
  let ?st = "if ret \<noteq> 0 \<and> ret \<noteq> - EEXIST \<and> gs_serial ?v \<noteq> 0
             then io_latency_publish IO_LATENCY_GROUP_INSERT_FAILED ret (io_status s) else io_status s"
  have "publishes (io_status s) ?st"
    using ret by (auto intro: publish_word simp: io_latency_words_def)
  moreover have "s1 = s\<lparr>io_latency_group_map := (if gs_serial ?v = 0 then io_latency_group_map s else m), io_status := ?st\<rparr>"
    using assms None u by (auto simp: io_latency_css_serial_def io_latency_fail_def Let_def split: if_splits)
  moreover have "serial \<noteq> 0 \<longrightarrow> gs_serial ?v \<noteq> 0 \<and> m css = Some \<lparr>gs_serial = serial\<rparr>"
    using assms None u m by (auto simp: io_latency_css_serial_def Let_def split: if_splits option.splits)
  moreover have "learns (io_latency_group_map s) (if gs_serial ?v = 0 then io_latency_group_map s else m)"
    using m None learns_new [of "io_latency_group_map s" css ?v] by auto
  ultimately show ?thesis
    by (intro exI [of _ "if gs_serial ?v = 0 then io_latency_group_map s else m"] exI [of _ ?st]) simp
qed

text \<open>The container part of accounting one bio, shared by queueing and completion.\<close>

definition credit_container ::
  "io_latency_config \<Rightarrow> 'a blk_kernel_scheme \<Rightarrow> bio_faults \<Rightarrow> u64 \<Rightarrow> iolatency_container_key \<Rightarrow>
     (iolatency_counters \<Rightarrow> iolatency_counters) \<Rightarrow> io_latency_state \<Rightarrow> io_latency_state" where
  "credit_container cfg K f bio key g s =
     (let (series, s1) = io_latency_bio_identity cfg K (fst f) bio key s
      in case lookup_container_counters (snd f) series s1 of
           (None, s2) \<Rightarrow> s2
         | (Some row, s2) \<Rightarrow> at_row row g s2)"

definition credited ::
  "u64 \<Rightarrow> iolatency_container_key \<Rightarrow> (iolatency_counters \<Rightarrow> iolatency_counters) \<Rightarrow>
     io_latency_state \<Rightarrow> io_latency_state \<Rightarrow> bool" where
  "credited css key g s s' \<longleftrightarrow> blkcg_lat_map s' = blkcg_lat_map s \<or>
     (\<exists>serial. css \<noteq> 0 \<and> serial \<noteq> 0 \<and> io_latency_group_map s' css = Some \<lparr>gs_serial = serial\<rparr> \<and>
        (let row = key\<lparr>ck_blkcg := css, ck_serial := serial\<rparr>
         in blkcg_lat_map s' = (blkcg_lat_map s)(row \<mapsto> g (row_or_zero s row))))"

definition container_effect :: "io_latency_state \<Rightarrow> io_latency_state \<Rightarrow> bool" where
  "container_effect s s' \<longleftrightarrow> learns (io_latency_group_map s) (io_latency_group_map s') \<and>
     publishes (io_status s) (io_status s') \<and> blkdisk_lat_map s' = blkdisk_lat_map s \<and>
     io_latency_probe_result s' = io_latency_probe_result s"

lemma lookup_container_effect:
  assumes "lookup_container_counters f series s = (row, s2)" and "ck_kind series = 0"
  shows "row = None \<and> s2 = s \<or>
    row = Some series \<and> ck_blkcg series \<noteq> 0 \<and> ck_serial series \<noteq> 0 \<and>
      s2 = s\<lparr>blkcg_lat_map := (blkcg_lat_map s)(series \<mapsto> row_or_zero s series)\<rparr>"
proof -
  have key: "\<lparr>ck_blkcg = ck_blkcg series, ck_serial = ck_serial series, ck_major = ck_major series,
      ck_minor = ck_minor series, ck_operation = ck_operation series, ck_kind = 0\<rparr> = series"
    using assms(2) by (cases series) simp
  consider (zero) "ck_blkcg series = 0 \<or> ck_serial series = 0"
    | (old) c where "ck_blkcg series \<noteq> 0" "ck_serial series \<noteq> 0" "blkcg_lat_map s series = Some c"
    | (new) "ck_blkcg series \<noteq> 0" "ck_serial series \<noteq> 0" "blkcg_lat_map s series = None" by fastforce
  then show ?thesis
  proof cases
    case zero
    then show ?thesis using assms(1) by (auto simp: lookup_container_counters_def)
  next
    case old
    then show ?thesis using assms(1)
      by (auto simp: lookup_container_counters_def key row_or_zero_def map_upd_triv)
  next
    case new
    show ?thesis
      by (rule bmap.update_cases [of f BPF_NOEXIST series zero_latency_counters "blkcg_lat_map s"])
        (use assms(1) new in \<open>auto simp: lookup_container_counters_def key row_or_zero_def Let_def split: if_splits\<close>)
  qed
qed

lemma bio_identity_effect:
  assumes "io_latency_bio_identity cfg K f bio key s = (series, s1)" and "ck_blkcg key = 0"
  shows "\<exists>g st. s1 = s\<lparr>io_latency_group_map := g, io_status := st\<rparr> \<and> learns (io_latency_group_map s) g \<and>
      publishes (io_status s) st \<and>
      (series = key \<or>
       (\<exists>serial. serial \<noteq> 0 \<and> io_latency_bio_css cfg K bio \<noteq> 0 \<and>
          series = key\<lparr>ck_blkcg := io_latency_bio_css cfg K bio, ck_serial := serial\<rparr> \<and>
          g (io_latency_bio_css cfg K bio) = Some \<lparr>gs_serial = serial\<rparr>))"
proof (cases "io_latency_bio_css cfg K bio = 0")
  case True
  then show ?thesis using assms
    by (intro exI [of _ "io_latency_group_map s"] exI [of _ "io_status s"]) (simp add: io_latency_bio_identity_def)
next
  case False
  obtain serial s2 where c: "io_latency_css_serial K f (io_latency_bio_css cfg K bio) s = (serial, s2)" by fastforce
  obtain g st where "s2 = s\<lparr>io_latency_group_map := g, io_status := st\<rparr>" "learns (io_latency_group_map s) g"
      "publishes (io_status s) st" "serial \<noteq> 0 \<longrightarrow> g (io_latency_bio_css cfg K bio) = Some \<lparr>gs_serial = serial\<rparr>"
    using css_serial_effect [OF c] by blast
  then show ?thesis
    using assms(1) False
    by (intro exI [of _ g] exI [of _ st]) (auto simp: io_latency_bio_identity_def c split: if_splits)
qed

lemma credit_container_effect:
  assumes "ck_blkcg key = 0" "ck_kind key = 0" and s'_def: "s' = credit_container cfg K f bio key g s"
  shows "container_effect s s' \<and> credited (io_latency_bio_css cfg K bio) key g s s'"
proof -
  obtain series s1 where i: "io_latency_bio_identity cfg K (fst f) bio key s = (series, s1)" by fastforce
  obtain row s2 where l: "lookup_container_counters (snd f) series s1 = (row, s2)" by fastforce
  obtain gm st where e: "s1 = s\<lparr>io_latency_group_map := gm, io_status := st\<rparr>"
      "learns (io_latency_group_map s) gm" "publishes (io_status s) st"
    and ser: "series = key \<or> (\<exists>serial. serial \<noteq> 0 \<and> io_latency_bio_css cfg K bio \<noteq> 0 \<and>
          series = key\<lparr>ck_blkcg := io_latency_bio_css cfg K bio, ck_serial := serial\<rparr> \<and>
          gm (io_latency_bio_css cfg K bio) = Some \<lparr>gs_serial = serial\<rparr>)"
    using bio_identity_effect [OF i assms(1)] by blast
  have kind: "ck_kind series = 0" using ser assms(2) by auto
  have s': "s' = (case row of None \<Rightarrow> s2 | Some r \<Rightarrow> at_row r g s2)"
    by (simp add: s'_def credit_container_def i l)
  from lookup_container_effect [OF l kind] show ?thesis
  proof (elim disjE conjE)
    assume "row = None" "s2 = s1"
    then show ?thesis using e by (simp add: s' container_effect_def credited_def)
  next
    assume r: "row = Some series" "ck_blkcg series \<noteq> 0" "ck_serial series \<noteq> 0"
      "s2 = s1\<lparr>blkcg_lat_map := (blkcg_lat_map s1)(series \<mapsto> row_or_zero s1 series)\<rparr>"
    then obtain serial where "serial \<noteq> 0" "io_latency_bio_css cfg K bio \<noteq> 0"
        "series = key\<lparr>ck_blkcg := io_latency_bio_css cfg K bio, ck_serial := serial\<rparr>"
        "gm (io_latency_bio_css cfg K bio) = Some \<lparr>gs_serial = serial\<rparr>"
      using ser assms(1) by auto
    moreover have "row_or_zero s1 series = row_or_zero s series" by (simp add: row_or_zero_def e)
    ultimately show ?thesis using e r
      by (auto simp: s' container_effect_def credited_def at_row_def Let_def)
  qed
qed

text \<open>When and where a container is credited: the serial of a css is the saved one or, if it can
  be saved, the one read now; the row must exist or be insertable.\<close>

definition known_serial :: "'a blk_kernel_scheme \<Rightarrow> map_fault \<Rightarrow> u64 \<Rightarrow> io_latency_state \<Rightarrow> u64" where
  "known_serial K f css s = (case io_latency_group_map s css of
      Some gr \<Rightarrow> gs_serial gr
    | None \<Rightarrow> if f = Fault_none then core_read (css_serial_nr K) css else 0)"

lemma css_serial_exact:
  assumes "io_latency_css_serial K f css s = (serial, s1)"
  shows "serial = known_serial K f css s \<and> blkcg_lat_map s1 = blkcg_lat_map s \<and>
    io_latency_group_map s1 = (if serial \<noteq> 0 then (io_latency_group_map s)(css \<mapsto> \<lparr>gs_serial = serial\<rparr>)
      else io_latency_group_map s)"
proof (cases "io_latency_group_map s css")
  case None
  with assms show ?thesis
    by (cases f) (auto simp: io_latency_css_serial_def known_serial_def bpf_map_update_elem_def io_latency_fail_def Let_def
        split: if_splits)
next
  case (Some gr)
  then have "serial = gs_serial gr" "s1 = s" using assms by (simp_all add: io_latency_css_serial_def)
  with Some show ?thesis by (simp add: known_serial_def fun_upd_idem)
qed

lemma lookup_container_exact:
  assumes "ck_kind series = 0"
  shows "lookup_container_counters f series s =
    (if ck_blkcg series \<noteq> 0 \<and> ck_serial series \<noteq> 0 \<and> (blkcg_lat_map s series \<noteq> None \<or> f = Fault_none)
     then (Some series, s\<lparr>blkcg_lat_map := (blkcg_lat_map s)(series \<mapsto> row_or_zero s series)\<rparr>) else (None, s))"
proof -
  have key: "\<lparr>ck_blkcg = ck_blkcg series, ck_serial = ck_serial series, ck_major = ck_major series,
      ck_minor = ck_minor series, ck_operation = ck_operation series, ck_kind = 0\<rparr> = series"
    using assms by (cases series) simp
  show ?thesis
    by (cases "blkcg_lat_map s series"; cases f)
      (simp_all add: lookup_container_counters_def key row_or_zero_def bpf_map_update_elem_def map_upd_triv Let_def)
qed

lemma credit_container_exact:
  assumes "ck_blkcg key = 0" "ck_kind key = 0" and css: "css = io_latency_bio_css cfg K bio"
    and serial: "serial = known_serial K (fst f) css s" and row: "row = key\<lparr>ck_blkcg := css, ck_serial := serial\<rparr>"
    and s': "s' = credit_container cfg K f bio key g s"
  shows "blkcg_lat_map s' = (if css \<noteq> 0 \<and> serial \<noteq> 0 \<and> (blkcg_lat_map s row \<noteq> None \<or> snd f = Fault_none)
      then (blkcg_lat_map s)(row \<mapsto> g (row_or_zero s row)) else blkcg_lat_map s) \<and>
    io_latency_group_map s' = (if css \<noteq> 0 \<and> serial \<noteq> 0
      then (io_latency_group_map s)(css \<mapsto> \<lparr>gs_serial = serial\<rparr>) else io_latency_group_map s)"
proof (cases "css = 0")
  case True
  then show ?thesis
    using assms by (simp add: credit_container_def io_latency_bio_identity_def lookup_container_exact)
next
  case False
  obtain ser s1 where i: "io_latency_css_serial K (fst f) css s = (ser, s1)" by fastforce
  note e = css_serial_exact [OF i, folded serial]
  show ?thesis
    using False i e assms(1,2)
    by (auto simp: s' credit_container_def io_latency_bio_identity_def css [symmetric] row lookup_container_exact
        row_or_zero_def at_row_def Let_def)
qed

section \<open>One bio\<close>

lemma word_of_bucket:
  assumes "- 1 \<le> i" "i \<le> 16" and len: "8 \<le> LENGTH('a)"
  shows "((word_of_int i :: 'a::len word) < 17 \<longleftrightarrow> 0 \<le> i) \<and> (0 \<le> i \<longrightarrow> unat (word_of_int i :: 'a word) = nat i)"
  using assms(1,2)
proof (cases rule: word_small_range)
  case 1
  have "(2 :: nat) ^ 8 \<le> 2 ^ LENGTH('a)" using len by (rule power_increasing) simp
  then have "unat (17 :: 'a word) = 17" and "\<not> 2 ^ LENGTH('a) - Suc 0 < (17 :: nat)"
    by (simp_all add: unsigned_numeral take_bit_nat_eq_self)
  then show ?thesis using 1 by (simp add: word_less_nat_alt unsigned_minus_1_eq_mask mask_eq_exp_minus_1)
next
  case (2 n)
  have "(2 :: nat) ^ 8 \<le> 2 ^ LENGTH('a)" using len by (rule power_increasing) simp
  with 2 have "unat (17 :: 'a word) = 17" "unat (of_nat n :: 'a word) = n"
    by (simp_all add: unsigned_numeral unsigned_of_nat take_bit_nat_eq_self)
  then show ?thesis using 2 by (simp add: word_less_nat_alt)
qed

lemma d2c_byte:
  assumes "- 1 \<le> i" "i \<le> 16"
  shows "ucast (ucast (if 0 \<le> i then word_of_int i else (255 :: u32)) :: u8) = byte_of_int i"
  using assms
proof (cases rule: word_small_range)
  case 1
  then show ?thesis by (simp add: byte_of_int_minus)
next
  case (2 n)
  have "unat (ucast (ucast (of_nat n :: u32) :: u8) :: u64) = unat (byte_of_int (int n))"
    using 2 by (simp add: unat_byte_of_int unsigned_ucast_eq unsigned_of_nat take_bit_nat_eq_self)
  then show ?thesis using 2 by (simp add: word_unat_eq_iff)
qed

lemma account_io_latency_eq:
  "account_io_latency disk op stage a b s =
     (let k = io_latency_bucket a b (if stage \<noteq> IO_LATENCY_STAGE_D2C then 1 else 0)
      in (k, at_host disk op (sample (increment_latency stage) k) s))"
proof -
  let ?k = "io_latency_bucket a b (if stage \<noteq> IO_LATENCY_STAGE_D2C then 1 else 0)"
  have r: "- 1 \<le> ?k" "?k \<le> 16" by (rule latency_bucket_range)+
  have w: "((word_of_int ?k :: u64) < 17 \<longleftrightarrow> 0 \<le> ?k) \<and> (0 \<le> ?k \<longrightarrow> unat (word_of_int ?k :: u64) = nat ?k)"
    by (rule word_of_bucket [OF r]) simp
  show ?thesis
  proof (cases "0 \<le> ?k")
    case True
    then have "\<not> 17 \<le> (word_of_int ?k :: u64)" "unat (word_of_int ?k :: u64) = nat ?k" using w by (auto simp: not_le)
    then show ?thesis using True by (simp add: account_io_latency_def Let_def sample_def [abs_def])
  next
    case False
    then have "17 \<le> (word_of_int ?k :: u64)" "?k = - 1" using w r by (auto simp: not_less)
    then show ?thesis using False by (simp add: account_io_latency_def Let_def sample_def [abs_def] at_host_id)
  qed
qed

definition container_series :: "u32 \<Rightarrow> u32 \<Rightarrow> u64 \<Rightarrow> iolatency_container_key" where
  "container_series major minor operation =
     \<lparr>ck_blkcg = 0, ck_serial = 0, ck_major = major, ck_minor = minor,
      ck_operation = ucast operation, ck_kind = 0\<rparr>"

lemma container_series_simps [simp]:
  "ck_blkcg (container_series a b c) = 0" "ck_kind (container_series a b c) = 0"
  by (simp_all add: container_series_def)

lemma account_completed_eq:
  assumes "- 1 \<le> q2g" "q2g \<le> 16" "- 1 \<le> q2d" "q2d \<le> 16" "- 1 \<le> d2c" "d2c \<le> 16" "- 1 \<le> sz" "sz \<le> 5"
    and w: "ucast (ucast w :: u8) = byte_of_int d2c"
  shows "account_completed_container cfg K f bio disk op (pack_buckets q2g q2d w sz) s =
    (if q2g = - 1 \<and> q2d = - 1 \<and> d2c = - 1 \<and> sz = - 1 then s
     else credit_container cfg K f bio
       (container_series (ucast (drop_bit 32 disk)) (ucast disk) op) (samples q2g q2d d2c sz) s)"
proof -
  let ?p = "pack_buckets q2g q2d w sz"
  have p: "?p AND 255 = byte_of_int q2g" "drop_bit 8 ?p AND 255 = byte_of_int q2d"
      "drop_bit 16 ?p AND 255 = byte_of_int d2c" "drop_bit 24 ?p AND 255 = byte_of_int sz"
    unfolding pack_buckets_def byte_of_int_def w [unfolded byte_of_int_def] by (rule bytes_unpack)+
  have b: "(byte_of_int i < 17 \<longleftrightarrow> 0 \<le> i) \<and> (byte_of_int i < 6 \<longleftrightarrow> 0 \<le> i \<and> i < 6) \<and>
      (0 \<le> i \<longrightarrow> unat (byte_of_int i) = nat i) \<and> (byte_of_int i = 255 \<longleftrightarrow> i = - 1)"
    if "i = q2g \<or> i = q2d \<or> i = d2c \<or> i = sz" for i
    by (rule byte_of_int_small) (use that assms in auto)
  have full: "?p = 0xffffffff \<longleftrightarrow> q2g = - 1 \<and> q2d = - 1 \<and> d2c = - 1 \<and> sz = - 1"
  proof
    assume f: "?p = 0xffffffff"
    have "byte_of_int q2g = 255" "byte_of_int q2d = 255" "byte_of_int d2c = 255" "byte_of_int sz = 255"
      using p unfolding f by simp_all
    then show "q2g = - 1 \<and> q2d = - 1 \<and> d2c = - 1 \<and> sz = - 1" using b by blast
  next
    assume "q2g = - 1 \<and> q2d = - 1 \<and> d2c = - 1 \<and> sz = - 1"
    then show "?p = 0xffffffff"
      unfolding pack_buckets_def w by (simp add: byte_of_int_minus)
  qed
  have row: "at_row key (samples q2g q2d d2c sz) t =
      (let s3 = (if byte_of_int q2g < 17 then at_row key (increment_latency IO_LATENCY_STAGE_Q2G (unat (byte_of_int q2g))) t else t);
           s4 = (if byte_of_int q2d < 17 then at_row key (increment_latency IO_LATENCY_STAGE_Q2D (unat (byte_of_int q2d))) s3 else s3);
           s5 = (if byte_of_int d2c < 17 then at_row key (increment_latency IO_LATENCY_STAGE_D2C (unat (byte_of_int d2c))) s4 else s4)
       in if byte_of_int sz < 6 then at_row key (increment_io_size IO_SIZE_POINT_ISSUE (unat (byte_of_int sz))) s5 else s5)" for key t
    using b assms(7,8) unfolding samples_def [abs_def] sample_def
    by (simp add: Let_def at_row_twice at_row_id)
  show ?thesis
    unfolding account_completed_container_def credit_container_def p Let_def full
    by (simp add: row [unfolded Let_def] container_series_def [symmetric] split: prod.split option.split)
qed

text \<open>The buckets of one bio of a completion, \<open>-1\<close> for no sample: queueing, dispatch and device
  latency, and issued size. Each sample adds one to its bucket.\<close>

definition bio_buckets :: "iolat_kernel \<Rightarrow> request_completion \<Rightarrow> u64 \<Rightarrow> u64 \<Rightarrow> int \<times> int \<times> int \<times> int" where
  "bio_buckets K c bio issued =
     (let queue_ns = io_latency_bio_queue_ns K bio (rc_now c)
      in (if queue_ns = 0 then - 1 else io_latency_bucket queue_ns (rc_get_request_ns c) 1,
          if queue_ns = 0 then - 1 else io_latency_bucket queue_ns (rc_issue_ns c) 1,
          rc_d2c_bucket c,
          if issued = 0 then - 1 else io_size_bucket (ucast issued)))"

definition one_more_in :: "int \<Rightarrow> (nat \<Rightarrow> u64) \<Rightarrow> nat \<Rightarrow> u64" where
  "one_more_in b row i = (if int i = b then row i + 1 else row i)"

definition bio_samples ::
  "iolat_kernel \<Rightarrow> request_completion \<Rightarrow> u64 \<Rightarrow> u64 \<Rightarrow> iolatency_counters \<Rightarrow> iolatency_counters" where
  "bio_samples K c bio issued row =
     (let (q2g, q2d, d2c, sz) = bio_buckets K c bio issued
      in row\<lparr>buckets := (buckets row)
               (IO_LATENCY_STAGE_Q2G := one_more_in q2g (buckets row IO_LATENCY_STAGE_Q2G),
                IO_LATENCY_STAGE_Q2D := one_more_in q2d (buckets row IO_LATENCY_STAGE_Q2D),
                IO_LATENCY_STAGE_D2C := one_more_in d2c (buckets row IO_LATENCY_STAGE_D2C)),
             issued_size := one_more_in sz (issued_size row)\<rparr>)"

lemma one_more_in_eq: "one_more_in b row = (if 0 \<le> b then bump row (nat b) else row)"
  by (auto simp: one_more_in_def bump_def fun_eq_iff)

lemma bio_samples_eq:
  "bio_buckets K c bio issued = (q2g, q2d, d2c, sz) \<Longrightarrow> bio_samples K c bio issued = samples q2g q2d d2c sz"
  by (rule ext) (simp add: bio_samples_def samples_def sample_def one_more_in_eq increment_latency_def
      increment_io_size_def fun_upd_idem fun_upd_twist)

lemma complete_bio_eq:
  assumes d2c: "- 1 \<le> rc_d2c_bucket c" "rc_d2c_bucket c \<le> 16"
    and s': "s' = complete_bio_latency cfg K f bio c issued s"
  shows "s' = (let s1 = at_host (rc_host c) (rc_operation c) (bio_samples K c bio issued) s
     in if bio_buckets K c bio issued = (- 1, - 1, - 1, - 1) then s1
        else credit_container cfg K f bio
             (container_series (ucast (drop_bit 32 (rc_disk c))) (ucast (rc_disk c)) (rc_operation c))
             (bio_samples K c bio issued) s1)"
proof -
  let ?q = "io_latency_bio_queue_ns K bio (rc_now c)"
  define q2g where "q2g = (if ?q = 0 then - 1 else io_latency_bucket ?q (rc_get_request_ns c) 1)"
  define q2d where "q2d = (if ?q = 0 then - 1 else io_latency_bucket ?q (rc_issue_ns c) 1)"
  define d2c where "d2c = rc_d2c_bucket c"
  define sz where "sz = (if issued = 0 then - 1 else io_size_bucket (ucast issued))"
  let ?d = "word_of_int d2c :: u32"
  let ?host = "at_host (rc_host c) (rc_operation c)"
  have range: "- 1 \<le> q2g" "q2g \<le> 16" "- 1 \<le> q2d" "q2d \<le> 16" "- 1 \<le> d2c" "d2c \<le> 16" "- 1 \<le> sz" "sz \<le> 5"
    using latency_bucket_range size_bucket_range(2) [of "ucast issued"] size_bucket_range(1) [of "ucast issued"] assms
    unfolding q2g_def q2d_def d2c_def sz_def by auto
  have w: "(?d < 17 \<longleftrightarrow> 0 \<le> d2c) \<and> (0 \<le> d2c \<longrightarrow> unat ?d = nat d2c)"
    by (rule word_of_bucket [OF range(5,6)]) simp
  have 1: "(if issued \<noteq> 0 then let b = io_size_bucket (ucast issued) in (b, ?host (increment_io_size IO_SIZE_POINT_ISSUE (nat b)) s)
        else (- 1, s)) = (sz, ?host (sample (increment_io_size IO_SIZE_POINT_ISSUE) sz) s)"
    using size_bucket_range(1) [of "ucast issued"] by (simp add: sz_def sample_def [abs_def] at_host_id Let_def)
  have 2: "(if ?d < 17 then (?d, ?host (increment_latency IO_LATENCY_STAGE_D2C (unat ?d)) t) else (255, t)) =
      (if 0 \<le> d2c then ?d else 255, ?host (sample (increment_latency IO_LATENCY_STAGE_D2C) d2c) t)" for t
    using w by (simp add: sample_def [abs_def] at_host_id)
  have g: "(if ?q \<noteq> 0 then account_io_latency (rc_host c) (rc_operation c) IO_LATENCY_STAGE_Q2G ?q (rc_get_request_ns c) t
        else (- 1, t)) = (q2g, ?host (sample (increment_latency IO_LATENCY_STAGE_Q2G) q2g) t)"
    and d: "(if ?q \<noteq> 0 then account_io_latency (rc_host c) (rc_operation c) IO_LATENCY_STAGE_Q2D ?q (rc_issue_ns c) t
        else (- 1, t)) = (q2d, ?host (sample (increment_latency IO_LATENCY_STAGE_Q2D) q2d) t)" for t
    by (simp_all add: account_io_latency_eq sample_def [abs_def] at_host_id q2g_def q2d_def Let_def)
  have host: "?host (sample (increment_latency IO_LATENCY_STAGE_Q2D) q2d)
        (?host (sample (increment_latency IO_LATENCY_STAGE_Q2G) q2g)
        (?host (sample (increment_latency IO_LATENCY_STAGE_D2C) d2c)
        (?host (sample (increment_io_size IO_SIZE_POINT_ISSUE) sz) s))) = ?host (samples q2g q2d d2c sz) s"
    by (simp only: at_host_twice samples_order)
  have eq: "complete_bio_latency cfg K f bio c issued s =
      account_completed_container cfg K f bio (rc_disk c) (rc_operation c)
        (pack_buckets q2g q2d (if 0 \<le> d2c then ?d else 255) sz) (?host (samples q2g q2d d2c sz) s)"
    unfolding complete_bio_latency_def host [symmetric] d2c_def [symmetric]
    by (simp only: Let_def 1 [unfolded Let_def] 2 g d of_nat_numeral prod.case)
  have B: "bio_buckets K c bio issued = (q2g, q2d, d2c, sz)"
    by (simp add: bio_buckets_def q2g_def q2d_def d2c_def sz_def Let_def)
  show ?thesis
    unfolding s' eq account_completed_eq [OF range d2c_byte [OF range(5,6)]] bio_samples_eq [OF B] B by (simp add: Let_def)
qed

text \<open>C9. The host row and the container row of a completed bio receive the same samples: the
  host counters of the disk and operation gain one in the bucket of each sample of the bio
  (queueing, dispatch and device latency, issued size), and so does, on top of its old counters or
  of zeroes, the row of the bio's css, serial, disk and operation, although the bucket numbers
  travel packed in one word. The container row changes exactly if the bio has a css other than the
  root's and a sample, the serial of the css is saved or can be read and saved now, and the row exists
  or can be inserted; no other container row changes, and no css other than the bio's is saved.\<close>

theorem completion_mirrored:
  assumes row: "blkdisk_lat_map s (rc_host c) = Some h"
    and d2c: "rc_d2c_bucket c = io_latency_bucket (rc_issue_ns c) (rc_now c) 0"
    and s': "s' = complete_bio_latency cfg K f bio c issued s"
    and css: "css = io_latency_bio_css cfg K bio"
    and serial: "serial = (case io_latency_group_map s css of Some gr \<Rightarrow> gs_serial gr
      | None \<Rightarrow> if fst f = Fault_none then core_read (css_serial_nr K) css else 0)"
    and known: "known \<longleftrightarrow> css \<noteq> 0 \<and> serial \<noteq> 0 \<and> bio_buckets K c bio issued \<noteq> (- 1, - 1, - 1, - 1)"
    and key: "key = \<lparr>ck_blkcg = css, ck_serial = serial,
      ck_major = ucast (drop_bit 32 (rc_disk c)), ck_minor = ucast (rc_disk c),
      ck_operation = ucast (rc_operation c), ck_kind = IO_LATENCY_ROW_COUNTERS\<rparr>"
  shows "blkdisk_lat_map s' = (blkdisk_lat_map s)(rc_host c \<mapsto>
       h\<lparr>hc_counters := (hc_counters h)(unat (rc_operation c) :=
           bio_samples K c bio issued (hc_counters h (unat (rc_operation c))))\<rparr>) \<and>
     blkcg_lat_map s' = (if known \<and> (blkcg_lat_map s key \<noteq> None \<or> snd f = Fault_none)
       then (blkcg_lat_map s)(key \<mapsto> bio_samples K c bio issued (row_or_zero s key)) else blkcg_lat_map s) \<and>
     io_latency_group_map s' = (if known then (io_latency_group_map s)(css \<mapsto> \<lparr>gs_serial = serial\<rparr>)
       else io_latency_group_map s)"
proof -
  let ?G = "bio_samples K c bio issued"
  let ?s1 = "at_host (rc_host c) (rc_operation c) ?G s"
  let ?key = "container_series (ucast (drop_bit 32 (rc_disk c))) (ucast (rc_disk c)) (rc_operation c)"
  have s1: "blkdisk_lat_map ?s1 = (blkdisk_lat_map s)(rc_host c \<mapsto>
       h\<lparr>hc_counters := (hc_counters h)(unat (rc_operation c) := ?G (hc_counters h (unat (rc_operation c))))\<rparr>)"
      "blkcg_lat_map ?s1 = blkcg_lat_map s" "io_latency_group_map ?s1 = io_latency_group_map s"
    using row by (simp_all add: at_host_def)
  have "- 1 \<le> rc_d2c_bucket c" "rc_d2c_bucket c \<le> 16" unfolding d2c by (rule latency_bucket_range)+
  note eq = complete_bio_eq [OF this s']
  show ?thesis
  proof (cases "bio_buckets K c bio issued = (- 1, - 1, - 1, - 1)")
    case True
    then show ?thesis using s1 known by (simp add: eq)
  next
    case False
    then have s'_eq: "s' = credit_container cfg K f bio ?key ?G ?s1" by (simp add: eq Let_def)
    have k: "key = ?key\<lparr>ck_blkcg := css, ck_serial := serial\<rparr>" by (simp add: key container_series_def)
    have ser: "serial = known_serial K (fst f) css ?s1" by (simp add: serial known_serial_def s1)
    have "blkdisk_lat_map s' = blkdisk_lat_map ?s1"
      using credit_container_effect [OF _ _ s'_eq] by (simp add: container_effect_def)
    then show ?thesis
      using credit_container_exact [OF _ _ css ser k s'_eq] False by (simp add: known s1 row_or_zero_def)
  qed
qed

section \<open>Well-formed maps\<close>

definition counters_wf :: "iolatency_counters \<Rightarrow> bool" where
  "counters_wf c \<longleftrightarrow> (\<forall>stage b. 3 \<le> stage \<or> 17 \<le> b \<longrightarrow> buckets c stage b = 0) \<and>
     (\<forall>b. 6 \<le> b \<longrightarrow> queued_size c b = 0 \<and> issued_size c b = 0)"

definition host_wf :: "iolatency_host_counters \<Rightarrow> bool" where
  "host_wf h \<longleftrightarrow> (\<forall>i. counters_wf (hc_counters h i)) \<and>
     (\<forall>i. 2 \<le> i \<longrightarrow> hc_counters h i = zero_latency_counters)"

definition row_wf :: "iolatency_container_key \<Rightarrow> iolatency_counters \<Rightarrow> bool" where
  "row_wf key c \<longleftrightarrow> ck_serial key \<noteq> 0 \<and>
     (if ck_kind key = IO_LATENCY_ROW_COUNTERS
      then ck_blkcg key \<noteq> 0 \<and> ck_operation key \<in> {REQ_OP_READ, REQ_OP_WRITE} \<and> counters_wf c
      else ck_kind key = IO_LATENCY_CSS_RELEASED \<and> c = zero_latency_counters)"

definition io_latency_wf :: "io_latency_state \<Rightarrow> bool" where
  "io_latency_wf s \<longleftrightarrow>
     (\<forall>css gr. io_latency_group_map s css = Some gr \<longrightarrow> gs_serial gr \<noteq> 0) \<and>
     (\<forall>disk h. blkdisk_lat_map s disk = Some h \<longrightarrow> host_wf h) \<and>
     (\<forall>key c. blkcg_lat_map s key = Some c \<longrightarrow> row_wf key c)"

text \<open>What every accounting step does: it keeps the maps well formed, publishes only known
  failures and leaves the disks registered and the queue results alone.\<close>

definition accounts :: "io_latency_state \<Rightarrow> io_latency_state \<Rightarrow> bool" where
  "accounts s s' \<longleftrightarrow> (io_latency_wf s \<longrightarrow> io_latency_wf s') \<and> publishes (io_status s) (io_status s') \<and>
     io_latency_probe_result s' = io_latency_probe_result s \<and> dom (blkdisk_lat_map s') = dom (blkdisk_lat_map s)"

lemma accounts_refl [simp]: "accounts s s" by (simp add: accounts_def)

lemma accounts_trans [trans]: "accounts a b \<Longrightarrow> accounts b c \<Longrightarrow> accounts a c"
  unfolding accounts_def by (auto elim: publishes_trans)

definition keeps_wf :: "(iolatency_counters \<Rightarrow> iolatency_counters) \<Rightarrow> bool" where
  "keeps_wf g \<longleftrightarrow> (\<forall>c. counters_wf c \<longrightarrow> counters_wf (g c))"

lemma keeps_wf_increment:
  "b < 17 \<Longrightarrow> keeps_wf (increment_latency stage b)" "b < 6 \<Longrightarrow> keeps_wf (increment_io_size point b)"
  by (auto simp: keeps_wf_def counters_wf_def increment_latency_def increment_io_size_def bump_def word_le_nat_alt)

lemma keeps_wf_samples:
  assumes "q2g \<le> 16" "q2d \<le> 16" "d2c \<le> 16" "sz \<le> 5"
  shows "keeps_wf (samples q2g q2d d2c sz)"
proof -
  have l: "counters_wf (sample (increment_latency stage) k c)" if "k \<le> 16" "counters_wf c" for stage k c
    using that keeps_wf_increment(1) [of "nat k" stage] by (auto simp: sample_def keeps_wf_def)
  have z: "counters_wf (sample (increment_io_size IO_SIZE_POINT_ISSUE) sz c)" if "counters_wf c" for c
    using that assms(4) keeps_wf_increment(2) [of "nat sz" IO_SIZE_POINT_ISSUE] by (auto simp: sample_def keeps_wf_def)
  show ?thesis unfolding keeps_wf_def samples_def using assms by (simp add: l z)
qed

lemma keeps_wf_bio_samples: "rc_d2c_bucket c \<le> 16 \<Longrightarrow> keeps_wf (bio_samples K c bio issued)"
  unfolding bio_samples_eq [OF bio_buckets_def [unfolded Let_def]]
  by (rule keeps_wf_samples) (simp_all add: latency_bucket_range size_bucket_range)

lemma zero_wf [simp]: "counters_wf zero_latency_counters"
  by (simp add: counters_wf_def zero_latency_counters_def)

lemma accounts_host:
  assumes "unat op < 2" "keeps_wf g"
  shows "accounts s (at_host disk op g s)"
proof (cases "blkdisk_lat_map s disk")
  case (Some h)
  have "host_wf (h\<lparr>hc_counters := (hc_counters h)(unat op := g (hc_counters h (unat op)))\<rparr>)" if "host_wf h"
    using that assms by (auto simp: host_wf_def keeps_wf_def)
  then show ?thesis using Some
    by (auto simp: accounts_def at_host_def io_latency_wf_def)
qed (simp add: at_host_def)

lemma accounts_credit:
  assumes op: "operation = 0 \<or> operation = 1" and g: "keeps_wf g"
  shows "accounts s (credit_container cfg K f bio (container_series major minor operation) g s)" (is "accounts s ?s'")
proof -
  let ?css = "io_latency_bio_css cfg K bio" and ?key = "container_series major minor operation"
  have e: "container_effect s ?s'" "credited ?css ?key g s ?s'"
    using credit_container_effect [of ?key ?s' cfg K f bio g s] by simp_all
  have "io_latency_wf ?s'" if wf: "io_latency_wf s"
  proof -
    have 1: "gs_serial gr \<noteq> 0" if "io_latency_group_map ?s' css = Some gr" for css gr
      using e(1) wf that by (auto simp: container_effect_def learns_def io_latency_wf_def split: if_splits)
    have row: "row_wf key (g (row_or_zero s key))"
      if "key = ?key\<lparr>ck_blkcg := css, ck_serial := serial\<rparr>" "css \<noteq> 0" "serial \<noteq> 0" for key css serial
    proof -
      have k: "ck_kind key = 0" "ck_operation key \<in> {0, 1}" "ck_blkcg key \<noteq> 0" "ck_serial key \<noteq> 0"
        using that op by (auto simp: container_series_def)
      have "counters_wf (row_or_zero s key)"
        using wf k(1) unfolding row_or_zero_def io_latency_wf_def row_wf_def by (cases "blkcg_lat_map s key") auto
      then show ?thesis using k g by (simp add: row_wf_def keeps_wf_def)
    qed
    have 2: "row_wf key c" if "blkcg_lat_map ?s' key = Some c" for key c
    proof (cases "blkcg_lat_map ?s' = blkcg_lat_map s")
      case True
      then show ?thesis using wf that by (simp add: io_latency_wf_def)
    next
      case False
      then obtain serial where "?css \<noteq> 0" "serial \<noteq> 0" and
        "blkcg_lat_map ?s' = (blkcg_lat_map s)(?key\<lparr>ck_blkcg := ?css, ck_serial := serial\<rparr> \<mapsto>
           g (row_or_zero s (?key\<lparr>ck_blkcg := ?css, ck_serial := serial\<rparr>)))"
        using e(2) unfolding credited_def Let_def by blast
      then show ?thesis using wf that row [OF refl, of ?css serial]
        by (auto simp: io_latency_wf_def split: if_splits)
    qed
    have 3: "\<forall>disk h. blkdisk_lat_map ?s' disk = Some h \<longrightarrow> host_wf h"
      using e(1) wf by (simp add: container_effect_def io_latency_wf_def)
    show ?thesis unfolding io_latency_wf_def using 1 2 3 by blast
  qed
  then show ?thesis using e(1) by (auto simp: accounts_def container_effect_def)
qed

lemma accounts_queue_bio: "accounts s (queue_bio_latency cfg K f bio disk operation s)"
proof (cases "operation = 0 \<or> operation = 1")
  case op: True
  show ?thesis
  proof (cases "blkdisk_lat_map s disk")
    case (Some h)
    let ?bytes = "core_read (bi_size K) bio"
    let ?g = "increment_io_size IO_SIZE_POINT_QUEUE (nat (io_size_bucket ?bytes))"
    let ?s1 = "at_host disk operation ?g s"
    let ?s2 = "credit_container cfg K f bio (container_series (hc_major h) (hc_minor h) operation) ?g ?s1"
    have g: "keeps_wf ?g" using size_bucket_range [of ?bytes] by (intro keeps_wf_increment) simp
    have "accounts s ?s1" by (rule accounts_host [OF _ g]) (use op in auto)
    also have "accounts ?s1 ?s2" by (rule accounts_credit [OF op g])
    finally have "accounts s ?s2" .
    moreover have "queue_bio_latency cfg K f bio disk operation s = (if ?bytes = 0 then s else ?s2)"
      using op Some
      by (auto simp: queue_bio_latency_def credit_container_def container_series_def Let_def
          lookup_container_counters_def split: prod.split option.split)
    ultimately show ?thesis by simp
  qed (use op in \<open>simp add: queue_bio_latency_def\<close>)
qed (simp add: queue_bio_latency_def)

lemma accounts_complete_bio:
  assumes "rc_operation c = 0 \<or> rc_operation c = 1" "- 1 \<le> rc_d2c_bucket c" "rc_d2c_bucket c \<le> 16"
  shows "accounts s (complete_bio_latency cfg K f bio c issued s)"
proof -
  let ?G = "bio_samples K c bio issued"
  let ?s1 = "at_host (rc_host c) (rc_operation c) ?G s"
  have g: "keeps_wf ?G" by (rule keeps_wf_bio_samples [OF assms(3)])
  have 1: "accounts s ?s1" by (rule accounts_host [OF _ g]) (use assms(1) in auto)
  then have "accounts s (credit_container cfg K f bio
      (container_series (ucast (drop_bit 32 (rc_disk c))) (ucast (rc_disk c)) (rc_operation c)) ?G ?s1)"
    by (rule accounts_trans) (rule accounts_credit [OF assms(1) g])
  with 1 show ?thesis using complete_bio_eq [OF assms(2,3) refl, of cfg K f bio issued s] by (simp add: Let_def split: if_splits)
qed

lemma accounts_fold: "(\<And>x s. accounts s (g x s)) \<Longrightarrow> accounts s (fold g xs s)"
  by (induction xs arbitrary: s) (auto intro: accounts_trans)

lemma accounts_fail: "accounts s (io_latency_fail IO_LATENCY_CHAIN_OVERFLOW 0 s)"
  by (auto simp: accounts_def io_latency_fail_def io_latency_wf_def io_latency_words_def intro: publish_word)

lemma accounts_complete_loop:
  assumes "\<And>i b x s. accounts s (complete_bio_latency cfg K (F i) b c x s)"
  shows "accounts s (snd (complete_bio_loop cfg K F c i n cur s))"
proof (induction i arbitrary: n cur s)
  case 0
  then show ?case by (cases cur) simp
next
  case (Suc i)
  obtain bio r where cur: "cur = (bio, r)" by fastforce
  show ?case
    using assms accounts_trans [OF assms Suc.IH] unfolding cur by (simp add: Let_def)
qed

lemma accounts_bio_on_disk: "accounts s (queue_bio_on_disk cfg K f bio disk s)"
  by (simp add: queue_bio_on_disk_def accounts_queue_bio)

lemma accounts_bio_queue: "accounts s (trace_bio_queue cfg K f args s)"
  by (simp add: trace_bio_queue_def Let_def accounts_queue_bio accounts_bio_on_disk split: prod.split)

lemma accounts_bio_remap: "accounts s (trace_bio_remap cfg K f args s)"
  by (simp add: trace_bio_remap_def Let_def accounts_bio_on_disk)

lemma accounts_request_remap: "accounts s (trace_request_remap cfg K F args s)"
proof -
  have "accounts s (fold (\<lambda>(i, b). queue_bio_latency cfg K (F i) b d op) xs s)" for d op xs
    by (rule accounts_fold) (auto simp: accounts_queue_bio)
  then show ?thesis
    unfolding trace_request_remap_def Let_def queue_remapped_chunks_loop queue_remapped_loop_fold
    by (auto intro: accounts_trans [OF _ accounts_fail])
qed

lemma accounts_request_complete: "accounts s (trace_request_complete cfg K F args now s)"
proof (cases "completed_operation K (args 0) = 0 \<or> completed_operation K (args 0) = 1")
  case op: True
  show ?thesis
  proof (cases "blkdisk_lat_map s (io_latency_request_disk K (args 0))")
    case (Some h)
    let ?c = "completion_of K (args 0) (io_latency_request_disk K (args 0)) h now"
    have "rc_operation ?c = 0 \<or> rc_operation ?c = 1" "- 1 \<le> rc_d2c_bucket ?c" "rc_d2c_bucket ?c \<le> 16"
      using op by (auto simp: completion_of_def latency_bucket_range split: prod.split)
    note one = accounts_complete_bio [OF this]
    have walk: "accounts s (snd (complete_chunks cfg K F ?c 16 1 cur t))" if "accounts s t" for cur t
      using accounts_trans [OF that accounts_complete_loop [OF one]] complete_chunks_loop [of cfg K F ?c 15]
      by simp
    have "accounts s (case complete_chunks cfg K F ?c 16 1 cur t of (None, s2) \<Rightarrow> s2
        | (Some (b, _), s2) \<Rightarrow> if b \<noteq> 0 then io_latency_fail IO_LATENCY_CHAIN_OVERFLOW 0 s2 else s2)"
      if "accounts s t" for cur t
      using walk [OF that, of cur] by (auto split: prod.split option.split intro: accounts_trans [OF _ accounts_fail])
    then show ?thesis using one [of s] op Some
      by (auto simp: trace_request_complete_def Let_def split: prod.split)
  qed (simp add: trace_request_complete_def Let_def)
qed (simp add: trace_request_complete_def Let_def)

lemma accounts_css_released: "accounts s (io_latency_css_released f1 f2 css s)"
proof (cases "\<exists>gr. io_latency_group_map s css = Some gr \<and> gs_serial gr \<noteq> 0")
  case True
  then obtain gr where gr: "io_latency_group_map s css = Some gr" "gs_serial gr \<noteq> 0" by blast
  let ?key = "\<lparr>ck_blkcg = css, ck_serial = gs_serial gr, ck_major = 0, ck_minor = 0, ck_operation = 0,
      ck_kind = IO_LATENCY_CSS_RELEASED\<rparr>"
  obtain ret m where u: "bpf_map_update_elem f1 BPF_NOEXIST ?key zero_latency_counters (blkcg_lat_map s) = (ret, m)"
    by fastforce
  obtain ret2 g where d: "bpf_map_delete_elem f2 css (io_latency_group_map s) = (ret2, g)" by fastforce
  have m: "row_wf k c" if "io_latency_wf s" "m k = Some c" for k c
  proof (cases "k = ?key")
    case True
    have "row_wf ?key zero_latency_counters" using gr(2) by (simp add: row_wf_def)
    then show ?thesis
      using bmap.update_range [of f1 BPF_NOEXIST ?key zero_latency_counters "blkcg_lat_map s" k c] that True
      by (auto simp: u io_latency_wf_def)
  next
    case False
    from bmap.update_other [OF this, of f1 BPF_NOEXIST zero_latency_counters "blkcg_lat_map s"] that
    show ?thesis by (simp add: u io_latency_wf_def)
  qed
  have g: "gs_serial v \<noteq> 0" if "io_latency_wf s" "g k = Some v" for k v
    using bmap.delete_le [of f2 css "io_latency_group_map s" k v] that by (auto simp: d io_latency_wf_def)
  have errs: "ret \<in> {0, - EBUSY, - EEXIST, - ENOMEM, - E2BIG}" "ret2 \<in> {0, - EBUSY, - ENOENT}"
    using update_errors [of f1 ?key zero_latency_counters "blkcg_lat_map s"]
      delete_errors [of f2 css "io_latency_group_map s"] by (simp_all add: u d)
  let ?st = "if ret \<noteq> 0 \<and> ret \<noteq> - EEXIST
      then io_latency_publish IO_LATENCY_GROUP_RELEASE_FAILED ret (io_status s) else io_status s"
  have st: "publishes (io_status s) ?st"
    using errs(1) by (auto simp: io_latency_words_def intro!: publish_word)
  have eq: "io_latency_css_released f1 f2 css s =
      s\<lparr>blkcg_lat_map := m, io_status := ?st, io_latency_group_map := g\<rparr>"
    using gr u d errs(2)
    by (auto simp: io_latency_css_released_def Let_def io_latency_fail_def io_latency_publish_def)
  have "io_latency_wf (s\<lparr>blkcg_lat_map := m, io_status := ?st, io_latency_group_map := g\<rparr>)"
    if wf: "io_latency_wf s"
    using wf m [OF wf] g [OF wf] unfolding io_latency_wf_def by simp
  then show ?thesis unfolding eq accounts_def using st by simp
next
  case False
  then have "io_latency_css_released f1 f2 css s = s"
    by (auto simp: io_latency_css_released_def split: option.split)
  then show ?thesis by simp
qed

section \<open>Runs\<close>

interpretation iolat: failure_latch io_latency_publish
proof
  show "reports P st (io_latency_publish r e st)" if "r \<noteq> 0" "P r" for r P st e
    using that by (cases st) (auto simp: reports_def io_latency_publish_def)
qed

lemma step_wf: "io_latency_wf s \<Longrightarrow> io_latency_wf (io_latency_step cfg e s)"
proof (cases e)
  case (Queue_attr_show Q f kobj attr)
  have "io_latency_wf (s\<lparr>io_latency_probe_result := m\<rparr>) = io_latency_wf s" for m
    by (simp add: io_latency_wf_def)
  then show "io_latency_wf s \<Longrightarrow> ?thesis"
    by (simp add: Queue_attr_show probe_queue_stats_def split: option.split prod.split)
next
  case (Device_change e)
  then show "io_latency_wf s \<Longrightarrow> ?thesis" by (simp add: io_latency_wf_def)
qed (use accounts_bio_queue accounts_bio_remap accounts_request_remap accounts_request_complete
    accounts_css_released in \<open>auto simp: accounts_def\<close>)

text \<open>C10. Every run keeps the maps well formed: no increment ever lands outside the 17 latency
  and 6 size buckets, the three stages or the two operations; every counter row names a real
  container, its serial and a read or write; and the row that announces the release of a
  container is never counted into.\<close>

theorem maps_well_formed:
  assumes "io_latency_wf s"
  shows "io_latency_wf (fold (io_latency_step cfg) es s)"
  using assms by (induction es arbitrary: s) (simp_all add: step_wf)

definition words_from :: "u64 \<Rightarrow> io_control_status option \<Rightarrow> bool" where
  "words_from w st \<longleftrightarrow> (\<exists>x. st = Some x \<and> failure x \<in> insert w io_latency_words)"

lemma accounts_words: "accounts s s' \<Longrightarrow> words_from w (io_status s) \<Longrightarrow> words_from w (io_status s')"
  by (auto simp: accounts_def publishes_def words_from_def)

lemma step_words: "words_from w (io_status s) \<Longrightarrow> words_from w (io_status (io_latency_step cfg e s))"
proof (cases e)
  case (Queue_attr_show Q f kobj attr)
  then show "words_from w (io_status s) \<Longrightarrow> ?thesis"
    by (simp add: probe_queue_stats_def split: option.split prod.split)
next
  case (Device_change e)
  then show "words_from w (io_status s) \<Longrightarrow> ?thesis"
    by (auto simp: words_from_def device_hook_effect)
qed (simp_all add: accounts_words [OF accounts_bio_queue] accounts_words [OF accounts_bio_remap]
    accounts_words [OF accounts_request_remap] accounts_words [OF accounts_request_complete]
    accounts_words [OF accounts_css_released])

text \<open>C13. The failure word of a session only ever takes five values besides the one it started
  with: a chain overflow without errno, and a failed insertion or release of a container with
  the errno of a full map or of a failed allocation. In particular the EBUSY of a nested
  writer is never published, and an existing or missing entry is not an error.\<close>

theorem failure_words_known:
  assumes "io_status s = Some st"
  shows "\<exists>st'. io_status (fold (io_latency_step cfg) es s) = Some st' \<and>
           failure st' \<in> insert (failure st) io_latency_words"
proof -
  have "words_from (failure st) (io_status (fold (io_latency_step cfg) es s))"
    if "words_from (failure st) (io_status s)" for s
    using that by (induction es arbitrary: s) (simp_all add: step_words)
  then show ?thesis using assms by (simp add: words_from_def)
qed

definition queue_result_ok :: "iolatency_queue_probe_result \<Rightarrow> bool" where
  "queue_result_ok r \<longleftrightarrow>
     qp_result r \<in> {IO_LATENCY_PROBE_SUPPORTED, IO_LATENCY_PROBE_DISABLED} \<and> qp_disk r \<noteq> 0 \<or>
     qp_result r \<in> {IO_LATENCY_PROBE_SKIPPED, - EFAULT} \<and> qp_disk r = 0 \<and> qp_major r = 0 \<and> qp_minor r = 0"

lemma queue_result_ok: "queue_result_ok (queue_probe_result Q name parent)"
proof -
  have "queue_result_ok (queue_probe_sample Q disk q)" if "disk \<noteq> 0" for disk q
    using that by (auto simp: queue_probe_sample_def queue_result_ok_def queue_probe_failed_def split: option.split)
  then show ?thesis
    unfolding queue_probe_result_def Let_def
    by (auto simp: queue_result_ok_def queue_probe_failed_def split: option.split)
qed

lemma step_queue_results:
  defines "p \<equiv> io_latency_probe_result"
  shows "dom (p (io_latency_step cfg e s)) = dom (p s) \<and>
    (\<forall>name r. p (io_latency_step cfg e s) name = Some r \<longrightarrow> p s name = Some r \<or> queue_result_ok r)"
proof (cases e)
  case (Queue_attr_show Q f kobj attr)
  have u: "dom (snd (bpf_map_update_elem f BPF_EXIST name r m)) = dom m \<and>
      (\<forall>n r'. snd (bpf_map_update_elem f BPF_EXIST name r m) n = Some r' \<longrightarrow> m n = Some r' \<or> r' = r)"
    for name and r :: iolatency_queue_probe_result and m
    by (auto simp: bpf_map_update_elem_def)
  show ?thesis
    using u [of _ _ "p s"] queue_result_ok unfolding p_def Queue_attr_show io_latency_step.simps probe_queue_stats_def
    by (simp split: option.split prod.split) metis
qed (use accounts_bio_queue accounts_bio_remap accounts_request_remap accounts_request_complete
    accounts_css_released in \<open>auto simp: accounts_def p_def\<close>)

text \<open>Readers of a queue's iostats only complete pending checks: no run adds or removes an
  entry of the result map, so a late reader never recreates a removed result, and every result
  it stores is one of the documented ones, with the disk filled in exactly when the check
  reached a verdict on its statistics.\<close>

theorem queue_results:
  "dom (io_latency_probe_result (fold (io_latency_step cfg) es s)) = dom (io_latency_probe_result s) \<and>
   (\<forall>name r. io_latency_probe_result (fold (io_latency_step cfg) es s) name = Some r \<longrightarrow>
      io_latency_probe_result s name = Some r \<or> queue_result_ok r)"
proof (induction es arbitrary: s)
  case (Cons e es)
  show ?case using Cons.IH [of "io_latency_step cfg e s"] step_queue_results [of cfg e s]
    unfolding fold_simps by blast
qed simp

lemma crypto_scan_eq:
  "i + n \<le> 64 \<Longrightarrow>
   crypto_scan mem tfms modes n i v =
     (let bytes = map (\<lambda>j. mem (tfms + of_nat j)) [i ..< min (i + n) (max i (unat modes))]
      in if None \<in> set bytes then - EFAULT
         else if list_ex (\<lambda>b. b \<noteq> Some 0) bytes then IO_LATENCY_CRYPTO_INITIALIZED else v)"
proof (induction n arbitrary: i v)
  case (Suc n)
  have m: "modes \<le> of_nat i \<longleftrightarrow> unat modes \<le> i"
    using Suc.prems by (simp add: word_le_nat_alt unsigned_of_nat take_bit_nat_eq_self)
  show ?case
  proof (cases "unat modes \<le> i")
    case True
    then show ?thesis using m by simp
  next
    case False
    then have "[i ..< min (i + Suc n) (max i (unat modes))] =
        i # [Suc i ..< min (Suc i + n) (max (Suc i) (unat modes))]"
      by (subst upt_conv_Cons) (auto simp: max_def)
    then show ?thesis
      using False m Suc.IH [of "Suc i"] Suc.prems
      by (auto simp: Let_def simp del: upt_Suc split: option.split)
  qed
qed simp

text \<open>The crypto probe publishes one complete verdict and never revises it: over the flags
  of the kernel's modes, at most 64, it reports the fault if any of them cannot be read,
  initialised if one is set, and unused only if all were read as zero.\<close>

theorem crypto_verdict:
  "probe_crypto_fallback mem tfms modes (Some r) =
     Some (if r \<noteq> IO_LATENCY_CRYPTO_PENDING then r
           else let bytes = map (\<lambda>i. mem (tfms + of_nat i)) [0 ..< min 64 (unat modes)]
                in if None \<in> set bytes then - EFAULT
                   else if list_ex (\<lambda>b. b \<noteq> Some 0) bytes then IO_LATENCY_CRYPTO_INITIALIZED
                   else IO_LATENCY_CRYPTO_UNUSED)"
  using crypto_scan_eq [of 0 64 mem tfms modes] by (simp add: probe_crypto_fallback_def)

text \<open>C11. The latency histogram is the usual classification, although it is computed without
  branches: the bucket of an interval is the number of bounds below its length, missing
  timestamps give no sample, and a reversed interval counts as the first bucket for the queue
  stages and not at all for the device stage. Sizes are classified in the same way.\<close>

theorem histogram_reference:
  "io_latency_bucket start_ns end_ns queue_stage =
     (if start_ns = 0 \<or> end_ns = 0 then - 1
      else if end_ns < start_ns then (if queue_stage \<noteq> 0 then 0 else - 1)
      else int (length (filter (\<lambda>t. t < end_ns - start_ns) latency_bounds))) \<and>
   io_size_bucket bytes = int (length (filter (\<lambda>t. t < ucast bytes) size_bounds))"
  by (simp add: latency_bucket_eq size_bucket_eq bucket_of_def)

section \<open>A concrete request\<close>

text \<open>A read request at 100 of two bios of 4096 bytes on the disk at 50, dispatched at 20, on a
  kernel whose layout allows no combined read.\<close>

definition demo_kernel :: iolat_kernel where
  "demo_kernel =
     \<lparr>has_bi_disk = True, bi_disk = [1 \<mapsto> 50, 2 \<mapsto> 50], bi_bdev = Map.empty, bd_disk = Map.empty,
      bi_opf = [1 \<mapsto> 0, 2 \<mapsto> 0], bi_size = [1 \<mapsto> 4096, 2 \<mapsto> 4096], bi_next = [1 \<mapsto> 2, 2 \<mapsto> 0],
      bi_blkg = Map.empty, blkg_blkcg = Map.empty, blkcg_css_offset = 0, css_serial_nr = Map.empty,
      disk_major = Map.empty, disk_first_minor = Map.empty, pd_blkg = Map.empty,
      off_bi_disk = 0, off_bi_bdev = 0, off_bi_opf = 0, has_bi_partno = False, bi_partno = Map.empty,
      disk_part_tbl = Map.empty, part_tbl_part = Map.empty, part_devt = Map.empty, bd_dev = Map.empty,
      bi_flags = Map.empty, has_bi_issue = False, bi_issue = Map.empty, has_issue_time_ns = False,
      issue_time_ns = Map.empty, has_rq_disk = True, rq_disk = [100 \<mapsto> 50], rq_q = Map.empty,
      q_disk = Map.empty, cmd_flags = [100 \<mapsto> 0], rq_data_len = [100 \<mapsto> 8192], rq_bio = [100 \<mapsto> 1],
      rq_biotail = [100 \<mapsto> 2], start_time_ns = [100 \<mapsto> 10], io_start_time_ns = [100 \<mapsto> 20],
      has_stats_sectors = False, stats_sectors = Map.empty, aux_size = 0, aux_stats_sectors = Map.empty,
      off_cmd_flags = 0, off_data_len = 0, off_bio = 0, off_biotail = 0, off_start_time_ns = 0,
      off_io_start_time_ns = 0\<rparr>"

definition demo_config :: io_latency_config where
  "demo_config = \<lparr>block_bio_queue_bio_arg = 0, block_bio_remap_bio_arg = 0,
     block_rq_remap_request_arg = 0, io_latency_bio_trace_completion = 10, io_latency_root_blkcg = 0\<rparr>"

definition demo_host :: iolatency_host_counters where
  "demo_host = \<lparr>hc_major = 8, hc_minor = 0, hc_counters = \<lambda>_. zero_latency_counters, hc_scsi = 0\<rparr>"

definition demo_state :: io_latency_state where
  "demo_state = \<lparr>io_latency_group_map = Map.empty, blkdisk_lat_map = [50 \<mapsto> demo_host],
     blkcg_lat_map = Map.empty,
     io_latency_probe_result = [''sda'' \<mapsto> \<lparr>qp_result = 0, qp_major = 0, qp_minor = 0, qp_disk = 0\<rparr>],
     io_status = Some \<lparr>failure = 0, devices_changed = 0\<rparr>\<rparr>"

definition demo_args :: "nat \<Rightarrow> u64" where
  "demo_args = (\<lambda>_. 0)(0 := 100, 2 := 8192)"

definition demo_faults :: "nat \<Rightarrow> bio_faults" where
  "demo_faults = (\<lambda>_. (Fault_none, Fault_none))"

definition demo_completion :: request_completion where
  "demo_completion = completion_of demo_kernel 100 50 demo_host 30"

lemmas demo_defs = demo_kernel_def demo_config_def demo_host_def demo_state_def demo_args_def

lemma bio_chain_numeral:
  "bio_chain K (numeral v) bio =
     (if bio = 0 then [] else bio # bio_chain K (pred_numeral v) (core_read (bi_next K) bio))"
  by (simp add: numeral_eq_Suc)

lemma demo_chain: "bio_chain demo_kernel 512 1 = [1, 2]" "bio_chain demo_kernel 513 1 = [1, 2]"
  by (simp_all add: bio_chain_numeral demo_kernel_def core_read_def)

theorem completion_walk_witness:
  "trace_request_complete demo_config demo_kernel demo_faults demo_args 30 demo_state =
     complete_bio_latency demo_config demo_kernel (demo_faults 1) 2 demo_completion 0
       (complete_bio_latency demo_config demo_kernel (demo_faults 0) 1 demo_completion 8192 demo_state)"
proof -
  have "completed_operation demo_kernel 100 \<in> {REQ_OP_READ, REQ_OP_WRITE}"
    "request_bios demo_kernel 100 = (1, 0)" "io_latency_request_disk demo_kernel 100 = 50"
    "request_issued_bytes demo_kernel 100 demo_host 8192 (rc_issue_ns demo_completion) = 8192"
    "whole_bios demo_kernel 8192 [1, 2] = [1, 2]"
    by (simp_all add: completed_operation_def request_bios_def io_latency_request_disk_def header_snapshot_def
        request_issued_bytes_def request_bytes_def demo_completion_def completion_of_def request_times_def
        demo_kernel_def demo_host_def core_read_def Let_def)
  moreover have "blkdisk_lat_map demo_state 50 = Some demo_host" "demo_args 0 = 100" "ucast (demo_args 2) = (8192 :: u32)"
    by (simp_all add: demo_state_def demo_args_def)
  ultimately show ?thesis
    by (subst completion_walk [of demo_state 50 demo_host demo_args 100 8192 demo_kernel 1 0])
      (simp_all add: demo_completion_def [symmetric] demo_chain Let_def)
qed

text \<open>The first bio belongs to the container with css 32 and serial 7.\<close>

definition demo_container_kernel :: iolat_kernel where
  "demo_container_kernel = demo_kernel\<lparr>bi_blkg := [1 \<mapsto> 16], blkg_blkcg := [16 \<mapsto> 32], css_serial_nr := [32 \<mapsto> 7]\<rparr>"

theorem completion_mirrored_witness:
  "map_option (\<lambda>row. (issued_size row 1, buckets row IO_LATENCY_STAGE_D2C 0))
     (blkcg_lat_map (complete_bio_latency demo_config demo_container_kernel (Fault_none, Fault_none) 1 demo_completion 8192 demo_state)
        \<lparr>ck_blkcg = 32, ck_serial = 7, ck_major = 8, ck_minor = 0, ck_operation = 0, ck_kind = IO_LATENCY_ROW_COUNTERS\<rparr>) =
   Some (1, 1)"
proof -
  have c: "rc_host demo_completion = 50" "rc_operation demo_completion = 0" "rc_disk demo_completion = 0x800000000"
    "rc_d2c_bucket demo_completion = io_latency_bucket (rc_issue_ns demo_completion) (rc_now demo_completion) 0"
    "rc_d2c_bucket demo_completion = 0"
    by (simp_all add: demo_completion_def completion_of_def request_times_def completed_operation_def io_latency_bucket_def
        header_snapshot_def demo_kernel_def demo_host_def core_read_def word_cmp_nat)
  have row: "blkdisk_lat_map demo_state (rc_host demo_completion) = Some demo_host"
    by (simp add: c demo_state_def)
  have css: "32 = io_latency_bio_css demo_config demo_container_kernel 1"
    by (simp add: io_latency_bio_css_def demo_container_kernel_def demo_defs core_read_def)
  have size: "io_size_bucket 8192 = 1" by (simp add: size_bucket_eq bucket_of_def size_bounds_def word_cmp_nat)
  have b: "bio_buckets demo_container_kernel demo_completion 1 8192 = (- 1, - 1, 0, 1)"
    by (simp add: bio_buckets_def io_latency_bio_queue_ns_def demo_container_kernel_def demo_kernel_def c(5) size Let_def)
  have serial: "7 = (case io_latency_group_map demo_state 32 of Some gr \<Rightarrow> gs_serial gr
      | None \<Rightarrow> if fst (Fault_none, Fault_none) = Fault_none then core_read (css_serial_nr demo_container_kernel) 32 else 0)"
    by (simp add: demo_state_def demo_container_kernel_def core_read_def)
  have disk: "ucast (drop_bit 32 (0x800000000 :: u64)) = (8 :: u32)" "ucast (0x800000000 :: u64) = (0 :: u32)"
    by code_simp+
  from completion_mirrored [OF row c(4) refl css serial refl refl, of 8192]
  show ?thesis
    by (simp add: b c(1-3) disk bio_samples_def one_more_in_def row_or_zero_def zero_latency_counters_def demo_state_def)
qed

lemma demo_wf: "io_latency_wf demo_state"
  by (simp add: io_latency_wf_def demo_state_def demo_host_def host_wf_def)

theorem maps_well_formed_witness:
  "io_latency_wf (fold (io_latency_step demo_config)
     [Rq_remap demo_kernel demo_faults demo_args, Rq_complete demo_kernel demo_faults demo_args 30] demo_state)"
  by (rule maps_well_formed [OF demo_wf])

theorem failure_words_known_witness:
  "\<exists>st. io_status (fold (io_latency_step demo_config)
       [Rq_complete demo_kernel demo_faults demo_args 30, Css_free Fault_none Fault_none 7] demo_state) = Some st \<and>
     failure st \<in> insert 0 io_latency_words"
  using failure_words_known [of demo_state "\<lparr>failure = 0, devices_changed = 0\<rparr>" demo_config
      "[Rq_complete demo_kernel demo_faults demo_args 30, Css_free Fault_none Fault_none 7]"]
  by (simp add: demo_state_def)

definition demo_queue :: queue_kernel where
  "demo_queue =
     \<lparr>attr_name_of = [2 \<mapsto> 3], kobj_parent = [1 \<mapsto> 60], kobj_name = [60 \<mapsto> 4],
      str_at = [3 \<mapsto> ''iostats'', 4 \<mapsto> ''sda''], off_device_kobj = 10, has_bd_device = False,
      off_bd_device = 0, queue_bd_disk = Map.empty, off_part0_dev = 0, disk_queue = [50 \<mapsto> 70],
      q_mq_ops = Map.empty, q_stats = [70 \<mapsto> 80], off_callbacks = 8, callbacks_next = [80 \<mapsto> 88],
      has_accounting = True, stats_accounting = [80 \<mapsto> 1], stats_enable_accounting = Map.empty,
      queue_disk_major = [50 \<mapsto> 8], queue_disk_minor = [50 \<mapsto> 0]\<rparr>"

lemma demo_queue_result:
  "io_latency_probe_result (probe_queue_stats demo_queue Fault_none 1 2 demo_state) =
     [''sda'' \<mapsto> \<lparr>qp_result = IO_LATENCY_PROBE_SUPPORTED, qp_major = 8, qp_minor = 0, qp_disk = 50\<rparr>]"
  by (simp add: probe_queue_stats_def demo_queue_def demo_state_def probe_read_str_def name_byte_def
      queue_probe_result_def queue_probe_sample_def io_latency_device_disk_def)

lemma demo_probe_result:
  "io_latency_probe_result demo_state = [''sda'' \<mapsto> \<lparr>qp_result = 0, qp_major = 0, qp_minor = 0, qp_disk = 0\<rparr>]"
  by (simp add: demo_state_def)

end
