(* ===== verification/Io_Health.thy ===== *)
theory Io_Health
  imports Bpf_Prelude
begin

text \<open>
  \<^verbatim>\<open>bpf/io_health.c\<close> with the layouts of \<^verbatim>\<open>abi/io_health_types.h\<close>: block errors, SCSI and
  NVMe events with the identity of their device. \<open>health_events\<close> is the list of events
  handed to the perf buffer, whose result the probes ignore. The names of NVMe controllers are learned through sysfs and the calls that add
  and delete their character devices; entry and return of a call are paired by thread.
  Signed 32-bit values are integers.
\<close>

section \<open>Model\<close>

record io_health_event =
  he_sector :: u64
  he_dev :: u32
  he_status :: int
  he_host :: u32
  he_channel :: u32
  he_target :: u32
  he_lun :: u32
  he_controller :: string
  he_new_state_raw :: u32
  he_type :: u8
  he_operation :: u8
  he_rwbs :: string
  he_topology_generation :: u64

record nvme_state_call =
  sc_ctrl :: u64
  sc_new_state_raw :: u32

record nvme_cdev_call =
  cc_ctrl :: u64
  cc_name :: string

record io_health_state =
  io_health_freeze_counts :: "u64 \<rightharpoonup> u64"
  io_health_topology :: "u64 option"
  nvme_ctrl_names :: "u64 \<rightharpoonup> string"
  nvme_cdev_calls :: "u64 \<rightharpoonup> nvme_cdev_call"
  nvme_state_calls :: "u64 \<rightharpoonup> nvme_state_call"
  nvme_reset_calls :: "u64 \<rightharpoonup> u64"
  health_events :: "io_health_event list"

record io_health_config =
  io_health_rqf_quiet_mask :: u32
  io_health_blk_errors_addr :: u64
  io_health_blk_errors_stride :: u32
  io_health_blk_errors_count :: u32

text \<open>Kernel memory; \<open>hk_disk_name\<close> is the five-byte read of a disk's name, \<open>hk_s32\<close> memory read
  as signed 32-bit values.\<close>

record health_kernel =
  hk_str :: "u64 \<Rightarrow> string option"
  hk_s32 :: "u64 \<Rightarrow> int option"
  dev_type :: "u64 \<Rightarrow> u64 option"
  type_name :: "u64 \<Rightarrow> u64 option"
  hk_disk_name :: "u64 \<Rightarrow> string option"
  hk_disk_major :: "u64 \<Rightarrow> u32 option"
  hk_disk_first_minor :: "u64 \<Rightarrow> u32 option"
  hk_has_q_disk :: bool
  hk_q_disk :: "u64 \<Rightarrow> u64 option"
  hk_q_kobj_parent :: "u64 \<Rightarrow> u64 option"
  hk_off_device_kobj :: u64
  hk_off_part0_dev :: u64
  hk_has_rq_disk :: bool
  hk_rq_disk :: "u64 \<Rightarrow> u64 option"
  hk_rq_q :: "u64 \<Rightarrow> u64 option"
  hk_sector :: "u64 \<Rightarrow> u64 option"
  hk_cmd_flags :: "u64 \<Rightarrow> u32 option"
  hk_rq_bio :: "u64 \<Rightarrow> u64 option"
  hk_rq_flags :: "u64 \<Rightarrow> u32 option"
  dev_class :: "u64 \<Rightarrow> u64 option"
  class_name :: "u64 \<Rightarrow> u64 option"
  dev_driver_data :: "u64 \<Rightarrow> u64 option"
  dev_kobj_name :: "u64 \<Rightarrow> u64 option"

abbreviation (input) "HEALTH_EVENT_BLOCK_ERROR \<equiv> 1 :: u8"
abbreviation (input) "HEALTH_EVENT_SCSI_TIMEOUT \<equiv> 2 :: u8"
abbreviation (input) "HEALTH_EVENT_SCSI_DISPATCH_ERROR \<equiv> 3 :: u8"
abbreviation (input) "HEALTH_EVENT_NVME_TIMEOUT \<equiv> 4 :: u8"
abbreviation (input) "HEALTH_EVENT_NVME_RESET \<equiv> 5 :: u8"
abbreviation (input) "HEALTH_EVENT_NVME_STATE_CHANGE \<equiv> 6 :: u8"

abbreviation (input) "HEALTH_REQ_OP_MASK \<equiv> push_bit 8 1 - 1 :: u32"
abbreviation (input) "BPF_DEV_MINOR_BITS \<equiv> 20 :: nat"
abbreviation (input) "BPF_DEV_MINOR_MASK \<equiv> push_bit BPF_DEV_MINOR_BITS 1 - 1 :: u32"

text \<open>An event initialised with its type and the topology generation, all else zero.\<close>

definition fresh_event :: "u8 \<Rightarrow> u64 \<Rightarrow> io_health_event" where
  "fresh_event type generation =
     \<lparr>he_sector = 0, he_dev = 0, he_status = 0, he_host = 0, he_channel = 0, he_target = 0, he_lun = 0,
      he_controller = '''', he_new_state_raw = 0, he_type = type, he_operation = 0, he_rwbs = '''',
      he_topology_generation = generation\<rparr>"

definition io_health_topology_generation :: "bool \<Rightarrow> io_health_state \<Rightarrow> u64 \<times> io_health_state" where
  "io_health_topology_generation changed s =
     (case io_health_topology s of None \<Rightarrow> (0, s)
      | Some generation \<Rightarrow>
          let generation' = (if changed then generation + 1 else generation)
          in (generation', s\<lparr>io_health_topology := Some generation'\<rparr>))"

definition io_health_disk_publishing :: "health_kernel \<Rightarrow> u64 \<Rightarrow> io_health_state \<Rightarrow> io_health_state" where
  "io_health_disk_publishing K dev s =
     (if dev = 0 then s
      else
        let type = core_read (dev_type K) dev
        in if type = 0 then s
           else case type_name K type of None \<Rightarrow> s
           | Some p \<Rightarrow>
               (case probe_read_str (hk_str K) 6 p of None \<Rightarrow> s
                | Some (ret, name) \<Rightarrow>
                    if ret \<noteq> 5 then s
                    else if name_byte name 0 = CHR ''d'' \<and> name_byte name 1 = CHR ''i'' \<and>
                            name_byte name 2 = CHR ''s'' \<and> name_byte name 3 = CHR ''k''
                    then snd (io_health_topology_generation True s) else s))"

definition io_health_freeze_key :: "health_kernel \<Rightarrow> u64 \<Rightarrow> u64" where
  "io_health_freeze_key K disk =
     (if disk = 0 then 0
      else case hk_disk_name K disk of None \<Rightarrow> 0
      | Some name \<Rightarrow>
          if \<not> (name_byte name 0 = CHR ''s'' \<and> name_byte name 1 = CHR ''d'' \<or>
                name_byte name 0 = CHR ''v'' \<and> name_byte name 1 = CHR ''d'' \<or>
                name_byte name 0 = CHR ''n'' \<and> name_byte name 1 = CHR ''v'' \<and>
                name_byte name 2 = CHR ''m'' \<and> name_byte name 3 = CHR ''e'')
          then 0
          else push_bit 32 (ucast (core_read (hk_disk_major K) disk)) OR
               ucast (core_read (hk_disk_first_minor K) disk))"

definition io_health_freeze_disk_added ::
  "health_kernel \<Rightarrow> map_fault \<Rightarrow> u64 \<Rightarrow> io_health_state \<Rightarrow> io_health_state" where
  "io_health_freeze_disk_added K f disk s =
     (let key = io_health_freeze_key K disk
      in if key \<noteq> 0
         then s\<lparr>io_health_freeze_counts := snd (bpf_map_update_elem f BPF_ANY key 0 (io_health_freeze_counts s))\<rparr>
         else s)"

definition io_health_freeze_disk_removed ::
  "health_kernel \<Rightarrow> map_fault \<Rightarrow> u64 \<Rightarrow> io_health_state \<Rightarrow> io_health_state" where
  "io_health_freeze_disk_removed K f disk s =
     (let s1 = snd (io_health_topology_generation True s); key = io_health_freeze_key K disk
      in if key \<noteq> 0
         then s1\<lparr>io_health_freeze_counts := snd (bpf_map_delete_elem f key (io_health_freeze_counts s1))\<rparr>
         else s1)"

definition io_health_freeze_disk :: "health_kernel \<Rightarrow> u64 \<Rightarrow> u64" where
  "io_health_freeze_disk K q =
     (if hk_has_q_disk K then core_read (hk_q_disk K) q
      else
        let parent = core_read (hk_q_kobj_parent K) q
        in if parent = 0 then 0 else parent - hk_off_device_kobj K - hk_off_part0_dev K)"

definition io_health_freeze_queue ::
  "health_kernel \<Rightarrow> map_fault \<Rightarrow> u64 \<Rightarrow> io_health_state \<Rightarrow> io_health_state" where
  "io_health_freeze_queue K f q s =
     (let key = io_health_freeze_key K (io_health_freeze_disk K q)
      in if key = 0 then s
         else case io_health_freeze_counts s key of
           Some count \<Rightarrow> s\<lparr>io_health_freeze_counts := (io_health_freeze_counts s)(key \<mapsto> count + 1)\<rparr>
         | None \<Rightarrow>
             let (ret, m) = bpf_map_update_elem f BPF_NOEXIST key 1 (io_health_freeze_counts s)
             in if ret = 0 then s\<lparr>io_health_freeze_counts := m\<rparr>
                else s\<lparr>io_health_freeze_counts := m(key := map_option (\<lambda>c. c + 1) (m key))\<rparr>)"

definition encode_dev :: "u32 \<Rightarrow> u32 \<Rightarrow> u32" where
  "encode_dev major minor =
     push_bit BPF_DEV_MINOR_BITS (major AND 0xfff) OR (minor AND BPF_DEV_MINOR_MASK)"

definition request_disk :: "health_kernel \<Rightarrow> u64 \<Rightarrow> u64" where
  "request_disk K req =
     (if hk_has_rq_disk K then core_read (hk_rq_disk K) req
      else if hk_has_q_disk K then core_read (hk_q_disk K) (core_read (hk_rq_q K) req)
      else 0)"

definition request_dev :: "health_kernel \<Rightarrow> u64 \<Rightarrow> u32" where
  "request_dev K req =
     (let disk = request_disk K req
      in if disk = 0 then 0
         else encode_dev (core_read (hk_disk_major K) disk) (core_read (hk_disk_first_minor K) disk))"

definition request_operation :: "health_kernel \<Rightarrow> u64 \<Rightarrow> u8" where
  "request_operation K req = ucast (core_read (hk_cmd_flags K) req AND HEALTH_REQ_OP_MASK)"

definition submit_event :: "io_health_event \<Rightarrow> io_health_state \<Rightarrow> io_health_state" where
  "submit_event event s = s\<lparr>health_events := health_events s @ [event]\<rparr>"

definition set_nvme_controller :: "u64 \<Rightarrow> io_health_state \<Rightarrow> io_health_event \<Rightarrow> io_health_event" where
  "set_nvme_controller ctrl s event =
     (case nvme_ctrl_names s ctrl of None \<Rightarrow> event | Some name \<Rightarrow> event\<lparr>he_controller := name\<rparr>)"

text \<open>The controller and its name, \<open>None\<close> for the result false.\<close>

definition read_nvme_controller :: "health_kernel \<Rightarrow> u64 \<Rightarrow> nvme_cdev_call option" where
  "read_nvme_controller K dev =
     (if dev = 0 then None
      else
        let cls = core_read (dev_class K) dev
        in if cls = 0 then None
           else
             let class_name_ptr = core_read (class_name K) cls
             in if class_name_ptr = 0 then None
                else case probe_read_str (hk_str K) 5 class_name_ptr of None \<Rightarrow> None
                | Some (ret, cn) \<Rightarrow>
                    if ret \<noteq> 5 then None
                    else if name_byte cn 0 \<noteq> CHR ''n'' \<or> name_byte cn 1 \<noteq> CHR ''v'' \<or>
                            name_byte cn 2 \<noteq> CHR ''m'' \<or> name_byte cn 3 \<noteq> CHR ''e'' \<or>
                            name_byte cn 4 \<noteq> CHR 0x00
                    then None
                    else
                      let ctrl = core_read (dev_driver_data K) dev;
                          name_ptr = core_read (dev_kobj_name K) dev
                      in if ctrl = 0 \<or> name_ptr = 0 then None
                         else case probe_read_str (hk_str K) 16 name_ptr of None \<Rightarrow> None
                         | Some (len, name) \<Rightarrow>
                             if 1 < len then Some \<lparr>cc_ctrl = ctrl, cc_name = name\<rparr> else None)"

section \<open>Block and SCSI errors\<close>

definition submit_block_error ::
  "health_kernel \<Rightarrow> u64 \<Rightarrow> int \<Rightarrow> io_health_state \<Rightarrow> io_health_state" where
  "submit_block_error K req status s =
     (let (generation, s1) = io_health_topology_generation False s
      in if req = 0 then s1
         else submit_event ((fresh_event HEALTH_EVENT_BLOCK_ERROR generation)
                \<lparr>he_status := status, he_dev := request_dev K req, he_sector := core_read (hk_sector K) req,
                 he_operation := request_operation K req\<rparr>) s1)"

text \<open>The fields of the error tracepoint, if its layout has the error.\<close>

record rq_completion_ctx =
  rq_has_error :: bool
  rq_dev :: u32
  rq_sector :: u64
  rq_error :: int
  rq_rwbs :: string

definition trace_block_rq_error :: "rq_completion_ctx \<Rightarrow> io_health_state \<Rightarrow> io_health_state" where
  "trace_block_rq_error ctx s =
     (let (generation, s1) = io_health_topology_generation False s
      in if \<not> rq_has_error ctx then s1
         else submit_event ((fresh_event HEALTH_EVENT_BLOCK_ERROR generation)
                \<lparr>he_operation := ucast HEALTH_REQ_OP_MASK, he_dev := rq_dev ctx, he_sector := rq_sector ctx,
                 he_status := rq_error ctx, he_rwbs := rq_rwbs ctx\<rparr>) s1)"

fun errors_prefix :: "(u64 \<Rightarrow> int option) \<Rightarrow> u64 \<Rightarrow> u32 \<Rightarrow> nat \<Rightarrow> int list \<Rightarrow> bool" where
  "errors_prefix mem base stride i [] = True"
| "errors_prefix mem base stride i (p # ps) =
     (case mem (base + of_nat i * ucast stride) of
        None \<Rightarrow> False
      | Some error \<Rightarrow> error = p \<and> errors_prefix mem base stride (Suc i) ps)"

definition io_health_block_errno :: "io_health_config \<Rightarrow> (u64 \<Rightarrow> int option) \<Rightarrow> int \<Rightarrow> int" where
  "io_health_block_errno cfg mem status =
     (let base = io_health_blk_errors_addr cfg; stride = io_health_blk_errors_stride cfg
      in if status \<le> 0 \<or> base = 0 \<or> io_health_blk_errors_count cfg \<le> word_of_int status then status
         else if \<not> errors_prefix mem base stride 0 [0, - 95, - 110, - 28] then status
         else case mem (base + word_of_int status * ucast stride) of
                None \<Rightarrow> status
              | Some error \<Rightarrow> if 0 \<le> error then status else error)"

definition trace_block_rq_complete_error ::
  "io_health_config \<Rightarrow> health_kernel \<Rightarrow> (nat \<Rightarrow> u64) \<Rightarrow> io_health_state \<Rightarrow> io_health_state" where
  "trace_block_rq_complete_error cfg K args s =
     (let req = args 0; status = sint (ucast (args 1) :: u32);
          operation = core_read (hk_cmd_flags K) req AND HEALTH_REQ_OP_MASK
      in if status = 0 \<or> req = 0 then s
         else if core_read (hk_rq_bio K) req = 0 then s
         else if operation = 32 \<or> operation = 33 \<or> operation = 34 \<or> operation = 35 then s
         else if core_read (hk_rq_flags K) req AND io_health_rqf_quiet_mask cfg \<noteq> 0 then s
         else submit_block_error K req (io_health_block_errno cfg (hk_s32 K) status) s)"

record io_health_scsi_timeout_ctx =
  sx_host_no :: u32
  sx_channel :: u32
  sx_id :: u32
  sx_lun :: u32

record io_health_scsi_dispatch_error_ctx = io_health_scsi_timeout_ctx +
  sx_rtn :: int

definition trace_scsi_timeout :: "io_health_scsi_timeout_ctx \<Rightarrow> io_health_state \<Rightarrow> io_health_state" where
  "trace_scsi_timeout ctx s =
     (let (generation, s1) = io_health_topology_generation False s
      in submit_event ((fresh_event HEALTH_EVENT_SCSI_TIMEOUT generation)
           \<lparr>he_host := sx_host_no ctx, he_channel := sx_channel ctx, he_target := sx_id ctx,
            he_lun := sx_lun ctx\<rparr>) s1)"

definition trace_scsi_dispatch_error ::
  "io_health_scsi_dispatch_error_ctx \<Rightarrow> io_health_state \<Rightarrow> io_health_state" where
  "trace_scsi_dispatch_error ctx s =
     (let (generation, s1) = io_health_topology_generation False s
      in submit_event ((fresh_event HEALTH_EVENT_SCSI_DISPATCH_ERROR generation)
           \<lparr>he_status := sx_rtn ctx, he_host := sx_host_no ctx, he_channel := sx_channel ctx,
            he_target := sx_id ctx, he_lun := sx_lun ctx\<rparr>) s1)"

section \<open>NVMe controllers\<close>

text \<open>\<open>rc\<close> is the return value of the traced function; \<open>pid_tgid\<close> the current thread.\<close>

definition kprobe_nvme_sysfs_show_state ::
  "health_kernel \<Rightarrow> map_fault \<Rightarrow> u64 \<Rightarrow> io_health_state \<Rightarrow> io_health_state" where
  "kprobe_nvme_sysfs_show_state K f dev s =
     (case read_nvme_controller K dev of None \<Rightarrow> s
      | Some c \<Rightarrow>
          s\<lparr>nvme_ctrl_names := snd (bpf_map_update_elem f BPF_ANY (cc_ctrl c) (cc_name c) (nvme_ctrl_names s))\<rparr>)"

definition kprobe_nvme_cdev_add ::
  "health_kernel \<Rightarrow> map_fault \<Rightarrow> u64 \<Rightarrow> u64 \<Rightarrow> io_health_state \<Rightarrow> io_health_state" where
  "kprobe_nvme_cdev_add K f pid_tgid dev s =
     (case read_nvme_controller K dev of None \<Rightarrow> s
      | Some call \<Rightarrow>
          s\<lparr>nvme_cdev_calls := snd (bpf_map_update_elem f BPF_ANY pid_tgid call (nvme_cdev_calls s))\<rparr>)"

definition kretprobe_nvme_cdev_add ::
  "map_fault \<Rightarrow> map_fault \<Rightarrow> u64 \<Rightarrow> u64 \<Rightarrow> io_health_state \<Rightarrow> io_health_state" where
  "kretprobe_nvme_cdev_add fn fc pid_tgid rc s =
     (case nvme_cdev_calls s pid_tgid of None \<Rightarrow> s
      | Some call \<Rightarrow>
          let s1 = (if rc = 0
                    then s\<lparr>nvme_ctrl_names :=
                             snd (bpf_map_update_elem fn BPF_ANY (cc_ctrl call) (cc_name call) (nvme_ctrl_names s))\<rparr>
                    else s)
          in s1\<lparr>nvme_cdev_calls := snd (bpf_map_delete_elem fc pid_tgid (nvme_cdev_calls s1))\<rparr>)"

definition kprobe_nvme_cdev_del ::
  "health_kernel \<Rightarrow> map_fault \<Rightarrow> u64 \<Rightarrow> u64 \<Rightarrow> io_health_state \<Rightarrow> io_health_state" where
  "kprobe_nvme_cdev_del K f pid_tgid dev s =
     (case read_nvme_controller K dev of None \<Rightarrow> s
      | Some call \<Rightarrow>
          s\<lparr>nvme_cdev_calls := snd (bpf_map_update_elem f BPF_ANY pid_tgid call (nvme_cdev_calls s))\<rparr>)"

definition kretprobe_nvme_cdev_del ::
  "map_fault \<Rightarrow> map_fault \<Rightarrow> u64 \<Rightarrow> io_health_state \<Rightarrow> io_health_state" where
  "kretprobe_nvme_cdev_del fc fn pid_tgid s =
     (case nvme_cdev_calls s pid_tgid of None \<Rightarrow> s
      | Some call \<Rightarrow>
          s\<lparr>nvme_cdev_calls := snd (bpf_map_delete_elem fc pid_tgid (nvme_cdev_calls s)),
            nvme_ctrl_names := snd (bpf_map_delete_elem fn (cc_ctrl call) (nvme_ctrl_names s))\<rparr>)"

definition kprobe_nvme_timeout :: "health_kernel \<Rightarrow> u64 \<Rightarrow> io_health_state \<Rightarrow> io_health_state" where
  "kprobe_nvme_timeout K req s =
     (let (generation, s1) = io_health_topology_generation False s
      in if req = 0 then s1
         else submit_event ((fresh_event HEALTH_EVENT_NVME_TIMEOUT generation)\<lparr>he_dev := request_dev K req\<rparr>) s1)"

definition kprobe_nvme_reset ::
  "map_fault \<Rightarrow> u64 \<Rightarrow> u64 \<Rightarrow> io_health_state \<Rightarrow> io_health_state" where
  "kprobe_nvme_reset f pid_tgid ctrl s =
     s\<lparr>nvme_reset_calls := snd (bpf_map_update_elem f BPF_ANY pid_tgid ctrl (nvme_reset_calls s))\<rparr>"

definition kretprobe_nvme_reset ::
  "map_fault \<Rightarrow> u64 \<Rightarrow> u64 \<Rightarrow> io_health_state \<Rightarrow> io_health_state" where
  "kretprobe_nvme_reset f pid_tgid rc s =
     (let (generation, s1) = io_health_topology_generation False s;
          event = fresh_event HEALTH_EVENT_NVME_RESET generation
      in case nvme_reset_calls s1 pid_tgid of None \<Rightarrow> s1
         | Some ctrl \<Rightarrow>
             let s2 = s1\<lparr>nvme_reset_calls := snd (bpf_map_delete_elem f pid_tgid (nvme_reset_calls s1))\<rparr>
             in if rc \<noteq> 0 then s2
                else submit_event (if ctrl \<noteq> 0 then set_nvme_controller ctrl s2 event else event) s2)"

definition kprobe_nvme_change_state ::
  "map_fault \<Rightarrow> u64 \<Rightarrow> u64 \<Rightarrow> u32 \<Rightarrow> io_health_state \<Rightarrow> io_health_state" where
  "kprobe_nvme_change_state f pid_tgid ctrl new_state s =
     (if ctrl \<noteq> 0
      then s\<lparr>nvme_state_calls :=
               snd (bpf_map_update_elem f BPF_ANY pid_tgid
                      \<lparr>sc_ctrl = ctrl, sc_new_state_raw = new_state\<rparr> (nvme_state_calls s))\<rparr>
      else s)"

definition kretprobe_nvme_change_state ::
  "map_fault \<Rightarrow> u64 \<Rightarrow> u64 \<Rightarrow> io_health_state \<Rightarrow> io_health_state" where
  "kretprobe_nvme_change_state f pid_tgid rc s =
     (let (generation, s1) = io_health_topology_generation False s;
          event = fresh_event HEALTH_EVENT_NVME_STATE_CHANGE generation
      in case nvme_state_calls s1 pid_tgid of None \<Rightarrow> s1
         | Some call \<Rightarrow>
             let s2 = (if rc \<noteq> 0
                       then submit_event ((set_nvme_controller (sc_ctrl call) s1 event)
                              \<lparr>he_new_state_raw := sc_new_state_raw call\<rparr>) s1
                       else s1)
             in s2\<lparr>nvme_state_calls := snd (bpf_map_delete_elem f pid_tgid (nvme_state_calls s2))\<rparr>)"

section \<open>Runs\<close>

text \<open>One firing of any probe of the object.\<close>

datatype health_probe =
    Disk_publishing health_kernel u64
  | Disk_added health_kernel map_fault u64
  | Disk_removed health_kernel map_fault u64
  | Freeze_queue health_kernel map_fault u64
  | Rq_error rq_completion_ctx
  | Rq_complete io_health_config health_kernel "nat \<Rightarrow> u64"
  | Scsi_timeout io_health_scsi_timeout_ctx
  | Scsi_dispatch_error io_health_scsi_dispatch_error_ctx
  | Show_state health_kernel map_fault u64
  | Cdev_add health_kernel map_fault u64 u64
  | Cdev_add_ret map_fault map_fault u64 u64
  | Cdev_del health_kernel map_fault u64 u64
  | Cdev_del_ret map_fault map_fault u64
  | Nvme_timeout health_kernel u64
  | Nvme_reset map_fault u64 u64
  | Nvme_reset_ret map_fault u64 u64
  | Change_state map_fault u64 u64 u32
  | Change_state_ret map_fault u64 u64

fun health_step :: "health_probe \<Rightarrow> io_health_state \<Rightarrow> io_health_state" where
  "health_step (Disk_publishing K dev) s = io_health_disk_publishing K dev s"
| "health_step (Disk_added K f disk) s = io_health_freeze_disk_added K f disk s"
| "health_step (Disk_removed K f disk) s = io_health_freeze_disk_removed K f disk s"
| "health_step (Freeze_queue K f q) s = io_health_freeze_queue K f q s"
| "health_step (Rq_error ctx) s = trace_block_rq_error ctx s"
| "health_step (Rq_complete cfg K args) s = trace_block_rq_complete_error cfg K args s"
| "health_step (Scsi_timeout ctx) s = trace_scsi_timeout ctx s"
| "health_step (Scsi_dispatch_error ctx) s = trace_scsi_dispatch_error ctx s"
| "health_step (Show_state K f dev) s = kprobe_nvme_sysfs_show_state K f dev s"
| "health_step (Cdev_add K f pid dev) s = kprobe_nvme_cdev_add K f pid dev s"
| "health_step (Cdev_add_ret fn fc pid rc) s = kretprobe_nvme_cdev_add fn fc pid rc s"
| "health_step (Cdev_del K f pid dev) s = kprobe_nvme_cdev_del K f pid dev s"
| "health_step (Cdev_del_ret fc fn pid) s = kretprobe_nvme_cdev_del fc fn pid s"
| "health_step (Nvme_timeout K req) s = kprobe_nvme_timeout K req s"
| "health_step (Nvme_reset f pid ctrl) s = kprobe_nvme_reset f pid ctrl s"
| "health_step (Nvme_reset_ret f pid rc) s = kretprobe_nvme_reset f pid rc s"
| "health_step (Change_state f pid ctrl st) s = kprobe_nvme_change_state f pid ctrl st s"
| "health_step (Change_state_ret f pid rc) s = kretprobe_nvme_change_state f pid rc s"

definition health_run :: "health_probe list \<Rightarrow> io_health_state \<Rightarrow> io_health_state" where
  "health_run es s = fold health_step es s"

end
