(* ===== verification/Io_Health_Facts.thy ===== *)
theory Io_Health_Facts
  imports Io_Health
begin

text \<open>
  What the probes of \<open>Io_Health\<close> guarantee. An event submitted before a disk was published or
  removed is recognisable by its generation. The entry of an NVMe call meets its own return
  whatever other threads, and other kinds of calls of the same thread, do in between (locale
  \<open>thread_calls\<close>, shared by the three call maps),
  a controller's name is gone once its character device is deleted, and a registered disk's
  freezes are counted exactly.
\<close>

section \<open>Frames\<close>

lemmas nvme_call_defs =
  kprobe_nvme_cdev_add_def kretprobe_nvme_cdev_add_def kprobe_nvme_cdev_del_def
  kretprobe_nvme_cdev_del_def kprobe_nvme_reset_def kretprobe_nvme_reset_def
  kprobe_nvme_change_state_def kretprobe_nvme_change_state_def
  kprobe_nvme_sysfs_show_state_def kprobe_nvme_timeout_def

lemmas disk_probe_defs =
  io_health_disk_publishing_def io_health_freeze_disk_added_def
  io_health_freeze_disk_removed_def io_health_freeze_queue_def

lemmas error_probe_defs =
  trace_block_rq_error_def trace_block_rq_complete_error_def submit_block_error_def
  trace_scsi_timeout_def trace_scsi_dispatch_error_def

lemma topology_read [simp]:
  "io_health_topology_generation False s = (case io_health_topology s of None \<Rightarrow> 0 | Some g \<Rightarrow> g, s)"
  by (cases "io_health_topology s") (simp_all add: io_health_topology_generation_def)

lemma topology_change [simp]:
  "snd (io_health_topology_generation True s) =
     s\<lparr>io_health_topology := map_option (\<lambda>g. g + 1) (io_health_topology s)\<rparr>"
  by (cases "io_health_topology s") (simp_all add: io_health_topology_generation_def Let_def)

lemma submit_event_sel [simp]:
  "health_events (submit_event e s) = health_events s @ [e]"
  "io_health_topology (submit_event e s) = io_health_topology s"
  "io_health_freeze_counts (submit_event e s) = io_health_freeze_counts s"
  "nvme_ctrl_names (submit_event e s) = nvme_ctrl_names s"
  "nvme_cdev_calls (submit_event e s) = nvme_cdev_calls s"
  "nvme_state_calls (submit_event e s) = nvme_state_calls s"
  "nvme_reset_calls (submit_event e s) = nvme_reset_calls s"
  by (simp_all add: submit_event_def)

lemma set_nvme_controller_generation [simp]:
  "he_topology_generation (set_nvme_controller c s e) = he_topology_generation e"
  by (simp add: set_nvme_controller_def split: option.split)

lemma fresh_event_generation [simp]: "he_topology_generation (fresh_event t g) = g"
  by (simp add: fresh_event_def)

text \<open>Publishing a disk, said on the name of the device type itself.\<close>

definition publishes_disk :: "health_kernel \<Rightarrow> u64 \<Rightarrow> bool" where
  "publishes_disk K dev =
     (dev \<noteq> 0 \<and> core_read (dev_type K) dev \<noteq> 0 \<and>
      Option.bind (type_name K (core_read (dev_type K) dev)) (hk_str K) = Some ''disk'')"

lemma disk_name_bytes:
  "(min (length n + 1) 6 = 5 \<and> name_byte (take 5 n) 0 = CHR ''d'' \<and> name_byte (take 5 n) 1 = CHR ''i'' \<and>
    name_byte (take 5 n) 2 = CHR ''s'' \<and> name_byte (take 5 n) 3 = CHR ''k'') \<longleftrightarrow> n = ''disk''"
proof
  assume bytes: "min (length n + 1) 6 = 5 \<and> name_byte (take 5 n) 0 = CHR ''d'' \<and>
    name_byte (take 5 n) 1 = CHR ''i'' \<and> name_byte (take 5 n) 2 = CHR ''s'' \<and>
    name_byte (take 5 n) 3 = CHR ''k''"
  then have "length n = 4" by (simp add: min_def split: if_splits)
  then obtain a b c d where "n = [a, b, c, d]"
    by (auto simp: eval_nat_numeral length_Suc_conv)
  with bytes show "n = ''disk''" by (simp add: name_byte_def)
qed (simp add: name_byte_def)

lemma disk_publishing_spec:
  "io_health_disk_publishing K dev s =
     (if publishes_disk K dev
      then s\<lparr>io_health_topology := map_option (\<lambda>g. g + 1) (io_health_topology s)\<rparr> else s)"
proof (cases "Option.bind (type_name K (core_read (dev_type K) dev)) (hk_str K)")
  case None
  then show ?thesis
    by (auto simp: io_health_disk_publishing_def publishes_disk_def probe_read_str_def Let_def
        split: option.splits)
next
  case (Some n)
  then obtain p where "type_name K (core_read (dev_type K) dev) = Some p" "hk_str K p = Some n"
    by (cases "type_name K (core_read (dev_type K) dev)") auto
  then show ?thesis using disk_name_bytes [of n]
    by (auto simp: io_health_disk_publishing_def publishes_disk_def probe_read_str_def Let_def)
qed

section \<open>The topology generation\<close>

definition replaces :: "health_probe \<Rightarrow> bool" where
  "replaces e = (case e of Disk_publishing K dev \<Rightarrow> publishes_disk K dev
                 | Disk_removed K f disk \<Rightarrow> True | _ \<Rightarrow> False)"

lemma topology_step:
  "io_health_topology (health_step e s) =
     (if replaces e then map_option (\<lambda>g. g + 1) (io_health_topology s) else io_health_topology s)"
  by (cases e)
    (simp_all add: replaces_def disk_publishing_spec io_health_freeze_disk_added_def
      io_health_freeze_disk_removed_def io_health_freeze_queue_def nvme_call_defs error_probe_defs
      Let_def split: option.splits prod.splits)

text \<open>The events a firing adds carry the generation of the state it fired in.\<close>

definition stamps :: "u64 option \<Rightarrow> io_health_event list \<Rightarrow> bool" where
  "stamps g es = list_all (\<lambda>e. g = None \<or> g = Some (he_topology_generation e)) es"

definition adds_events :: "io_health_state \<Rightarrow> io_health_state \<Rightarrow> bool" where
  "adds_events s s' =
     (\<exists>es. health_events s' = health_events s @ es \<and> stamps (io_health_topology s) es)"

lemma adds_none: "health_events s' = health_events s \<Longrightarrow> adds_events s s'"
  by (auto simp: adds_events_def stamps_def)

lemma adds_one:
  "health_events s' = health_events s @ [e] \<Longrightarrow>
   he_topology_generation e = (case io_health_topology s of None \<Rightarrow> 0 | Some g \<Rightarrow> g) \<Longrightarrow>
   adds_events s s'"
  by (auto simp: adds_events_def stamps_def split: option.splits)

lemma events_step: "adds_events s (health_step e s)"
  by (cases e)
    (auto simp: disk_publishing_spec io_health_freeze_disk_added_def io_health_freeze_disk_removed_def
      io_health_freeze_queue_def nvme_call_defs error_probe_defs Let_def
      split: option.splits prod.splits intro: adds_none adds_one)

text \<open>After \<open>n\<close> changes the generation is \<open>n\<close>, and no event in the log is from the future.\<close>

definition stamped :: "nat \<Rightarrow> io_health_event \<Rightarrow> bool" where
  "stamped n e = (\<exists>k\<le>n. he_topology_generation e = of_nat k)"

lemma stamped_Suc: "stamped n e \<Longrightarrow> stamped (Suc n) e"
  unfolding stamped_def using le_SucI by blast

lemma stamped_now: "of_nat n = he_topology_generation e \<Longrightarrow> stamped n e"
  unfolding stamped_def by (intro exI [of _ n]) simp

definition snapshot_inv :: "nat \<Rightarrow> io_health_state \<Rightarrow> bool" where
  "snapshot_inv n s =
     (io_health_topology s = Some (of_nat n) \<and>
      list_all (stamped n) (health_events s))"

lemma snapshot_step:
  assumes "snapshot_inv n s"
  shows "snapshot_inv (if replaces e then Suc n else n) (health_step e s)"
proof -
  obtain es where es: "health_events (health_step e s) = health_events s @ es"
      "stamps (io_health_topology s) es"
    using events_step [of s e] by (auto simp: adds_events_def)
  with assms show ?thesis
    by (auto simp: snapshot_inv_def stamps_def topology_step list_all_iff add.commute
        intro: stamped_Suc stamped_now)
qed

lemma snapshot_run:
  "snapshot_inv n s \<Longrightarrow> snapshot_inv (n + length (filter replaces es)) (fold health_step es s)"
proof (induction es arbitrary: n s)
  case (Cons e es)
  from Cons.IH [OF snapshot_step [OF Cons.prems, of e]] show ?case by (simp split: if_splits)
qed simp

lemma of_nat64_inj:
  "k < 2 ^ 64 \<Longrightarrow> n < 2 ^ 64 \<Longrightarrow> (of_nat k :: u64) = of_nat n \<longleftrightarrow> k = n"
  by (simp add: word_of_nat_eq_iff take_bit_nat_eq_self)

definition empty_health :: io_health_state where
  "empty_health =
     \<lparr>io_health_freeze_counts = Map.empty, io_health_topology = Some 0, nvme_ctrl_names = Map.empty,
      nvme_cdev_calls = Map.empty, nvme_state_calls = Map.empty, nvme_reset_calls = Map.empty,
      health_events = []\<rparr>"

text \<open>C14. From the loaded object, every event submitted before some disk was published or removed
  carries a generation different from the current one, so user space can tell that its device
  may have been replaced. This holds for every run of fewer than two to the 64 such changes.\<close>

theorem stale_event_detected:
  assumes "list_ex replaces later"
    and "length (filter replaces (earlier @ later)) < 2 ^ 64"
    and "e \<in> set (health_events (health_run earlier empty_health))"
  shows "io_health_topology (health_run (earlier @ later) empty_health) \<noteq> Some (he_topology_generation e)"
proof -
  let ?n = "length (filter replaces earlier)" and ?k = "length (filter replaces later)"
  have start: "snapshot_inv 0 empty_health" by (simp add: snapshot_inv_def empty_health_def)
  have "0 < ?k" using assms(1) by (induction later) auto
  moreover obtain j where "j \<le> ?n" "he_topology_generation e = of_nat j"
    using snapshot_run [OF start, of earlier] assms(3)
    by (auto simp: snapshot_inv_def stamped_def list_all_iff health_run_def)
  moreover have "io_health_topology (health_run (earlier @ later) empty_health) = Some (of_nat (?n + ?k))"
    using snapshot_run [OF start, of "earlier @ later"] by (simp add: snapshot_inv_def health_run_def)
  ultimately show ?thesis using assms(2) of_nat64_inj [of "?n + ?k" j]
    by (simp del: of_nat_add length_greater_0_conv)
qed

text \<open>A SCSI timeout, then the removal of a disk.\<close>

definition demo_kernel :: health_kernel where
  "demo_kernel =
     \<lparr>hk_str = [11 \<mapsto> ''nvme'', 12 \<mapsto> ''nvme0'', 13 \<mapsto> ''nvme-generic''], hk_s32 = Map.empty,
      dev_type = Map.empty, type_name = Map.empty, hk_disk_name = [5 \<mapsto> ''sda''],
      hk_disk_major = [5 \<mapsto> 8], hk_disk_first_minor = [5 \<mapsto> 16], hk_has_q_disk = True,
      hk_q_disk = [7 \<mapsto> 5], hk_q_kobj_parent = Map.empty, hk_off_device_kobj = 0, hk_off_part0_dev = 0,
      hk_has_rq_disk = False, hk_rq_disk = Map.empty, hk_rq_q = Map.empty, hk_sector = Map.empty,
      hk_cmd_flags = Map.empty, hk_rq_bio = Map.empty, hk_rq_flags = Map.empty,
      dev_class = [1 \<mapsto> 2, 3 \<mapsto> 4], class_name = [2 \<mapsto> 11, 4 \<mapsto> 13],
      dev_driver_data = [1 \<mapsto> 100, 3 \<mapsto> 101], dev_kobj_name = [1 \<mapsto> 12, 3 \<mapsto> 12]\<rparr>"

definition demo_timeout :: io_health_scsi_timeout_ctx where
  "demo_timeout = \<lparr>sx_host_no = 1, sx_channel = 0, sx_id = 2, sx_lun = 3\<rparr>"

definition demo_event :: io_health_event where
  "demo_event = (fresh_event HEALTH_EVENT_SCSI_TIMEOUT 0)\<lparr>he_host := 1, he_target := 2, he_lun := 3\<rparr>"

theorem stale_event_detected_witness:
  "io_health_topology
     (health_run ([Scsi_timeout demo_timeout] @ [Disk_removed demo_kernel Fault_none 5]) empty_health) \<noteq>
   Some (he_topology_generation demo_event)"
  by (rule stale_event_detected)
    (simp_all add: replaces_def health_run_def trace_scsi_timeout_def empty_health_def
      demo_timeout_def demo_event_def fresh_event_def)

section \<open>Calls paired by thread\<close>

text \<open>A thread may be inside calls of different kinds at once: a reset changes the state of its
  controller before it returns. So each call map has its own callers.\<close>

definition reset_caller :: "health_probe \<Rightarrow> u64 option" where
  "reset_caller e =
     (case e of Nvme_reset f pid ctrl \<Rightarrow> Some pid | Nvme_reset_ret f pid rc \<Rightarrow> Some pid | _ \<Rightarrow> None)"

definition state_caller :: "health_probe \<Rightarrow> u64 option" where
  "state_caller e =
     (case e of Change_state f pid ctrl st \<Rightarrow> Some pid | Change_state_ret f pid rc \<Rightarrow> Some pid | _ \<Rightarrow> None)"

definition cdev_caller :: "health_probe \<Rightarrow> u64 option" where
  "cdev_caller e =
     (case e of Cdev_add K f pid dev \<Rightarrow> Some pid | Cdev_add_ret fn fc pid rc \<Rightarrow> Some pid
      | Cdev_del K f pid dev \<Rightarrow> Some pid | Cdev_del_ret fc fn pid \<Rightarrow> Some pid | _ \<Rightarrow> None)"

interpretation state_calls: thread_calls health_step nvme_state_calls state_caller
proof
  show "state_caller e \<noteq> Some t \<Longrightarrow> nvme_state_calls (health_step e s) t = nvme_state_calls s t" for e t s
    by (cases e) (auto simp: state_caller_def disk_probe_defs error_probe_defs nvme_call_defs Let_def
        bmap.update_other bmap.delete_other split: option.splits prod.splits)
qed

interpretation reset_calls: thread_calls health_step nvme_reset_calls reset_caller
proof
  show "reset_caller e \<noteq> Some t \<Longrightarrow> nvme_reset_calls (health_step e s) t = nvme_reset_calls s t" for e t s
    by (cases e) (auto simp: reset_caller_def disk_probe_defs error_probe_defs nvme_call_defs Let_def
        bmap.update_other bmap.delete_other split: option.splits prod.splits)
qed

interpretation cdev_calls: thread_calls health_step nvme_cdev_calls cdev_caller
proof
  show "cdev_caller e \<noteq> Some t \<Longrightarrow> nvme_cdev_calls (health_step e s) t = nvme_cdev_calls s t" for e t s
    by (cases e) (auto simp: cdev_caller_def disk_probe_defs error_probe_defs nvme_call_defs Let_def
        bmap.update_other bmap.delete_other split: option.splits prod.splits)
qed

text \<open>The events of a return, by its result, on the names known at that time.\<close>

definition generation_of :: "io_health_state \<Rightarrow> u64" where
  "generation_of s = (case io_health_topology s of None \<Rightarrow> 0 | Some g \<Rightarrow> g)"

definition name_of :: "io_health_state \<Rightarrow> u64 \<Rightarrow> string" where
  "name_of s ctrl = (case nvme_ctrl_names s ctrl of None \<Rightarrow> '''' | Some name \<Rightarrow> name)"

lemma set_controller_fresh:
  "set_nvme_controller ctrl s (fresh_event t g) = (fresh_event t g)\<lparr>he_controller := name_of s ctrl\<rparr>"
  by (simp add: set_nvme_controller_def fresh_event_def name_of_def split: option.split)

lemma reset_return:
  assumes "nvme_reset_calls s t = Some ctrl" "ctrl \<noteq> 0"
  shows "health_events (kretprobe_nvme_reset f t rc s) = health_events s @
    (if rc = 0 then [(fresh_event HEALTH_EVENT_NVME_RESET (generation_of s))\<lparr>he_controller := name_of s ctrl\<rparr>]
     else [])"
  using assms
  by (simp add: kretprobe_nvme_reset_def Let_def set_controller_fresh generation_of_def)
    (simp add: name_of_def)

lemma state_return:
  assumes "nvme_state_calls s t = Some \<lparr>sc_ctrl = ctrl, sc_new_state_raw = st\<rparr>"
  shows "health_events (kretprobe_nvme_change_state f t rc s) = health_events s @
    (if rc \<noteq> 0
     then [(fresh_event HEALTH_EVENT_NVME_STATE_CHANGE (generation_of s))
             \<lparr>he_controller := name_of s ctrl, he_new_state_raw := st\<rparr>]
     else [])"
  using assms
  by (simp add: kretprobe_nvme_change_state_def Let_def set_controller_fresh generation_of_def)

lemma reset_return_clears: "nvme_reset_calls (kretprobe_nvme_reset Fault_none t rc s) t = None"
  by (simp add: kretprobe_nvme_reset_def Let_def split: option.split)

lemma state_return_clears: "nvme_state_calls (kretprobe_nvme_change_state Fault_none t rc s) t = None"
  by (simp add: kretprobe_nvme_change_state_def Let_def split: option.split)

text \<open>C30. The entry of a reset meets its own return, and so does the entry of a state change, whatever
  happens in between: other threads reset and change states, and the thread itself may change
  states inside its reset, as an accepted reset does. Only another call of the same kind
  by the same thread is excluded. The return adds exactly one event when the call was accepted
  and none otherwise. The event names the controller of the entry as known at the return,
  carries the requested state and the current generation, and the row of the call is released.\<close>

theorem nvme_calls_paired:
  assumes "ctrl \<noteq> 0" "ctrl' \<noteq> 0"
    and "list_all (\<lambda>e. reset_caller e \<noteq> Some t) es" "list_all (\<lambda>e. state_caller e \<noteq> Some t) es'"
    and r: "r = health_run (Nvme_reset Fault_none t ctrl # es) s"
    and c: "c = health_run (Change_state Fault_none t ctrl' st # es') s'"
  shows "health_events (health_step (Nvme_reset_ret Fault_none t rc) r) = health_events r @
           (if rc = 0
            then [(fresh_event HEALTH_EVENT_NVME_RESET (generation_of r))\<lparr>he_controller := name_of r ctrl\<rparr>]
            else []) \<and>
         nvme_reset_calls (health_step (Nvme_reset_ret Fault_none t rc) r) t = None \<and>
         health_events (health_step (Change_state_ret Fault_none t rc') c) = health_events c @
           (if rc' \<noteq> 0
            then [(fresh_event HEALTH_EVENT_NVME_STATE_CHANGE (generation_of c))
                    \<lparr>he_controller := name_of c ctrl', he_new_state_raw := st\<rparr>]
            else []) \<and>
         nvme_state_calls (health_step (Change_state_ret Fault_none t rc') c) t = None"
proof -
  have "nvme_reset_calls r t = Some ctrl"
    unfolding r health_run_def using assms(3)
    by (intro reset_calls.entry_meets_return) (simp_all add: kprobe_nvme_reset_def)
  moreover have "nvme_state_calls c t = Some \<lparr>sc_ctrl = ctrl', sc_new_state_raw = st\<rparr>"
    unfolding c health_run_def using assms(2,4)
    by (intro state_calls.entry_meets_return) (simp_all add: kprobe_nvme_change_state_def)
  ultimately show ?thesis
    using assms(1) by (simp add: reset_return state_return reset_return_clears state_return_clears)
qed

text \<open>Thread 9 resets the controller at 100 and, inside the reset, changes its state; meanwhile
  thread 8 resets the one at 200. The two returns of thread 9 give one event each.\<close>

theorem nvme_calls_paired_witness:
  "let outer = [Nvme_reset Fault_none 9 100, Nvme_reset Fault_none 8 200];
       c = health_run (Change_state Fault_none 9 100 2 # [Nvme_reset_ret Fault_none 8 7])
             (health_run outer empty_health);
       r = health_run (outer @ [Change_state Fault_none 9 100 2, Nvme_reset_ret Fault_none 8 7,
             Change_state_ret Fault_none 9 1]) empty_health
   in map he_type (health_events (health_step (Change_state_ret Fault_none 9 1) c)) = [HEALTH_EVENT_NVME_STATE_CHANGE] \<and>
      map he_type (health_events (health_step (Nvme_reset_ret Fault_none 9 0) r)) =
        [HEALTH_EVENT_NVME_STATE_CHANGE, HEALTH_EVENT_NVME_RESET]"
proof -
  let ?es = "[Nvme_reset Fault_none 8 200, Change_state Fault_none 9 100 2, Nvme_reset_ret Fault_none 8 7,
    Change_state_ret Fault_none 9 1]"
  have "list_all (\<lambda>e. reset_caller e \<noteq> Some 9) ?es"
    "list_all (\<lambda>e. state_caller e \<noteq> Some 9) [Nvme_reset_ret Fault_none 8 7]"
    by (simp_all add: reset_caller_def state_caller_def)
  note paired = nvme_calls_paired [OF _ _ this refl refl, where ctrl = 100 and ctrl' = 100 and st = 2 and rc = 0
      and rc' = 1 and s = empty_health and s' = "health_run [Nvme_reset Fault_none 9 100, Nvme_reset Fault_none 8 200] empty_health"]
  have "health_events (health_run (Nvme_reset Fault_none 9 100 # ?es) empty_health) =
      [(fresh_event HEALTH_EVENT_NVME_STATE_CHANGE 0)\<lparr>he_new_state_raw := 2\<rparr>]"
    by (simp add: health_run_def nvme_call_defs set_nvme_controller_def empty_health_def fresh_event_def Let_def)
  moreover have "health_events (health_run (Change_state Fault_none 9 100 2 # [Nvme_reset_ret Fault_none 8 7])
      (health_run [Nvme_reset Fault_none 9 100, Nvme_reset Fault_none 8 200] empty_health)) = []"
    by (simp add: health_run_def nvme_call_defs empty_health_def Let_def)
  ultimately show ?thesis using paired by (simp add: Let_def fresh_event_def)
qed

section \<open>Controller names\<close>

text \<open>A firing that reads the controller \<open>ctrl\<close> from a device.\<close>

definition reads_controller :: "u64 \<Rightarrow> health_probe \<Rightarrow> bool" where
  "reads_controller ctrl e =
     (let is = (\<lambda>K dev. map_option cc_ctrl (read_nvme_controller K dev) = Some ctrl)
      in case e of Show_state K f dev \<Rightarrow> is K dev | Cdev_add K f pid dev \<Rightarrow> is K dev
         | Cdev_del K f pid dev \<Rightarrow> is K dev | _ \<Rightarrow> False)"

text \<open>No thread, but for the one given, has a call in progress on the controller.\<close>

definition calls_only_by :: "u64 option \<Rightarrow> u64 \<Rightarrow> io_health_state \<Rightarrow> bool" where
  "calls_only_by p ctrl s =
     (\<forall>t c. nvme_cdev_calls s t = Some c \<longrightarrow> p = Some t \<or> cc_ctrl c \<noteq> ctrl)"

definition forgotten :: "u64 \<Rightarrow> io_health_state \<Rightarrow> bool" where
  "forgotten ctrl s = (nvme_ctrl_names s ctrl = None \<and> calls_only_by None ctrl s)"

lemma cdev_calls_origin:
  "nvme_cdev_calls (health_step e s) t = Some c \<Longrightarrow>
   nvme_cdev_calls s t = Some c \<or> reads_controller (cc_ctrl c) e"
  by (cases e) (auto simp: reads_controller_def disk_probe_defs error_probe_defs nvme_call_defs Let_def
      dest: bmap.update_range bmap.delete_le split: option.splits prod.splits if_splits)

lemma calls_only_by_step:
  "calls_only_by p ctrl s \<Longrightarrow> \<not> reads_controller ctrl e \<Longrightarrow> calls_only_by p ctrl (health_step e s)"
  unfolding calls_only_by_def using cdev_calls_origin by blast

lemma calls_only_by_run:
  "calls_only_by p ctrl s \<Longrightarrow> list_all (\<lambda>e. \<not> reads_controller ctrl e) es \<Longrightarrow>
   calls_only_by p ctrl (fold health_step es s)"
  by (induction es arbitrary: s) (simp_all add: calls_only_by_step)

lemma names_origin:
  "nvme_ctrl_names (health_step e s) ctrl = Some n \<Longrightarrow>
   nvme_ctrl_names s ctrl = Some n \<or> reads_controller ctrl e \<or> \<not> calls_only_by None ctrl s"
  by (cases e) (auto simp: reads_controller_def calls_only_by_def disk_probe_defs error_probe_defs
      nvme_call_defs bpf_map_update_elem_def Let_def
      dest: bmap.delete_le split: option.splits prod.splits if_splits)

lemma forgotten_step: "forgotten ctrl s \<Longrightarrow> \<not> reads_controller ctrl e \<Longrightarrow> forgotten ctrl (health_step e s)"
  unfolding forgotten_def using calls_only_by_step names_origin [of e s ctrl]
  by (cases "nvme_ctrl_names (health_step e s) ctrl") auto

lemma forgotten_run:
  "forgotten ctrl s \<Longrightarrow> list_all (\<lambda>e. \<not> reads_controller ctrl e) es \<Longrightarrow>
   forgotten ctrl (fold health_step es s)"
  by (induction es arbitrary: s) (simp_all add: forgotten_step)

lemma cdev_del_entry:
  assumes "read_nvme_controller K dev = Some c"
  shows "nvme_cdev_calls (health_step (Cdev_del K Fault_none t dev) s) t = Some c"
    and "calls_only_by (Some t) (cc_ctrl c) s \<Longrightarrow>
         calls_only_by (Some t) (cc_ctrl c) (health_step (Cdev_del K Fault_none t dev) s)"
  using assms by (auto simp: kprobe_nvme_cdev_del_def calls_only_by_def)

lemma cdev_del_return:
  assumes "nvme_cdev_calls s t = Some c" and "calls_only_by (Some t) (cc_ctrl c) s"
  shows "forgotten (cc_ctrl c) (health_step (Cdev_del_ret Fault_none Fault_none t) s)"
  using assms by (auto simp: forgotten_def calls_only_by_def kretprobe_nvme_cdev_del_def
      bpf_map_delete_elem_def)

text \<open>Once the deletion of a controller's character device has returned, the controller's name
  is gone and stays gone, whatever the probes do, until its device is read again: a later
  reset of an object at the same address is reported without a name. No other call on the
  controller is in progress, and the helpers of the deletion do not fail.\<close>

theorem nvme_name_retired:
  assumes "read_nvme_controller K dev = Some c"
    and "calls_only_by (Some t) (cc_ctrl c) s"
    and during: "list_all (\<lambda>e. cdev_caller e \<noteq> Some t \<and> \<not> reads_controller (cc_ctrl c) e) es"
    and later: "list_all (\<lambda>e. \<not> reads_controller (cc_ctrl c) e) es'"
    and r: "r = health_run (Cdev_del K Fault_none t dev # es @ Cdev_del_ret Fault_none Fault_none t # es') s"
  shows "nvme_ctrl_names r (cc_ctrl c) = None \<and>
         health_events (health_run [Nvme_reset Fault_none u (cc_ctrl c), Nvme_reset_ret Fault_none u 0] r) =
         health_events r @ [fresh_event HEALTH_EVENT_NVME_RESET (generation_of r)]"
proof -
  let ?s1 = "fold health_step (Cdev_del K Fault_none t dev # es) s"
  have quiet: "list_all (\<lambda>e. cdev_caller e \<noteq> Some t) es" "list_all (\<lambda>e. \<not> reads_controller (cc_ctrl c) e) es"
    using during by (simp_all add: list_all_iff)
  have "nvme_cdev_calls ?s1 t = Some c"
    by (rule cdev_calls.entry_meets_return [OF cdev_del_entry(1) [OF assms(1)] quiet(1)])
  moreover have "calls_only_by (Some t) (cc_ctrl c) ?s1"
    using calls_only_by_run [OF cdev_del_entry(2) [OF assms(1,2)] quiet(2)] by simp
  ultimately have "forgotten (cc_ctrl c) r"
    using forgotten_run [OF cdev_del_return later] by (simp add: r health_run_def)
  then have none: "nvme_ctrl_names r (cc_ctrl c) = None" by (simp add: forgotten_def)
  then show ?thesis
    by (simp add: health_run_def kprobe_nvme_reset_def kretprobe_nvme_reset_def
        set_nvme_controller_def generation_of_def Let_def)
qed

text \<open>The controller at 100 is added by thread 9, which then deletes it.\<close>

lemma demo_controller: "read_nvme_controller demo_kernel 1 = Some \<lparr>cc_ctrl = 100, cc_name = ''nvme0''\<rparr>"
  by (simp add: read_nvme_controller_def demo_kernel_def probe_read_str_def name_byte_def)

definition demo_added :: io_health_state where
  "demo_added = health_run [Cdev_add demo_kernel Fault_none 9 1, Cdev_add_ret Fault_none Fault_none 9 0] empty_health"

section \<open>Freeze counts\<close>

definition freezes :: "u64 \<Rightarrow> health_probe \<Rightarrow> bool" where
  "freezes key e =
     (case e of Freeze_queue K f q \<Rightarrow> io_health_freeze_key K (io_health_freeze_disk K q) = key | _ \<Rightarrow> False)"

definition reregisters :: "u64 \<Rightarrow> health_probe \<Rightarrow> bool" where
  "reregisters key e =
     (case e of Disk_added K f disk \<Rightarrow> io_health_freeze_key K disk = key
      | Disk_removed K f disk \<Rightarrow> io_health_freeze_key K disk = key | _ \<Rightarrow> False)"

lemma freeze_step:
  assumes "io_health_freeze_counts s key = Some n" "key \<noteq> 0" "\<not> reregisters key e"
  shows "io_health_freeze_counts (health_step e s) key = Some (if freezes key e then n + 1 else n)"
  using assms
  by (cases e) (auto simp: freezes_def reregisters_def disk_publishing_spec io_health_freeze_disk_added_def
      io_health_freeze_disk_removed_def io_health_freeze_queue_def error_probe_defs nvme_call_defs Let_def
      bpf_map_update_elem_def bmap.update_other bmap.delete_other split: option.splits prod.splits)

lemma freeze_run:
  "io_health_freeze_counts s key = Some n \<Longrightarrow> key \<noteq> 0 \<Longrightarrow> list_all (\<lambda>e. \<not> reregisters key e) es \<Longrightarrow>
   io_health_freeze_counts (fold health_step es s) key = Some (n + of_nat (length (filter (freezes key) es)))"
  by (induction es arbitrary: s n) (simp_all add: freeze_step add.assoc)

text \<open>C31. From the registration of a disk until the next registration or removal under its
  device number, its row counts the freezes of its queue exactly, modulo the width of the
  counter: other disks, other probes and failing helpers do not disturb it.\<close>

theorem freeze_count_exact:
  assumes "io_health_freeze_key K disk = key" "key \<noteq> 0" "list_all (\<lambda>e. \<not> reregisters key e) es"
  shows "io_health_freeze_counts (health_run (Disk_added K Fault_none disk # es) s) key =
         Some (of_nat (length (filter (freezes key) es)))"
  using freeze_run [of "health_step (Disk_added K Fault_none disk) s" key 0 es] assms
  by (simp add: health_run_def io_health_freeze_disk_added_def)

theorem freeze_count_exact_witness:
  "io_health_freeze_counts
     (health_run [Disk_added demo_kernel Fault_none 5, Freeze_queue demo_kernel Fault_ENOMEM 7,
        Scsi_timeout demo_timeout, Freeze_queue demo_kernel Fault_none 7] empty_health) 0x800000010 = Some 2"
proof -
  have key: "io_health_freeze_key demo_kernel 5 = 0x800000010"
    by (simp add: io_health_freeze_key_def demo_kernel_def name_byte_def)
  have disk: "io_health_freeze_disk demo_kernel 7 = 5"
    by (simp add: io_health_freeze_disk_def demo_kernel_def)
  show ?thesis
    using freeze_count_exact [OF key, of "[Freeze_queue demo_kernel Fault_ENOMEM 7,
        Scsi_timeout demo_timeout, Freeze_queue demo_kernel Fault_none 7]" empty_health]
    by (simp add: freezes_def reregisters_def disk key)
qed

section \<open>Recognising a controller\<close>

lemma nvme_class_bytes:
  "(min (length n + 1) 5 = 5 \<and> name_byte (take 4 n) 0 = CHR ''n'' \<and> name_byte (take 4 n) 1 = CHR ''v'' \<and>
    name_byte (take 4 n) 2 = CHR ''m'' \<and> name_byte (take 4 n) 3 = CHR ''e'' \<and>
    name_byte (take 4 n) 4 = CHR 0x00) \<longleftrightarrow> take 4 n = ''nvme''"
proof
  assume bytes: "min (length n + 1) 5 = 5 \<and> name_byte (take 4 n) 0 = CHR ''n'' \<and>
    name_byte (take 4 n) 1 = CHR ''v'' \<and> name_byte (take 4 n) 2 = CHR ''m'' \<and>
    name_byte (take 4 n) 3 = CHR ''e'' \<and> name_byte (take 4 n) 4 = CHR 0x00"
  then have "length (take 4 n) = 4" by (simp add: min_def split: if_splits)
  then obtain a b c d where "take 4 n = [a, b, c, d]"
    by (auto simp: eval_nat_numeral length_Suc_conv simp del: length_take)
  with bytes show "take 4 n = ''nvme''" by (simp add: name_byte_def)
next
  assume four: "take 4 n = ''nvme''"
  then have "length (take 4 n) = 4" by (simp del: length_take)
  then have "4 \<le> length n" by (simp add: min_def split: if_splits)
  with four show "min (length n + 1) 5 = 5 \<and> name_byte (take 4 n) 0 = CHR ''n'' \<and>
    name_byte (take 4 n) 1 = CHR ''v'' \<and> name_byte (take 4 n) 2 = CHR ''m'' \<and>
    name_byte (take 4 n) 3 = CHR ''e'' \<and> name_byte (take 4 n) 4 = CHR 0x00"
    by (simp add: name_byte_def)
qed

text \<open>C32. A device with driver data and a name is taken for an NVMe controller exactly when the
  name of its class begins with \<open>nvme\<close>: the five-byte buffer cuts a longer class name, so the
  test of the fifth byte never rejects one.\<close>

theorem nvme_class_prefix:
  assumes "dev \<noteq> 0" and "dev_class K dev = Some cls" "cls \<noteq> 0"
    and "class_name K cls = Some p" "p \<noteq> 0" "hk_str K p = Some n"
    and "dev_driver_data K dev = Some ctrl" "ctrl \<noteq> 0"
    and "dev_kobj_name K dev = Some q" "q \<noteq> 0" "hk_str K q = Some m" "m \<noteq> []"
  shows "read_nvme_controller K dev =
         (if take 4 n = ''nvme'' then Some \<lparr>cc_ctrl = ctrl, cc_name = take 15 m\<rparr> else None)"
  using assms nvme_class_bytes [of n]
  by (auto simp: read_nvme_controller_def probe_read_str_def Let_def)

theorem nvme_class_prefix_witness:
  "hk_str demo_kernel 13 = Some ''nvme-generic'' \<and>
   read_nvme_controller demo_kernel 3 = Some \<lparr>cc_ctrl = 101, cc_name = ''nvme0''\<rparr>"
  using nvme_class_prefix [of 3 demo_kernel 4 13 "''nvme-generic''" 101 12 "''nvme0''"]
  by (simp add: demo_kernel_def)

end
