(* ===== verification/Io_Trace.thy ===== *)
theory Io_Trace
  imports Bpf_Prelude
begin

text \<open>
  \<^verbatim>\<open>bpf/iotracing.c\<close> with \<^verbatim>\<open>abi/iotracing_types.h\<close>: which files cause block IO. Block probes pair
  the issue and the completion of a request by device and sector and charge its bytes and
  latencies to a file; file probes count bytes and record the path; a third group reports
  threads that slept too long in \<^verbatim>\<open>io_schedule\<close>. Path and command buffers are strings, their bytes
  before the terminator.
\<close>

section \<open>Model\<close>

record latency_info =
  li_cnt :: u64
  max_d2c :: u64
  sum_d2c :: u64
  max_q2c :: u64
  sum_q2c :: u64

record io_key =
  ik_tgid :: u32
  ik_dev :: u32
  ik_inode :: u64

record hash_key =
  hk_dev :: u32
  hk_sector :: u64

record io_start_info =
  si_inode :: u64
  si_tgid :: u32
  si_dev :: u32
  si_data_len :: u64
  si_bi_blkg :: u64
  si_comm :: string

record io_data =
  id_tgid :: u32
  path_initialized :: u32
  id_dev :: u32
  id_flag :: u32
  fs_write_bytes :: u64
  fs_read_bytes :: u64
  block_write_bytes :: u64
  block_read_bytes :: u64
  id_inode :: u64
  id_blkcg_gq :: u64
  id_latency :: latency_info
  id_comm :: string
  id_filepath :: "string list"

record iotracing_schedule_delay_event =
  sd_stack :: "u64 list"
  sd_start_ns :: u64
  sd_duration_ns :: u64
  sd_stack_size :: int
  sd_tgid :: u32
  sd_tid :: u32
  sd_cpu :: u32
  sd_comm :: string

record iotracing_state =
  io_source_map :: "io_key \<rightharpoonup> io_data"
  io_source_full :: "u32 option"
  start_info_map :: "hash_key \<rightharpoonup> io_start_info"
  io_schedule_stack :: "u32 \<rightharpoonup> iotracing_schedule_delay_event"
  iodelay_perf_events :: "iotracing_schedule_delay_event list"

record iotracing_config =
  FILTER_DEV_IDS :: "nat \<Rightarrow> u32"
  FILTER_DEV_COUNT :: u32
  FILTER_EVENT_TIMEOUT :: u64
  REQUEST_PART_BLOCK_DEVICE :: bool

text \<open>
  Kernel memory. \<open>bulk_file\<close> and \<open>bulk_inode\<close> say whether the layout of the running kernel lets
  one read fetch two fields; \<open>file_snapshot\<close> is such a read at \<^verbatim>\<open>f_inode\<close>, giving the inode and the
  flags, and \<open>inode_snapshot\<close> one at \<^verbatim>\<open>i_sb\<close>, giving the super block and the inode number.
\<close>

record iotrace_kernel =
  ik_str :: "u64 \<Rightarrow> string option"
  rq_bio :: "u64 \<Rightarrow> u64 option"
  rq_cmd_flags :: "u64 \<Rightarrow> u32 option"
  rq_part :: "u64 \<Rightarrow> u64 option"
  rq_sector :: "u64 \<Rightarrow> u64 option"
  rq_data_len :: "u64 \<Rightarrow> u32 option"
  rq_start_time_ns :: "u64 \<Rightarrow> u64 option"
  rq_io_start_time_ns :: "u64 \<Rightarrow> u64 option"
  hd_devt :: "u64 \<Rightarrow> u32 option"
  bd_dev :: "u64 \<Rightarrow> u32 option"
  bi_io_vec :: "u64 \<Rightarrow> u64 option"
  bv_page :: "u64 \<Rightarrow> u64 option"
  page_mapping :: "u64 \<Rightarrow> u64 option"
  mapping_host :: "u64 \<Rightarrow> u64 option"
  bi_blkg :: "u64 \<Rightarrow> u64 option"
  i_ino :: "u64 \<Rightarrow> u64 option"
  i_rdev :: "u64 \<Rightarrow> u32 option"
  i_sb :: "u64 \<Rightarrow> u64 option"
  s_dev :: "u64 \<Rightarrow> u32 option"
  ki_filp :: "u64 \<Rightarrow> u64 option"
  f_inode :: "u64 \<Rightarrow> u64 option"
  f_flags :: "u64 \<Rightarrow> u32 option"
  f_dentry :: "u64 \<Rightarrow> u64 option"
  d_name :: "u64 \<Rightarrow> u64 option"
  d_parent :: "u64 \<Rightarrow> u64 option"
  iter_count :: "u64 \<Rightarrow> u64 option"
  vm_vma :: "u64 \<Rightarrow> u64 option"
  vm_file :: "u64 \<Rightarrow> u64 option"
  bulk_file :: bool
  bulk_inode :: bool
  file_snapshot :: "u64 \<Rightarrow> (u64 \<times> u32) option"
  inode_snapshot :: "u64 \<Rightarrow> (u64 \<times> u64) option"

text \<open>The current task and the clock.\<close>

record iotrace_env =
  ie_pid_tgid :: u64
  ie_comm :: string
  ie_now :: u64
  ie_cpu :: u32
  ie_stack :: "u64 list"
  ie_stack_size :: int

abbreviation (input) "FILEPATH_MAX_DEPTH \<equiv> 8 :: nat"
abbreviation (input) "DNAME_INLINE_LEN \<equiv> 32 :: nat"
abbreviation (input) "PAGE_SIZE \<equiv> 4096 :: u64"
abbreviation (input) "FILTER_DEV_MAX \<equiv> 16 :: nat"
abbreviation (input) "IO_REQ_OP_MASK \<equiv> push_bit 8 1 - 1 :: u32"
abbreviation (input) "REQ_META \<equiv> push_bit 12 1 :: u32"
abbreviation (input) "OP_READ \<equiv> 0 :: u32"
abbreviation (input) "OP_WRITE \<equiv> 1 :: u32"

text \<open>The loop of the device filter from index \<open>i\<close>, with \<open>n\<close> iterations left before the bound.\<close>

fun device_listed :: "iotracing_config \<Rightarrow> u32 \<Rightarrow> nat \<Rightarrow> nat \<Rightarrow> bool" where
  "device_listed cfg dev 0 i = False"
| "device_listed cfg dev (Suc n) i =
     (if i < unat (FILTER_DEV_COUNT cfg)
      then FILTER_DEV_IDS cfg i = dev \<or> device_listed cfg dev n (Suc i)
      else False)"

definition should_process_device :: "iotracing_config \<Rightarrow> u32 \<Rightarrow> bool" where
  "should_process_device cfg dev =
     (if FILTER_DEV_COUNT cfg = 0 then True else device_listed cfg dev FILTER_DEV_MAX 0)"

definition zero_latency :: latency_info where
  "zero_latency = \<lparr>li_cnt = 0, max_d2c = 0, sum_d2c = 0, max_q2c = 0, sum_q2c = 0\<rparr>"

definition zero_data :: io_data where
  "zero_data =
     \<lparr>id_tgid = 0, path_initialized = 0, id_dev = 0, id_flag = 0, fs_write_bytes = 0, fs_read_bytes = 0,
      block_write_bytes = 0, block_read_bytes = 0, id_inode = 0, id_blkcg_gq = 0,
      id_latency = zero_latency, id_comm = '''', id_filepath = replicate FILEPATH_MAX_DEPTH ''''\<rparr>"

definition is_write_request :: "u32 \<Rightarrow> bool" where
  "is_write_request cmd_flags = (cmd_flags AND IO_REQ_OP_MASK = OP_WRITE)"

definition get_request_dev :: "iotracing_config \<Rightarrow> iotrace_kernel \<Rightarrow> u64 \<Rightarrow> u32 option" where
  "get_request_dev cfg K req =
     (case rq_part K req of None \<Rightarrow> None
      | Some part \<Rightarrow>
          if part = 0 then None
          else if \<not> REQUEST_PART_BLOCK_DEVICE cfg then hd_devt K part
          else bd_dev K part)"

section \<open>Block probes\<close>

text \<open>What the issue probe remembers of a request on a device.\<close>

definition issue_info :: "iotrace_kernel \<Rightarrow> iotrace_env \<Rightarrow> u32 \<Rightarrow> u64 \<Rightarrow> io_start_info" where
  "issue_info K env dev req =
     (let bio = core_read (rq_bio K) req;
          inode = core_read (mapping_host K) (core_read (page_mapping K)
                    (core_read (bv_page K) (core_read (bi_io_vec K) bio)));
          ino = core_read (i_ino K) inode
      in \<lparr>si_inode = ino,
          si_tgid = ucast (drop_bit 32 (ie_pid_tgid env)),
          si_dev = (if ino = 0 \<or> core_read (i_rdev K) inode \<noteq> 0 then dev
                    else core_read (s_dev K) (core_read (i_sb K) inode)),
          si_data_len = ucast (core_read (rq_data_len K) req),
          si_bi_blkg = core_read (bi_blkg K) bio,
          si_comm = ie_comm env\<rparr>)"

definition bpf_rq_qos_issue ::
  "iotracing_config \<Rightarrow> iotrace_kernel \<Rightarrow> iotrace_env \<Rightarrow> map_fault \<Rightarrow> u64 \<Rightarrow> iotracing_state \<Rightarrow> iotracing_state" where
  "bpf_rq_qos_issue cfg K env f req s =
     (if core_read (rq_cmd_flags K) req AND REQ_META \<noteq> 0 then s
      else case get_request_dev cfg K req of None \<Rightarrow> s
      | Some dev \<Rightarrow>
          let key = \<lparr>hk_dev = dev, hk_sector = core_read (rq_sector K) req\<rparr>
          in if \<not> should_process_device cfg dev then s
             else s\<lparr>start_info_map :=
                      snd (bpf_map_update_elem f BPF_ANY key (issue_info K env dev req) (start_info_map s))\<rparr>)"

definition add_latency :: "u64 \<Rightarrow> u64 \<Rightarrow> latency_info \<Rightarrow> latency_info" where
  "add_latency q2c d2c l =
     l\<lparr>sum_q2c := sum_q2c l + q2c, sum_d2c := sum_d2c l + d2c,
       max_q2c := (if max_q2c l < q2c then q2c else max_q2c l),
       max_d2c := (if max_d2c l < d2c then d2c else max_d2c l), li_cnt := li_cnt l + 1\<rparr>"

text \<open>The bytes of a completed request, \<open>None\<close> for a request that neither reads nor writes.\<close>

definition add_block_bytes :: "u32 \<Rightarrow> u64 \<Rightarrow> io_data \<Rightarrow> io_data option" where
  "add_block_bytes cmd_flags data_len entry =
     (if is_write_request cmd_flags
      then Some (entry\<lparr>block_write_bytes := block_write_bytes entry + data_len\<rparr>)
      else if cmd_flags AND IO_REQ_OP_MASK = OP_READ
      then Some (entry\<lparr>block_read_bytes := block_read_bytes entry + data_len\<rparr>)
      else None)"

definition source_key :: "io_start_info \<Rightarrow> io_key" where
  "source_key info =
     \<lparr>ik_tgid = (if si_inode info = 0 then si_tgid info else 0), ik_dev = si_dev info,
      ik_inode = si_inode info\<rparr>"

definition bpf_rq_qos_done ::
  "iotracing_config \<Rightarrow> iotrace_kernel \<Rightarrow> u64 \<Rightarrow> map_fault \<Rightarrow> map_fault \<Rightarrow> u64 \<Rightarrow> iotracing_state \<Rightarrow> iotracing_state" where
  "bpf_rq_qos_done cfg K now fu fd req s =
     (case get_request_dev cfg K req of None \<Rightarrow> s
      | Some dev \<Rightarrow>
          let info_key = \<lparr>hk_dev = dev, hk_sector = core_read (rq_sector K) req\<rparr>
          in if \<not> should_process_device cfg dev then s
             else case start_info_map s info_key of None \<Rightarrow> s
             | Some info \<Rightarrow>
                 let key = source_key info; found = io_source_map s key;
                     entry = (case found of None \<Rightarrow> zero_data | Some e \<Rightarrow> e);
                     s1 = s\<lparr>start_info_map := snd (bpf_map_delete_elem fd info_key (start_info_map s))\<rparr>
                 in case add_block_bytes (core_read (rq_cmd_flags K) req) (si_data_len info) entry of
                      None \<Rightarrow> s1
                    | Some entry1 \<Rightarrow>
                        let entry2 = entry1\<lparr>id_latency :=
                              add_latency (now - core_read (rq_start_time_ns K) req)
                                (now - core_read (rq_io_start_time_ns K) req) (id_latency entry1)\<rparr>
                        in case found of
                             Some _ \<Rightarrow> s1\<lparr>io_source_map := (io_source_map s)(key \<mapsto> entry2)\<rparr>
                           | None \<Rightarrow>
                               s1\<lparr>io_source_map :=
                                    snd (bpf_map_update_elem fu BPF_ANY key
                                           (entry2\<lparr>id_blkcg_gq := si_bi_blkg info, id_tgid := si_tgid info,
                                                   id_dev := si_dev info, id_inode := si_inode info,
                                                   id_comm := take 15 (si_comm info)\<rparr>)
                                           (io_source_map s))\<rparr>)"

section \<open>File probes\<close>

text \<open>A path component as stored: cut to the buffer, and marked with dots when it fills it.\<close>

definition path_component :: "string \<Rightarrow> string" where
  "path_component name =
     (if name_byte name (DNAME_INLINE_LEN - 2) \<noteq> CHR 0x00
      then name[DNAME_INLINE_LEN - 2 := CHR ''.'', DNAME_INLINE_LEN - 3 := CHR ''.'',
                DNAME_INLINE_LEN - 4 := CHR ''.'']
      else name)"

text \<open>The walk from a dentry to its ancestors, with \<open>n\<close> iterations left.\<close>

fun path_walk :: "iotrace_kernel \<Rightarrow> nat \<Rightarrow> nat \<Rightarrow> u64 \<Rightarrow> string list \<Rightarrow> string list" where
  "path_walk K 0 i dentry path = path"
| "path_walk K (Suc n) i dentry path =
     (if dentry = 0 then path
      else
        let name = (case probe_read_str (ik_str K) DNAME_INLINE_LEN (core_read (d_name K) dentry) of
                      None \<Rightarrow> '''' | Some (_, name) \<Rightarrow> name)
        in if name_byte name 0 = CHR 0x00 then path[i := name]
           else path_walk K n (Suc i) (core_read (d_parent K) dentry) (path[i := path_component name]))"

definition init_io_data ::
  "iotrace_kernel \<Rightarrow> iotrace_env \<Rightarrow> u64 \<Rightarrow> u32 \<Rightarrow> u64 \<Rightarrow> io_data \<Rightarrow> io_data" where
  "init_io_data K env dentry dev inode entry =
     entry\<lparr>id_dev := dev, id_inode := inode, id_tgid := ucast (drop_bit 32 (ie_pid_tgid env)),
           id_comm := ie_comm env,
           id_filepath := path_walk K FILEPATH_MAX_DEPTH 0 dentry (id_filepath entry),
           path_initialized := 1\<rparr>"

text \<open>Whether the entry exists afterwards, and the state.\<close>

definition create_file_io_entry ::
  "iotrace_kernel \<Rightarrow> iotrace_env \<Rightarrow> map_fault \<Rightarrow> io_key \<Rightarrow> u64 \<Rightarrow> iotracing_state \<Rightarrow> bool \<times> iotracing_state" where
  "create_file_io_entry K env f key file s =
     (let data = init_io_data K env (core_read (f_dentry K) file) (ik_dev key) (ik_inode key) zero_data;
          (err, m) = bpf_map_update_elem f BPF_NOEXIST key data (io_source_map s);
          full = (if err = - E2BIG then map_option (\<lambda>_. 1) (io_source_full s) else io_source_full s)
      in (m key \<noteq> None, s\<lparr>io_source_map := m, io_source_full := full\<rparr>))"

definition get_file_io_entry ::
  "iotrace_kernel \<Rightarrow> iotrace_env \<Rightarrow> map_fault \<Rightarrow> io_key \<Rightarrow> u64 \<Rightarrow> iotracing_state \<Rightarrow> bool \<times> iotracing_state" where
  "get_file_io_entry K env f key file s =
     (let (found, s1) =
            (if io_source_map s key \<noteq> None then (True, s)
             else if (case io_source_full s of None \<Rightarrow> False | Some full \<Rightarrow> full \<noteq> 0) then (False, s)
             else create_file_io_entry K env f key file s)
      in if \<not> found then (False, s1)
         else (True, s1\<lparr>io_source_map := (io_source_map s1)(key :=
                map_option (\<lambda>e. if path_initialized e = 0
                                then init_io_data K env (core_read (f_dentry K) file) (ik_dev key) (ik_inode key) e
                                else e) (io_source_map s1 key))\<rparr>))"

text \<open>An update through the pointer to an entry of the source map.\<close>

definition at_entry :: "io_key \<Rightarrow> (io_data \<Rightarrow> io_data) \<Rightarrow> iotracing_state \<Rightarrow> iotracing_state" where
  "at_entry key g s = s\<lparr>io_source_map := (io_source_map s)(key := map_option g (io_source_map s key))\<rparr>"

definition bpf_file_read_write ::
  "iotracing_config \<Rightarrow> iotrace_kernel \<Rightarrow> iotrace_env \<Rightarrow> map_fault \<Rightarrow> bool \<Rightarrow> u64 \<Rightarrow> u64 \<Rightarrow>
     iotracing_state \<Rightarrow> iotracing_state" where
  "bpf_file_read_write cfg K env f is_write iocb iter s =
     (let file = core_read (ki_filp K) iocb;
          (inode, file_flags) =
            (if bulk_file K then (case file_snapshot K file of None \<Rightarrow> (0, 0) | Some p \<Rightarrow> p)
             else (core_read (f_inode K) file, 0));
          (dev, inode_number) =
            (if bulk_inode K
             then (case inode_snapshot K inode of
                     None \<Rightarrow> (core_read (s_dev K) 0, 0) | Some (sb, ino) \<Rightarrow> (core_read (s_dev K) sb, ino))
             else (core_read (s_dev K) (core_read (i_sb K) inode), 0))
      in if \<not> should_process_device cfg dev then s
         else
           let key = \<lparr>ik_tgid = 0, ik_dev = dev,
                      ik_inode = (if bulk_inode K then inode_number else core_read (i_ino K) inode)\<rparr>;
               (found, s1) = get_file_io_entry K env f key file s;
               count = core_read (iter_count K) iter;
               flag = (if bulk_file K then file_flags else core_read (f_flags K) file)
           in if \<not> found then s1
              else at_entry key (\<lambda>e. (if is_write then e\<lparr>fs_write_bytes := fs_write_bytes e + count\<rparr>
                                      else e\<lparr>fs_read_bytes := fs_read_bytes e + count\<rparr>)\<lparr>id_flag := flag\<rparr>) s1)"

definition bpf_anyfs_file_read_iter ::
  "iotracing_config \<Rightarrow> iotrace_kernel \<Rightarrow> iotrace_env \<Rightarrow> map_fault \<Rightarrow> u64 \<Rightarrow> u64 \<Rightarrow> iotracing_state \<Rightarrow> iotracing_state" where
  "bpf_anyfs_file_read_iter cfg K env f iocb iter = bpf_file_read_write cfg K env f False iocb iter"

definition bpf_anyfs_file_write_iter ::
  "iotracing_config \<Rightarrow> iotrace_kernel \<Rightarrow> iotrace_env \<Rightarrow> map_fault \<Rightarrow> u64 \<Rightarrow> u64 \<Rightarrow> iotracing_state \<Rightarrow> iotracing_state" where
  "bpf_anyfs_file_write_iter cfg K env f iocb iter = bpf_file_read_write cfg K env f True iocb iter"

text \<open>The two fault probes differ in the counter they advance.\<close>

definition vm_fault_key :: "iotrace_kernel \<Rightarrow> u64 \<Rightarrow> u64 \<times> io_key" where
  "vm_fault_key K vm =
     (let file = core_read (vm_file K) (core_read (vm_vma K) vm); inode = core_read (f_inode K) file
      in (file, \<lparr>ik_tgid = 0, ik_dev = core_read (s_dev K) (core_read (i_sb K) inode),
                 ik_inode = core_read (i_ino K) inode\<rparr>))"

definition bpf_filemap_page_mkwrite ::
  "iotracing_config \<Rightarrow> iotrace_kernel \<Rightarrow> iotrace_env \<Rightarrow> map_fault \<Rightarrow> u64 \<Rightarrow> iotracing_state \<Rightarrow> iotracing_state" where
  "bpf_filemap_page_mkwrite cfg K env f vm s =
     (let (file, key) = vm_fault_key K vm
      in if \<not> should_process_device cfg (ik_dev key) then s
         else
           let (found, s1) = get_file_io_entry K env f key file s
           in if \<not> found then s1
              else at_entry key (\<lambda>e. e\<lparr>fs_write_bytes := fs_write_bytes e + PAGE_SIZE\<rparr>) s1)"

definition bpf_anyfs_filemap_page_mkwrite ::
  "iotracing_config \<Rightarrow> iotrace_kernel \<Rightarrow> iotrace_env \<Rightarrow> map_fault \<Rightarrow> u64 \<Rightarrow> iotracing_state \<Rightarrow> iotracing_state" where
  "bpf_anyfs_filemap_page_mkwrite = bpf_filemap_page_mkwrite"

definition bpf_filemap_fault ::
  "iotracing_config \<Rightarrow> iotrace_kernel \<Rightarrow> iotrace_env \<Rightarrow> map_fault \<Rightarrow> u64 \<Rightarrow> iotracing_state \<Rightarrow> iotracing_state" where
  "bpf_filemap_fault cfg K env f vm s =
     (let (file, key) = vm_fault_key K vm
      in if \<not> should_process_device cfg (ik_dev key) then s
         else
           let (found, s1) = get_file_io_entry K env f key file s
           in if \<not> found then s1
              else at_entry key (\<lambda>e. e\<lparr>fs_read_bytes := fs_read_bytes e + PAGE_SIZE\<rparr>) s1)"

section \<open>Sleeps in io\_schedule\<close>

abbreviation (input) "ie_tid env \<equiv> (ucast (ie_pid_tgid env) :: u32)"

definition detect_io_schedule :: "iotrace_env \<Rightarrow> map_fault \<Rightarrow> iotracing_state \<Rightarrow> iotracing_state" where
  "detect_io_schedule env f s =
     s\<lparr>io_schedule_stack := snd (bpf_map_update_elem f BPF_ANY (ie_tid env)
         \<lparr>sd_stack = ie_stack env, sd_start_ns = ie_now env, sd_duration_ns = 0,
          sd_stack_size = ie_stack_size env, sd_tgid = 0, sd_tid = 0, sd_cpu = 0, sd_comm = ie_comm env\<rparr>
         (io_schedule_stack s))\<rparr>"

definition bpf_io_schedule :: "iotrace_env \<Rightarrow> map_fault \<Rightarrow> iotracing_state \<Rightarrow> iotracing_state" where
  "bpf_io_schedule = detect_io_schedule"

definition bpf_io_schedule_timeout :: "iotrace_env \<Rightarrow> map_fault \<Rightarrow> iotracing_state \<Rightarrow> iotracing_state" where
  "bpf_io_schedule_timeout = detect_io_schedule"

definition detect_io_schedule_return ::
  "iotracing_config \<Rightarrow> iotrace_env \<Rightarrow> map_fault \<Rightarrow> iotracing_state \<Rightarrow> iotracing_state" where
  "detect_io_schedule_return cfg env f s =
     (case io_schedule_stack s (ie_tid env) of None \<Rightarrow> s
      | Some entry \<Rightarrow>
          let s1 = (if FILTER_EVENT_TIMEOUT cfg < ie_now env - sd_start_ns entry
                    then let entry1 = entry\<lparr>sd_tgid := ucast (drop_bit 32 (ie_pid_tgid env)),
                               sd_tid := ie_tid env, sd_cpu := ie_cpu env,
                               sd_duration_ns := ie_now env - sd_start_ns entry\<rparr>
                         in s\<lparr>io_schedule_stack := (io_schedule_stack s)(ie_tid env \<mapsto> entry1),
                              iodelay_perf_events := iodelay_perf_events s @ [entry1]\<rparr>
                    else s)
          in s1\<lparr>io_schedule_stack := snd (bpf_map_delete_elem f (ie_tid env) (io_schedule_stack s1))\<rparr>)"

definition bpf_return_io_schedule ::
  "iotracing_config \<Rightarrow> iotrace_env \<Rightarrow> map_fault \<Rightarrow> iotracing_state \<Rightarrow> iotracing_state" where
  "bpf_return_io_schedule = detect_io_schedule_return"

definition bpf_return_io_schedule_timeout ::
  "iotracing_config \<Rightarrow> iotrace_env \<Rightarrow> map_fault \<Rightarrow> iotracing_state \<Rightarrow> iotracing_state" where
  "bpf_return_io_schedule_timeout = detect_io_schedule_return"

section \<open>Runs\<close>

datatype iotrace_event =
    Rq_issue iotrace_kernel iotrace_env map_fault u64
  | Rq_done iotrace_kernel u64 map_fault map_fault u64
  | Read_iter iotrace_kernel iotrace_env map_fault u64 u64
  | Write_iter iotrace_kernel iotrace_env map_fault u64 u64
  | Page_mkwrite iotrace_kernel iotrace_env map_fault u64
  | Filemap_fault iotrace_kernel iotrace_env map_fault u64
  | Io_schedule iotrace_env map_fault
  | Io_schedule_timeout iotrace_env map_fault
  | Io_schedule_ret iotrace_env map_fault
  | Io_schedule_timeout_ret iotrace_env map_fault

fun iotrace_step :: "iotracing_config \<Rightarrow> iotrace_event \<Rightarrow> iotracing_state \<Rightarrow> iotracing_state" where
  "iotrace_step cfg (Rq_issue K env f req) s = bpf_rq_qos_issue cfg K env f req s"
| "iotrace_step cfg (Rq_done K now fu fd req) s = bpf_rq_qos_done cfg K now fu fd req s"
| "iotrace_step cfg (Read_iter K env f iocb iter) s = bpf_anyfs_file_read_iter cfg K env f iocb iter s"
| "iotrace_step cfg (Write_iter K env f iocb iter) s = bpf_anyfs_file_write_iter cfg K env f iocb iter s"
| "iotrace_step cfg (Page_mkwrite K env f vm) s = bpf_anyfs_filemap_page_mkwrite cfg K env f vm s"
| "iotrace_step cfg (Filemap_fault K env f vm) s = bpf_filemap_fault cfg K env f vm s"
| "iotrace_step cfg (Io_schedule env f) s = bpf_io_schedule env f s"
| "iotrace_step cfg (Io_schedule_timeout env f) s = bpf_io_schedule_timeout env f s"
| "iotrace_step cfg (Io_schedule_ret env f) s = bpf_return_io_schedule cfg env f s"
| "iotrace_step cfg (Io_schedule_timeout_ret env f) s = bpf_return_io_schedule_timeout cfg env f s"

end
