(* ===== verification/Io_Trace_Facts.thy ===== *)
theory Io_Trace_Facts
  imports Io_Trace
begin

text \<open>
  What the probes of \<open>Io_Trace\<close> guarantee: records describe the file of their key and are never
  lost or renamed, a request is charged once with its own size and times, a recorded path is
  the chain of ancestors, the batched reads change nothing, and slow sleeps are reported.
\<close>

section \<open>Records\<close>

text \<open>A record describes its key, and its path fits the buffers.\<close>

definition path_ok :: "string list \<Rightarrow> bool" where
  "path_ok path = (length path = FILEPATH_MAX_DEPTH \<and> list_all (\<lambda>n. length n < DNAME_INLINE_LEN) path)"

definition row_ok :: "io_key \<Rightarrow> io_data \<Rightarrow> bool" where
  "row_ok key e =
     (id_dev e = ik_dev key \<and> id_inode e = ik_inode key \<and> (ik_tgid key = 0 \<or> ik_inode key = 0) \<and>
      path_ok (id_filepath e))"

text \<open>What a firing may do to a record: it stays well-formed, and once its path is recorded its
  path and its process no longer change.\<close>

definition row_step :: "io_key \<Rightarrow> io_data \<Rightarrow> io_data \<Rightarrow> bool" where
  "row_step key e e' =
     ((row_ok key e \<longrightarrow> row_ok key e') \<and>
      (path_initialized e \<noteq> 0 \<longrightarrow>
         path_initialized e' \<noteq> 0 \<and> id_filepath e' = id_filepath e \<and> id_comm e' = id_comm e \<and>
         id_tgid e' = id_tgid e))"

definition entry_grows :: "io_key \<Rightarrow> io_data option \<Rightarrow> io_data option \<Rightarrow> bool" where
  "entry_grows key old new =
     (case old of None \<Rightarrow> (case new of None \<Rightarrow> True | Some e' \<Rightarrow> row_ok key e')
      | Some e \<Rightarrow> (case new of None \<Rightarrow> False | Some e' \<Rightarrow> row_step key e e'))"

definition grows :: "(io_key \<rightharpoonup> io_data) \<Rightarrow> (io_key \<rightharpoonup> io_data) \<Rightarrow> bool" where
  "grows m m' = (\<forall>key. entry_grows key (m key) (m' key))"

lemma row_step_refl [simp]: "row_step key e e"
  by (simp add: row_step_def)

lemma entry_grows_refl [simp]: "entry_grows key x x"
  by (cases x) (simp_all add: entry_grows_def)

lemma entry_grows_trans: "entry_grows key x y \<Longrightarrow> entry_grows key y z \<Longrightarrow> entry_grows key x z"
  by (cases x; cases y; cases z) (auto simp: entry_grows_def row_step_def)

lemma grows_refl [simp]: "grows m m"
  by (simp add: grows_def)

lemma grows_trans: "grows m m' \<Longrightarrow> grows m' m'' \<Longrightarrow> grows m m''"
  unfolding grows_def using entry_grows_trans by blast

lemma grows_upd: "entry_grows key (m key) v \<Longrightarrow> grows m (m(key := v))"
  by (simp add: grows_def)

lemma grows_insert:
  "m key = None \<Longrightarrow> row_ok key e \<Longrightarrow> grows m (snd (bpf_map_update_elem f flag key e m))"
  by (auto simp: bpf_map_update_elem_def entry_grows_def intro!: grows_upd)

lemma grows_at_entry:
  "(\<And>e. row_step key e (g e)) \<Longrightarrow> grows (io_source_map s) (io_source_map (at_entry key g s))"
  by (auto simp: at_entry_def entry_grows_def intro!: grows_upd split: option.split)

section \<open>Paths\<close>

text \<open>The names from a dentry up to its ancestors, as far as they can be read, at most \<open>n\<close>.\<close>

fun ancestry :: "iotrace_kernel \<Rightarrow> nat \<Rightarrow> u64 \<Rightarrow> string list" where
  "ancestry K 0 dentry = []"
| "ancestry K (Suc n) dentry =
     (case (if dentry = 0 then None else ik_str K (core_read (d_name K) dentry)) of
        None \<Rightarrow> []
      | Some name \<Rightarrow> if name_byte name 0 = CHR 0x00 then []
                     else name # ancestry K n (core_read (d_parent K) dentry))"

text \<open>How a name is shown: in full up to 30 characters, else its first 28 and three dots.\<close>

definition shown_name :: "string \<Rightarrow> string" where
  "shown_name name = (if length name \<le> 30 then name else take 28 name @ ''...'')"

definition no_nul :: "string \<Rightarrow> bool" where
  "no_nul name = (CHR 0x00 \<notin> set name)"

lemma length_path_component [simp]: "length (path_component name) = length name"
  by (simp add: path_component_def)

lemma path_component_shown:
  assumes "no_nul name"
  shows "path_component (take 31 name) = shown_name name"
proof (cases "length name \<le> 30")
  case False
  let ?t = "take 31 name"
  have len: "length ?t = 31" using False by simp
  have "name ! 30 \<in> set name" using False by (intro nth_mem) simp
  then have "name ! 30 \<noteq> CHR 0x00" using assms by (auto simp: no_nul_def)
  then have "path_component ?t = ?t[30 := CHR ''.'', 29 := CHR ''.'', 28 := CHR ''.'']"
    using False by (simp add: path_component_def name_byte_def)
  also have "\<dots> = take 28 name @ ''...''"
  proof (rule nth_equalityI)
    fix i assume "i < length (?t[30 := CHR ''.'', 29 := CHR ''.'', 28 := CHR ''.''])"
    then have "i < 28 \<or> i = 28 \<or> i = 29 \<or> i = 30" using len by auto
    then show "?t[30 := CHR ''.'', 29 := CHR ''.'', 28 := CHR ''.''] ! i = (take 28 name @ ''...'') ! i"
      using False len by (auto simp: nth_append nth_list_update)
  qed (use False in simp)
  finally show ?thesis using False by (simp add: shown_name_def)
qed (simp add: path_component_def shown_name_def name_byte_def)

lemma path_walk_length [simp]: "length (path_walk K n i d path) = length path"
  by (induction K n i d path rule: path_walk.induct) (simp_all add: Let_def split: option.split prod.split)

lemma path_walk_short:
  "list_all (\<lambda>n. length n < 32) path \<Longrightarrow> list_all (\<lambda>n. length n < 32) (path_walk K n i d path)"
proof (induction K n i d path rule: path_walk.induct)
  case (2 K n i d path)
  have upd: "list_all (\<lambda>n. length n < 32) (path[i := v])" if "length v < 32" for v
    using 2(2) that set_update_subset_insert [of path i v] by (auto simp: list_all_iff)
  show ?case
    using 2 upd
    by (auto simp: Let_def probe_read_str_def split: option.split)
qed simp

lemma path_ok_walk: "path_ok path \<Longrightarrow> path_ok (path_walk K n i d path)"
  by (simp add: path_ok_def path_walk_short)

lemma path_ok_zero [simp]: "path_ok (id_filepath zero_data)"
  by (simp add: path_ok_def zero_data_def list_all_iff)

lemma length_ancestry: "length (ancestry K n d) \<le> n"
  by (induction K n d rule: ancestry.induct) (auto split: option.split)

lemma path_walk_ancestry:
  assumes "\<And>p name. ik_str K p = Some name \<Longrightarrow> no_nul name"
    and "i + n \<le> length path" and "\<And>j. i \<le> j \<Longrightarrow> j < length path \<Longrightarrow> path ! j = ''''"
  shows "path_walk K n i d path =
    take i path @ map shown_name (ancestry K n d) @ drop (i + length (ancestry K n d)) path"
  using assms(2,3)
proof (induction n arbitrary: i d path)
  case (Suc n)
  show ?case
  proof (cases "if d = 0 then None else ik_str K (core_read (d_name K) d)")
    case None
    then show ?thesis using Suc.prems
      by (auto simp: probe_read_str_def name_byte_def list_update_same_conv split: if_splits)
  next
    case (Some name)
    then have d: "d \<noteq> 0" and str: "ik_str K (core_read (d_name K) d) = Some name" by (auto split: if_splits)
    have nul: "no_nul name" by (rule assms(1) [OF str])
    have i: "i < length path" using Suc.prems(1) by simp
    show ?thesis
    proof (cases "name = []")
      case True
      then show ?thesis using d str i Suc.prems(2) [of i]
        by (simp add: probe_read_str_def name_byte_def list_update_same_conv)
    next
      case False
      then have "name ! 0 \<noteq> CHR 0x00" using nul by (cases name) (auto simp: no_nul_def)
      moreover have "path_walk K n (Suc i) (core_read (d_parent K) d) (path[i := shown_name name]) =
        take (Suc i) (path[i := shown_name name]) @ map shown_name (ancestry K n (core_read (d_parent K) d)) @
        drop (Suc i + length (ancestry K n (core_read (d_parent K) d))) (path[i := shown_name name])"
        using Suc.prems by (intro Suc.IH) simp_all
      ultimately show ?thesis using d str i False
        by (simp add: probe_read_str_def name_byte_def path_component_shown [OF nul] take_Suc_conv_app_nth)
    qed
  qed
qed simp

text \<open>C29. The recorded path of a new file is the chain of names from its dentry upwards, at most
  eight, ending at the first that is empty or cannot be read. A name of up to 30 characters is kept,
  a longer one shown as its first 28 and three dots; the other components are empty.\<close>

theorem path_is_ancestry:
  assumes "\<And>p name. ik_str K p = Some name \<Longrightarrow> no_nul name"
  shows "id_filepath (init_io_data K env dentry dev inode zero_data) =
    map shown_name (ancestry K 8 dentry) @ replicate (8 - length (ancestry K 8 dentry)) ''''"
  using path_walk_ancestry [OF assms, where i = 0 and n = 8 and path = "replicate 8 ''''" and d = dentry]
    length_ancestry [of K 8 dentry]
  by (simp add: init_io_data_def zero_data_def)

section \<open>The records of a run\<close>

lemma row_ok_init:
  "ik_tgid key = 0 \<Longrightarrow> path_ok (id_filepath e) \<Longrightarrow>
   row_ok key (init_io_data K env d (ik_dev key) (ik_inode key) e)"
  by (simp add: row_ok_def init_io_data_def path_ok_walk)

lemma row_step_init:
  "ik_tgid key = 0 \<Longrightarrow>
   row_step key e (if path_initialized e = 0 then init_io_data K env d (ik_dev key) (ik_inode key) e else e)"
  by (auto simp: row_step_def row_ok_def init_io_data_def path_ok_walk)

lemma grows_create:
  "ik_tgid key = 0 \<Longrightarrow> io_source_map s key = None \<Longrightarrow>
   grows (io_source_map s) (io_source_map (snd (create_file_io_entry K env f key fl s)))"
  using grows_insert [of "io_source_map s" key
      "init_io_data K env (core_read (f_dentry K) fl) (ik_dev key) (ik_inode key) zero_data" f BPF_NOEXIST]
  by (simp add: create_file_io_entry_def row_ok_init case_prod_beta Let_def)

lemma grows_get:
  assumes "ik_tgid key = 0"
  shows "grows (io_source_map s) (io_source_map (snd (get_file_io_entry K env f key fl s)))"
proof -
  let ?init = "\<lambda>e. if path_initialized e = 0
    then init_io_data K env (core_read (f_dentry K) fl) (ik_dev key) (ik_inode key) e else e"
  have init: "grows m (m(key := map_option ?init (m key)))" for m
    by (rule grows_upd) (cases "m key", simp_all only: entry_grows_def option.simps row_step_init [OF assms])
  show ?thesis
    using init [of "io_source_map s"] grows_create [OF assms, of s K env f fl]
      grows_trans [OF grows_create [OF assms, of s K env f fl] init]
    by (auto simp: get_file_io_entry_def Let_def case_prod_beta)
qed

lemma grows_file_rw: "grows (io_source_map s) (io_source_map (bpf_file_read_write cfg K env f w iocb iter s))"
proof -
  have "grows (io_source_map s) (io_source_map (at_entry key g (snd (get_file_io_entry K env f key fl s))))"
    if "ik_tgid key = 0" "\<And>e. row_step key e (g e)" for key g fl
    using grows_trans [OF grows_get [OF that(1)] grows_at_entry [OF that(2)]] .
  moreover have "row_step key e ((if w then e\<lparr>fs_write_bytes := a\<rparr> else e\<lparr>fs_read_bytes := b\<rparr>)\<lparr>id_flag := c\<rparr>)"
    for key e a b c by (simp add: row_step_def row_ok_def)
  ultimately show ?thesis
    by (simp add: bpf_file_read_write_def Let_def case_prod_beta grows_get)
qed

lemma grows_fault:
  assumes "ik_tgid key = 0"
  shows "grows (io_source_map s) (io_source_map (at_entry key (\<lambda>e. e\<lparr>fs_write_bytes := fs_write_bytes e + n\<rparr>)
           (snd (get_file_io_entry K env f key fl s))))"
    and "grows (io_source_map s) (io_source_map (at_entry key (\<lambda>e. e\<lparr>fs_read_bytes := fs_read_bytes e + n\<rparr>)
           (snd (get_file_io_entry K env f key fl s))))"
  by (rule grows_trans [OF grows_get [OF assms] grows_at_entry], simp add: row_step_def row_ok_def)+

lemma block_bytes_step:
  "add_block_bytes c n e = Some e' \<Longrightarrow> row_step key e (e'\<lparr>id_latency := l\<rparr>) \<and> id_filepath e' = id_filepath e"
  by (auto simp: add_block_bytes_def row_step_def row_ok_def split: if_splits)

lemma source_key_tgid: "ik_tgid (source_key info) = 0 \<or> ik_inode (source_key info) = 0"
  by (simp add: source_key_def)

lemma grows_done: "grows (io_source_map s) (io_source_map (bpf_rq_qos_done cfg K now fu fd req s))"
proof -
  have upd: "grows (io_source_map s) ((io_source_map s)(key \<mapsto> e1\<lparr>id_latency := l\<rparr>))"
    if "io_source_map s key = Some e" "add_block_bytes c n e = Some e1" for key e c n e1 l
    using block_bytes_step [OF that(2)] that(1) by (intro grows_upd) (simp add: entry_grows_def)
  have new: "grows (io_source_map s) (snd (bpf_map_update_elem fu BPF_ANY (source_key info)
      (e1\<lparr>id_latency := l, id_blkcg_gq := b, id_tgid := t, id_dev := si_dev info, id_inode := si_inode info,
          id_comm := cm\<rparr>) (io_source_map s)))"
    if "io_source_map s (source_key info) = None" "add_block_bytes c n zero_data = Some e1"
    for info c n e1 l b t cm
    using block_bytes_step [OF that(2)] that(1) source_key_tgid [of info]
    by (intro grows_insert) (simp_all add: row_ok_def, simp add: source_key_def)
  show ?thesis
    by (auto simp: bpf_rq_qos_done_def Let_def intro: upd new split: option.split)
qed

lemma grows_step: "grows (io_source_map s) (io_source_map (iotrace_step cfg e s))"
  by (cases e)
    (auto simp: bpf_rq_qos_issue_def bpf_anyfs_file_read_iter_def bpf_anyfs_file_write_iter_def
      bpf_anyfs_filemap_page_mkwrite_def bpf_filemap_page_mkwrite_def bpf_filemap_fault_def vm_fault_key_def
      bpf_io_schedule_def bpf_io_schedule_timeout_def bpf_return_io_schedule_def
      bpf_return_io_schedule_timeout_def detect_io_schedule_def detect_io_schedule_return_def
      grows_file_rw grows_done grows_get grows_fault Let_def case_prod_beta split: option.split)

lemma grows_run: "grows (io_source_map s) (io_source_map (fold (iotrace_step cfg) es s))"
proof (induction es arbitrary: s)
  case (Cons e es)
  show ?case using grows_trans [OF grows_step Cons.IH] by simp
qed simp

text \<open>C28. Records are never lost: over any run with any failures, every record present stays
  present, and once its path was recorded its path, command and process stay the same. If all
  records describe the device and inode of their key and fit their buffers, all records
  of the final state do.\<close>

theorem records_persist:
  assumes "\<forall>key e. io_source_map s key = Some e \<longrightarrow> row_ok key e"
    and "m = io_source_map (fold (iotrace_step cfg) es s)"
  shows "(\<forall>key e. m key = Some e \<longrightarrow> row_ok key e) \<and>
    (\<forall>key e. io_source_map s key = Some e \<longrightarrow>
       (\<exists>e'. m key = Some e' \<and>
          (path_initialized e \<noteq> 0 \<longrightarrow> path_initialized e' \<noteq> 0 \<and> id_filepath e' = id_filepath e \<and>
             id_comm e' = id_comm e \<and> id_tgid e' = id_tgid e)))"
proof -
  have g: "entry_grows key (io_source_map s key) (m key)" for key
    using grows_run [of s cfg es] assms(2) by (simp add: grows_def)
  have "row_ok key e" if "m key = Some e" for key e
    using g [of key] that assms(1) by (auto simp: entry_grows_def row_step_def split: option.splits)
  moreover have "\<exists>e'. m key = Some e' \<and> row_step key e e'" if "io_source_map s key = Some e" for key e
    using g [of key] that by (auto simp: entry_grows_def split: option.splits)
  ultimately show ?thesis unfolding row_step_def by blast
qed

section \<open>Charging a request\<close>

text \<open>The row of the start map that the two request probes use, if they use one.\<close>

definition start_key :: "iotracing_config \<Rightarrow> iotrace_kernel \<Rightarrow> u64 \<Rightarrow> hash_key option" where
  "start_key cfg K req =
     map_option (\<lambda>dev. \<lparr>hk_dev = dev, hk_sector = core_read (rq_sector K) req\<rparr>) (get_request_dev cfg K req)"

definition on_request :: "iotracing_config \<Rightarrow> iotrace_event \<Rightarrow> hash_key option" where
  "on_request cfg e =
     (case e of Rq_issue K env f req \<Rightarrow> start_key cfg K req
      | Rq_done K now fu fd req \<Rightarrow> start_key cfg K req | _ \<Rightarrow> None)"

lemma file_probes_start [simp]:
  "start_info_map (snd (create_file_io_entry K env f key fl s)) = start_info_map s"
  "io_schedule_stack (snd (create_file_io_entry K env f key fl s)) = io_schedule_stack s"
  "start_info_map (snd (get_file_io_entry K env f key fl s)) = start_info_map s"
  "io_schedule_stack (snd (get_file_io_entry K env f key fl s)) = io_schedule_stack s"
  "start_info_map (at_entry key g s) = start_info_map s"
  "io_schedule_stack (at_entry key g s) = io_schedule_stack s"
  by (simp_all add: create_file_io_entry_def get_file_io_entry_def at_entry_def Let_def case_prod_beta)

lemmas file_probe_defs =
  bpf_anyfs_file_read_iter_def bpf_anyfs_file_write_iter_def bpf_file_read_write_def
  bpf_anyfs_filemap_page_mkwrite_def bpf_filemap_page_mkwrite_def bpf_filemap_fault_def vm_fault_key_def

lemmas sleep_probe_defs =
  bpf_io_schedule_def bpf_io_schedule_timeout_def bpf_return_io_schedule_def
  bpf_return_io_schedule_timeout_def detect_io_schedule_def detect_io_schedule_return_def

interpretation requests: thread_calls "iotrace_step cfg" start_info_map "on_request cfg" for cfg
proof
  show "on_request cfg e \<noteq> Some t \<Longrightarrow> start_info_map (iotrace_step cfg e s) t = start_info_map s t" for e t s
    by (cases e) (auto simp: on_request_def start_key_def bpf_rq_qos_issue_def bpf_rq_qos_done_def
        file_probe_defs sleep_probe_defs Let_def case_prod_beta bmap.update_other bmap.delete_other
        split: option.splits)
qed

text \<open>C27. A request is charged exactly once: whatever happens between its issue and its completion,
  short of another request on the same device and sector, the completion adds the length seen
  at issue to the written or read bytes of the record of its file, adds its two latencies,
  changes no other record and forgets the request. A second completion changes nothing.\<close>

theorem request_charged_once:
  assumes dev: "get_request_dev cfg K req = Some dev" "should_process_device cfg dev"
    and "core_read (rq_cmd_flags K) req AND REQ_META = 0"
    and same: "get_request_dev cfg K' req = Some dev" "core_read (rq_sector K') req = core_read (rq_sector K) req"
    and "list_all (\<lambda>e. on_request cfg e \<noteq> start_key cfg K req) es"
    and op: "core_read (rq_cmd_flags K') req AND IO_REQ_OP_MASK = (if w then OP_WRITE else OP_READ)"
    and info: "info = issue_info K env dev req"
    and old: "old = (case io_source_map r (source_key info) of None \<Rightarrow> zero_data | Some e \<Rightarrow> e)"
    and r: "r = fold (iotrace_step cfg) (Rq_issue K env Fault_none req # es) s"
    and r': "r' = bpf_rq_qos_done cfg K' now Fault_none Fault_none req r"
  shows "(\<exists>e. io_source_map r' = (io_source_map r)(source_key info \<mapsto> e) \<and>
            block_write_bytes e = block_write_bytes old + (if w then si_data_len info else 0) \<and>
            block_read_bytes e = block_read_bytes old + (if w then 0 else si_data_len info) \<and>
            id_latency e = add_latency (now - core_read (rq_start_time_ns K') req)
              (now - core_read (rq_io_start_time_ns K') req) (id_latency old)) \<and>
         bpf_rq_qos_done cfg K' now' fu fd req r' = r'"
proof -
  let ?k = "\<lparr>hk_dev = dev, hk_sector = core_read (rq_sector K) req\<rparr>"
  have "start_info_map r ?k = Some info"
    unfolding r using assms(1-3,6)
    by (intro requests.entry_meets_return) (simp_all add: bpf_rq_qos_issue_def start_key_def info)
  then show ?thesis
    using dev(2) same op old
    by (cases w; cases "io_source_map r (source_key info)")
      (simp_all add: r' bpf_rq_qos_done_def add_block_bytes_def is_write_request_def Let_def,
        (rule exI, rule conjI, rule refl, simp)+)
qed

section \<open>Batched reads\<close>

text \<open>The layout checks hold: a batched read fetches the two fields, and both fault together.\<close>

definition snapshots_agree :: "iotrace_kernel \<Rightarrow> bool" where
  "snapshots_agree K =
     ((\<forall>p. case file_snapshot K p of
             None \<Rightarrow> f_inode K p = None \<and> f_flags K p = None
           | Some (inode, flags) \<Rightarrow> f_inode K p = Some inode \<and> f_flags K p = Some flags) \<and>
      (\<forall>p. case inode_snapshot K p of
             None \<Rightarrow> i_sb K p = None \<and> i_ino K p = None
           | Some (sb, ino) \<Rightarrow> i_sb K p = Some sb \<and> i_ino K p = Some ino))"

lemma snapshots_read:
  assumes "snapshots_agree K"
  shows "(case file_snapshot K p of None \<Rightarrow> (0, 0) | Some x \<Rightarrow> x) = (core_read (f_inode K) p, core_read (f_flags K) p)"
    and "(case inode_snapshot K p of None \<Rightarrow> (core_read (s_dev K) 0, 0) | Some (sb, ino) \<Rightarrow> (core_read (s_dev K) sb, ino)) =
         (core_read (s_dev K) (core_read (i_sb K) p), core_read (i_ino K) p)"
  using assms unfolding snapshots_agree_def
  by (auto split: option.splits dest: spec [of _ p])

lemma path_walk_bulk [simp]: "path_walk (K\<lparr>bulk_file := a, bulk_inode := b\<rparr>) n i d path = path_walk K n i d path"
  by (induction K n i d path rule: path_walk.induct) (simp_all add: Let_def split: option.split prod.split)

lemma get_entry_bulk [simp]:
  "get_file_io_entry (K\<lparr>bulk_file := a, bulk_inode := b\<rparr>) env f key fl s = get_file_io_entry K env f key fl s"
  by (simp add: get_file_io_entry_def create_file_io_entry_def init_io_data_def cong: if_cong)

text \<open>On a kernel whose layout passes the checks, the file probe that reads two fields at once
  does exactly what the probe that reads every field by itself does, in all four
  combinations of the two checks.\<close>

theorem batched_reads_equivalent:
  assumes "snapshots_agree K"
  shows "bpf_file_read_write cfg (K\<lparr>bulk_file := a, bulk_inode := b\<rparr>) env f is_write iocb iter s =
         bpf_file_read_write cfg (K\<lparr>bulk_file := False, bulk_inode := False\<rparr>) env f is_write iocb iter s"
  by (cases a; cases b)
    (simp_all add: bpf_file_read_write_def snapshots_read [OF assms] Let_def cong: option.case_cong if_cong)

section \<open>Slow sleeps\<close>

definition sleeper :: "iotrace_event \<Rightarrow> u32 option" where
  "sleeper e =
     (case e of Io_schedule env f \<Rightarrow> Some (ie_tid env) | Io_schedule_timeout env f \<Rightarrow> Some (ie_tid env)
      | Io_schedule_ret env f \<Rightarrow> Some (ie_tid env) | Io_schedule_timeout_ret env f \<Rightarrow> Some (ie_tid env)
      | _ \<Rightarrow> None)"

interpretation sleeps: thread_calls "iotrace_step cfg" io_schedule_stack sleeper for cfg
proof
  show "sleeper e \<noteq> Some t \<Longrightarrow> io_schedule_stack (iotrace_step cfg e s) t = io_schedule_stack s t" for e t s
    by (cases e) (auto simp: sleeper_def bpf_rq_qos_issue_def bpf_rq_qos_done_def
        file_probe_defs sleep_probe_defs Let_def case_prod_beta bmap.update_other bmap.delete_other
        split: option.splits)
qed

text \<open>A sleep is reported when its thread returns, exactly if it took longer than the configured
  time, with the stack and command seen when it went to sleep and its exact duration; other
  threads do not interfere, and the thread's row is released either way.\<close>

theorem slow_sleep_reported:
  assumes "ucast (ie_pid_tgid e1) = tid" "ucast (ie_pid_tgid e2) = tid"
    and "list_all (\<lambda>e. sleeper e \<noteq> Some tid) es"
    and r: "r = fold (iotrace_step cfg) (Io_schedule e1 Fault_none # es) s"
    and r': "r' = bpf_return_io_schedule cfg e2 Fault_none r"
  shows "iodelay_perf_events r' = iodelay_perf_events r @
           (if FILTER_EVENT_TIMEOUT cfg < ie_now e2 - ie_now e1
            then [\<lparr>sd_stack = ie_stack e1, sd_start_ns = ie_now e1, sd_duration_ns = ie_now e2 - ie_now e1,
                   sd_stack_size = ie_stack_size e1, sd_tgid = ucast (drop_bit 32 (ie_pid_tgid e2)),
                   sd_tid = tid, sd_cpu = ie_cpu e2, sd_comm = ie_comm e1\<rparr>]
            else []) \<and>
         io_schedule_stack r' tid = None"
proof -
  have "io_schedule_stack r tid = Some \<lparr>sd_stack = ie_stack e1, sd_start_ns = ie_now e1, sd_duration_ns = 0,
      sd_stack_size = ie_stack_size e1, sd_tgid = 0, sd_tid = 0, sd_cpu = 0, sd_comm = ie_comm e1\<rparr>"
    unfolding r using assms(1,3)
    by (intro sleeps.entry_meets_return) (simp_all add: bpf_io_schedule_def detect_io_schedule_def)
  then show ?thesis
    using assms(2) by (simp add: r' bpf_return_io_schedule_def detect_io_schedule_return_def Let_def)
qed

section \<open>Instances\<close>

text \<open>A kernel with one open file and one write request to it.\<close>

definition demo_iotrace :: iotrace_kernel where
  "demo_iotrace =
     \<lparr>ik_str = [50 \<mapsto> ''log'', 51 \<mapsto> ''var'', 52 \<mapsto> replicate 40 CHR ''x''], rq_bio = [1 \<mapsto> 2], rq_cmd_flags = [1 \<mapsto> 1],
      rq_part = [1 \<mapsto> 3], rq_sector = [1 \<mapsto> 2048], rq_data_len = [1 \<mapsto> 4096], rq_start_time_ns = [1 \<mapsto> 100],
      rq_io_start_time_ns = [1 \<mapsto> 200], hd_devt = [3 \<mapsto> 8], bd_dev = [3 \<mapsto> 8], bi_io_vec = [2 \<mapsto> 4],
      bv_page = [4 \<mapsto> 5], page_mapping = [5 \<mapsto> 6], mapping_host = [6 \<mapsto> 7], bi_blkg = [2 \<mapsto> 9],
      i_ino = [7 \<mapsto> 77], i_rdev = [7 \<mapsto> 0], i_sb = [7 \<mapsto> 10], s_dev = [10 \<mapsto> 8], ki_filp = [20 \<mapsto> 21],
      f_inode = [21 \<mapsto> 7], f_flags = [21 \<mapsto> 3], f_dentry = [21 \<mapsto> 40], d_name = [40 \<mapsto> 50, 41 \<mapsto> 51, 42 \<mapsto> 52],
      d_parent = [40 \<mapsto> 41, 41 \<mapsto> 42], iter_count = [30 \<mapsto> 512], vm_vma = Map.empty, vm_file = Map.empty,
      bulk_file = True, bulk_inode = False, file_snapshot = [21 \<mapsto> (7, 3)], inode_snapshot = [7 \<mapsto> (10, 77)]\<rparr>"

definition demo_iotrace_env :: "u64 \<Rightarrow> iotrace_env" where
  "demo_iotrace_env now =
     \<lparr>ie_pid_tgid = 0x500000006, ie_comm = ''dd'', ie_now = now, ie_cpu = 1, ie_stack = [1, 2], ie_stack_size = 16\<rparr>"

definition demo_iotrace_config :: iotracing_config where
  "demo_iotrace_config =
     \<lparr>FILTER_DEV_IDS = (\<lambda>_. 0)(0 := 8), FILTER_DEV_COUNT = 1, FILTER_EVENT_TIMEOUT = 1000,
      REQUEST_PART_BLOCK_DEVICE = False\<rparr>"

definition empty_iotrace :: iotracing_state where
  "empty_iotrace =
     \<lparr>io_source_map = Map.empty, io_source_full = Some 0, start_info_map = Map.empty,
      io_schedule_stack = Map.empty, iodelay_perf_events = []\<rparr>"

lemmas loop_numeral =
  ancestry.simps(2) [where n = "pred_numeral v" for v, folded numeral_eq_Suc]
  device_listed.simps(2) [where n = "pred_numeral v" for v, folded numeral_eq_Suc]

lemma demo_filter [simp]: "should_process_device demo_iotrace_config 8"
  by (simp add: should_process_device_def demo_iotrace_config_def loop_numeral)

theorem path_is_ancestry_witness:
  "id_filepath (init_io_data demo_iotrace (demo_iotrace_env 0) 40 8 77 zero_data) =
   [''log'', ''var'', replicate 28 CHR ''x'' @ ''...''] @ replicate 5 ''''"
proof -
  have nul: "no_nul name" if "ik_str demo_iotrace p = Some name" for p name
    using that by (auto simp: demo_iotrace_def no_nul_def split: if_splits)
  have "ancestry demo_iotrace 8 40 = [''log'', ''var'', replicate 40 CHR ''x'']"
    by (simp add: loop_numeral demo_iotrace_def name_byte_def)
  then show ?thesis
    using path_is_ancestry [where K = demo_iotrace and env = "demo_iotrace_env 0" and dentry = 40, OF nul]
    by (simp add: shown_name_def)
qed

theorem records_persist_witness:
  "\<exists>e. io_source_map (fold (iotrace_step demo_iotrace_config)
      [Write_iter demo_iotrace (demo_iotrace_env 0) Fault_none 20 30]
      (empty_iotrace\<lparr>io_source_map := [\<lparr>ik_tgid = 0, ik_dev = 8, ik_inode = 77\<rparr> \<mapsto>
         zero_data\<lparr>path_initialized := 1, id_dev := 8, id_inode := 77, id_comm := ''dd''\<rparr>]\<rparr>))
      \<lparr>ik_tgid = 0, ik_dev = 8, ik_inode = 77\<rparr> = Some e \<and>
    row_ok \<lparr>ik_tgid = 0, ik_dev = 8, ik_inode = 77\<rparr> e \<and> id_comm e = ''dd''"
proof -
  define key :: io_key where "key = \<lparr>ik_tgid = 0, ik_dev = 8, ik_inode = 77\<rparr>"
  define row where "row = zero_data\<lparr>path_initialized := 1, id_dev := 8, id_inode := 77, id_comm := ''dd''\<rparr>"
  have ok: "row_ok key row" "path_initialized row \<noteq> 0" "id_comm row = ''dd''"
    by (simp_all add: row_ok_def path_ok_def key_def row_def zero_data_def list_all_iff)
  let ?s = "empty_iotrace\<lparr>io_source_map := [key \<mapsto> row]\<rparr>"
  have "\<forall>k e. io_source_map ?s k = Some e \<longrightarrow> row_ok k e" using ok(1) by simp
  note run = records_persist [OF this refl, of demo_iotrace_config
      "[Write_iter demo_iotrace (demo_iotrace_env 0) Fault_none 20 30]"]
  have "io_source_map ?s key = Some row" by simp
  from run [THEN conjunct2, rule_format, OF this] ok(2,3) run [THEN conjunct1, rule_format, of key]
  show ?thesis unfolding key_def [symmetric] row_def [symmetric] by metis
qed

lemma demo_reads:
  "core_read (rq_bio demo_iotrace) 1 = 2" "core_read (bi_io_vec demo_iotrace) 2 = 4"
  "core_read (bv_page demo_iotrace) 4 = 5" "core_read (page_mapping demo_iotrace) 5 = 6"
  "core_read (mapping_host demo_iotrace) 6 = 7" "core_read (i_ino demo_iotrace) 7 = 77"
  "core_read (i_rdev demo_iotrace) 7 = 0" "core_read (i_sb demo_iotrace) 7 = 10"
  "core_read (s_dev demo_iotrace) 10 = 8" "core_read (rq_data_len demo_iotrace) 1 = 4096"
  by (simp_all add: demo_iotrace_def)

theorem request_charged_once_witness:
  "\<exists>e. io_source_map (bpf_rq_qos_done demo_iotrace_config demo_iotrace 900 Fault_none Fault_none 1
      (fold (iotrace_step demo_iotrace_config) [Rq_issue demo_iotrace (demo_iotrace_env 150) Fault_none 1]
        empty_iotrace)) \<lparr>ik_tgid = 0, ik_dev = 8, ik_inode = 77\<rparr> = Some e \<and> block_write_bytes e = 4096"
proof -
  define info where "info = issue_info demo_iotrace (demo_iotrace_env 150) 8 1"
  define r where "r = fold (iotrace_step demo_iotrace_config)
    [Rq_issue demo_iotrace (demo_iotrace_env 150) Fault_none 1] empty_iotrace"
  define old where "old = (case io_source_map r (source_key info) of None \<Rightarrow> zero_data | Some e \<Rightarrow> e)"
  have info: "source_key info = \<lparr>ik_tgid = 0, ik_dev = 8, ik_inode = 77\<rparr>" "si_data_len info = 4096"
    by (simp_all add: info_def source_key_def issue_info_def demo_reads)
  have dev: "get_request_dev demo_iotrace_config demo_iotrace 1 = Some 8"
    by (simp add: get_request_dev_def demo_iotrace_config_def demo_iotrace_def)
  have "io_source_map r = Map.empty"
    unfolding r_def by (simp add: bpf_rq_qos_issue_def dev empty_iotrace_def Let_def)
  then have old: "block_write_bytes old = 0" by (simp add: old_def zero_data_def)
  have flags: "core_read (rq_cmd_flags demo_iotrace) 1 = 1" by (simp add: demo_iotrace_def)
  have "core_read (rq_cmd_flags demo_iotrace) 1 AND REQ_META = 0"
    and "core_read (rq_cmd_flags demo_iotrace) 1 AND IO_REQ_OP_MASK = (if True then OP_WRITE else OP_READ)"
    by (simp_all add: flags)
  from request_charged_once [where now = 900, OF dev demo_filter this(1) dev refl _ this(2) info_def old_def r_def refl, THEN conjunct1]
    info old
  show ?thesis unfolding r_def by auto
qed

end
