(* ===== verification/Net_Common.thy ===== *)
theory Net_Common
  imports Bpf_Prelude
begin

text \<open>
  What the network probes share: kernel memory of packets, sockets and devices, byte order, and
  the accessors and filters of \<^verbatim>\<open>bpf_skbuff.h\<close>, \<^verbatim>\<open>bpf_skb_filter.h\<close>, \<^verbatim>\<open>bpf_net_namespace.h\<close>,
  \<^verbatim>\<open>bpf_netdevice.h\<close>, \<^verbatim>\<open>bpf_cgroup.h\<close>, \<^verbatim>\<open>bpf_perf_output.h\<close>, \<^verbatim>\<open>bpf_pcap_stub.h\<close> and
  \<^verbatim>\<open>bpf_tracepoint.h\<close>. The hosts are little endian.
\<close>

section \<open>Bytes\<close>

text \<open>The bytes of a word in memory order, and words read from bytes.\<close>

definition le_bytes :: "nat \<Rightarrow> 'a::len word \<Rightarrow> u8 list" where
  "le_bytes n w = map (\<lambda>i. ucast (drop_bit (8 * i) w)) [0..<n]"

definition le16 :: "u8 list \<Rightarrow> nat \<Rightarrow> u16" where
  "le16 bs i = ucast (bs ! i) OR push_bit 8 (ucast (bs ! (i + 1)))"

definition le32 :: "u8 list \<Rightarrow> nat \<Rightarrow> u32" where
  "le32 bs i = ucast (bs ! i) OR push_bit 8 (ucast (bs ! (i + 1))) OR
               push_bit 16 (ucast (bs ! (i + 2))) OR push_bit 24 (ucast (bs ! (i + 3)))"

definition bpf_htons :: "u16 \<Rightarrow> u16" where
  "bpf_htons v = push_bit 8 v OR drop_bit 8 v"

definition bpf_htonl :: "u32 \<Rightarrow> u32" where
  "bpf_htonl v = push_bit 24 v OR push_bit 8 (v AND 0xff00) OR (drop_bit 8 v AND 0xff00) OR drop_bit 24 v"

abbreviation (input) "bpf_ntohs \<equiv> bpf_htons"

section \<open>Kernel memory\<close>

text \<open>\<open>nk_bytes\<close> reads a number of bytes; the booleans are answers of \<^verbatim>\<open>bpf_core_field_exists\<close>.\<close>

record net_kernel =
  nk_str :: "u64 \<Rightarrow> string option"
  nk_bytes :: "u64 \<Rightarrow> nat \<Rightarrow> u8 list option"
  nk_head :: "u64 \<Rightarrow> u64 option"
  nk_tail :: "u64 \<Rightarrow> u32 option"
  nk_mac_header :: "u64 \<Rightarrow> u16 option"
  nk_network_header :: "u64 \<Rightarrow> u16 option"
  nk_transport_header :: "u64 \<Rightarrow> u16 option"
  nk_mac_len :: "u64 \<Rightarrow> u16 option"
  nk_protocol :: "u64 \<Rightarrow> u16 option"
  nk_len :: "u64 \<Rightarrow> u32 option"
  nk_queue_mapping :: "u64 \<Rightarrow> u16 option"
  nk_skb_sk :: "u64 \<Rightarrow> u64 option"
  nk_skb_dev :: "u64 \<Rightarrow> u64 option"
  nk_ifindex :: "u64 \<Rightarrow> u32 option"
  nk_dev_state :: "u64 \<Rightarrow> u64 option"
  nk_dev_flags :: "u64 \<Rightarrow> u32 option"
  nk_dev_net :: "u64 \<Rightarrow> u64 option"
  nk_dev_name_offset :: u64
  nk_sk_net :: "u64 \<Rightarrow> u64 option"
  nk_has_net_cookie :: bool
  nk_net_cookie :: "u64 \<Rightarrow> u64 option"
  nk_net_inum :: "u64 \<Rightarrow> u32 option"
  nk_has_sk_memcg :: bool
  nk_sk_memcg :: "u64 \<Rightarrow> u64 option"
  nk_skc_state :: "u64 \<Rightarrow> u8 option"
  nk_skc_family :: "u64 \<Rightarrow> u16 option"

abbreviation (input) "ETH_P_IP \<equiv> 0x0800 :: u16"
abbreviation (input) "ETH_P_IPV6 \<equiv> 0x86DD :: u16"
abbreviation (input) "ETH_P_ARP \<equiv> 0x0806 :: u16"
abbreviation (input) "AF_INET \<equiv> 2 :: u16"
abbreviation (input) "AF_INET6 \<equiv> 10 :: u16"
abbreviation (input) "IPPROTO_TCP \<equiv> 6 :: u8"
abbreviation (input) "IFNAMSIZ \<equiv> 16 :: nat"

text \<open>\<^verbatim>\<open>bpf_probe_read\<close> into a buffer: a fault clears it.\<close>

definition read_bytes :: "'a net_kernel_scheme \<Rightarrow> u64 \<Rightarrow> nat \<Rightarrow> u8 list" where
  "read_bytes K p n = (case nk_bytes K p n of None \<Rightarrow> replicate n 0 | Some bs \<Rightarrow> bs)"

section \<open>Packets\<close>

definition skb_mac_header :: "'a net_kernel_scheme \<Rightarrow> u64 \<Rightarrow> u64" where
  "skb_mac_header K skb = core_read (nk_head K) skb + ucast (core_read (nk_mac_header K) skb)"

definition skb_network_header :: "'a net_kernel_scheme \<Rightarrow> u64 \<Rightarrow> u64" where
  "skb_network_header K skb = core_read (nk_head K) skb + ucast (core_read (nk_network_header K) skb)"

definition skb_transport_header :: "'a net_kernel_scheme \<Rightarrow> u64 \<Rightarrow> u64" where
  "skb_transport_header K skb = core_read (nk_head K) skb + ucast (core_read (nk_transport_header K) skb)"

text \<open>The caller's header is \<open>None\<close> for a null pointer; a TCP header has 20 bytes.\<close>

definition skb_tcp_header :: "'a net_kernel_scheme \<Rightarrow> u64 \<Rightarrow> u8 list option \<Rightarrow> bool \<times> u8 list option" where
  "skb_tcp_header K skb tcp_hdr =
     (if skb = 0 \<or> tcp_hdr = None then (False, tcp_hdr)
      else (nk_bytes K (skb_transport_header K skb) 20 \<noteq> None, Some (read_bytes K (skb_transport_header K skb) 20)))"

definition skb_sk_state :: "'a net_kernel_scheme \<Rightarrow> u64 \<Rightarrow> u8" where
  "skb_sk_state K skb = core_read (nk_skc_state K) (core_read (nk_skb_sk K) skb)"

section \<open>Namespaces, cgroups and devices\<close>

definition sk_netns_cookie :: "'a net_kernel_scheme \<Rightarrow> u64 \<Rightarrow> u64" where
  "sk_netns_cookie K sk =
     (if sk = 0 then 0
      else if \<not> nk_has_net_cookie K then 0
      else core_read (nk_net_cookie K) (core_read (nk_sk_net K) sk))"

definition sk_netns_inum :: "'a net_kernel_scheme \<Rightarrow> u64 \<Rightarrow> u32" where
  "sk_netns_inum K sk = (if sk = 0 then 0 else core_read (nk_net_inum K) (core_read (nk_sk_net K) sk))"

definition skb_netns_cookie :: "'a net_kernel_scheme \<Rightarrow> u64 \<Rightarrow> u64" where
  "skb_netns_cookie K skb =
     (if \<not> nk_has_net_cookie K then 0
      else
        let dev = core_read (nk_skb_dev K) skb
        in if dev \<noteq> 0 then core_read (nk_net_cookie K) (core_read (nk_dev_net K) dev)
           else sk_netns_cookie K (core_read (nk_skb_sk K) skb))"

definition skb_netns_inum :: "'a net_kernel_scheme \<Rightarrow> u64 \<Rightarrow> u32" where
  "skb_netns_inum K skb =
     (let dev = core_read (nk_skb_dev K) skb
      in if dev \<noteq> 0 then core_read (nk_net_inum K) (core_read (nk_dev_net K) dev)
         else sk_netns_inum K (core_read (nk_skb_sk K) skb))"

definition sk_memcg_css_addr :: "'a net_kernel_scheme \<Rightarrow> u64 \<Rightarrow> u64" where
  "sk_memcg_css_addr K sk =
     (if sk = 0 then 0
      else if \<not> nk_has_sk_memcg K then 0
      else let memcg = core_read (nk_sk_memcg K) sk in if memcg = 0 then 0 else memcg)"

definition skb_memcg_css_addr :: "'a net_kernel_scheme \<Rightarrow> u64 \<Rightarrow> u64" where
  "skb_memcg_css_addr K skb = sk_memcg_css_addr K (core_read (nk_skb_sk K) skb)"

abbreviation (input) "LINK_STATE_START \<equiv> 0 :: nat"
abbreviation (input) "LINK_STATE_NOCARRIER \<equiv> 2 :: nat"
abbreviation (input) "IFF_RUNNING \<equiv> 64 :: u32"
abbreviation (input) "IFF_LOWER_UP \<equiv> 65536 :: u32"

definition netif_running :: "'a net_kernel_scheme \<Rightarrow> u64 \<Rightarrow> bool" where
  "netif_running K dev = (push_bit LINK_STATE_START 1 AND core_read (nk_dev_state K) dev \<noteq> 0)"

definition netif_carrier_ok :: "'a net_kernel_scheme \<Rightarrow> u64 \<Rightarrow> bool" where
  "netif_carrier_ok K dev = (push_bit LINK_STATE_NOCARRIER 1 AND core_read (nk_dev_state K) dev = 0)"

definition netif_get_flags :: "'a net_kernel_scheme \<Rightarrow> u64 \<Rightarrow> u32" where
  "netif_get_flags K dev =
     (let flags = core_read (nk_dev_flags K) dev AND NOT (IFF_RUNNING OR IFF_LOWER_UP)
      in if netif_running K dev \<and> netif_carrier_ok K dev then flags OR IFF_LOWER_UP else flags)"

section \<open>Filters\<close>

record skb_filter =
  filter_dev_mode :: u32
  skb_filter_dev_map :: "u32 \<rightharpoonup> u8"

definition skb_filter_pass_netdev :: "skb_filter \<Rightarrow> 'a net_kernel_scheme \<Rightarrow> u64 \<Rightarrow> bool" where
  "skb_filter_pass_netdev F K dev =
     (if filter_dev_mode F = 0 then True
      else
        let idx = (if dev \<noteq> 0 then core_read (nk_ifindex K) dev else 0);
            hit = (skb_filter_dev_map F idx \<noteq> None)
        in if filter_dev_mode F = 1 then hit else \<not> hit)"

definition skb_filter_pass_dev :: "skb_filter \<Rightarrow> 'a net_kernel_scheme \<Rightarrow> u64 \<Rightarrow> bool" where
  "skb_filter_pass_dev F K skb = skb_filter_pass_netdev F K (core_read (nk_skb_dev K) skb)"

text \<open>
  The packet filter stubs as they are compiled. User space may replace their bodies by a
  compiled packet filter, so the probes take the two stubs as arguments of this type: the
  context three times, the start and the end of the packet.
\<close>

type_synonym pcap_stub = "u64 \<Rightarrow> u64 \<Rightarrow> u64 \<Rightarrow> u64 \<Rightarrow> u64 \<Rightarrow> bool"

definition pcap_stub_l3 :: pcap_stub where
  "pcap_stub_l3 ctx1 ctx2 ctx3 data data_end = (data \<noteq> data_end \<and> ctx1 = ctx2 \<and> ctx2 = ctx3)"

definition pcap_stub_l2 :: pcap_stub where
  "pcap_stub_l2 ctx1 ctx2 ctx3 data data_end = (data \<noteq> data_end \<and> ctx1 = ctx2 \<and> ctx2 = ctx3)"

definition pcap_stub_pass_l3 :: "pcap_stub \<Rightarrow> u64 \<Rightarrow> u64 \<Rightarrow> u64 \<Rightarrow> bool" where
  "pcap_stub_pass_l3 stub ctx data data_end = stub ctx ctx ctx data data_end"

definition pcap_stub_pass_l2 :: "pcap_stub \<Rightarrow> u64 \<Rightarrow> u64 \<Rightarrow> u64 \<Rightarrow> bool" where
  "pcap_stub_pass_l2 stub ctx data data_end = stub ctx ctx ctx data data_end"

definition PCAP_STUB_PASS_SKB :: "pcap_stub \<Rightarrow> pcap_stub \<Rightarrow> 'a net_kernel_scheme \<Rightarrow> u64 \<Rightarrow> bool" where
  "PCAP_STUB_PASS_SKB l2 l3 K skb =
     (let pkt_end = core_read (nk_head K) skb + ucast (core_read (nk_tail K) skb)
      in if core_read (nk_mac_len K) skb = 0
         then pcap_stub_pass_l3 l3 skb (skb_network_header K skb) pkt_end
         else pcap_stub_pass_l2 l2 skb (skb_mac_header K skb) pkt_end)"

section \<open>Output and arguments\<close>

text \<open>A submission with result \<open>ret\<close>: failures are counted per CPU.\<close>

definition bpf_perf_event_output_counted :: "int \<Rightarrow> u32 \<Rightarrow> (u32 \<Rightarrow> u64) option \<Rightarrow> (u32 \<Rightarrow> u64) option" where
  "bpf_perf_event_output_counted ret cpu stats =
     (if ret < 0 then map_option (\<lambda>c. c(cpu := c cpu + 1)) stats else stats)"

text \<open>The size of the common header is that of the running kernel; \<open>mem\<close> reads pointers.\<close>

definition tracepoint_arg :: "u32 \<Rightarrow> (u64 \<Rightarrow> u64 option) \<Rightarrow> u64 \<Rightarrow> u32 \<Rightarrow> u64" where
  "tracepoint_arg trace_entry_size mem ctx index =
     (let offset = (trace_entry_size + 8 - 1) AND NOT (8 - 1)
      in core_read mem (ctx + ucast offset + ucast index * 8))"

end
