(* ===== verification/Tcp_Retransmit.thy ===== *)
theory Tcp_Retransmit
  imports Net_Common Ratelimit
begin

text \<open>
  \<^verbatim>\<open>bpf/tcp_retransmit.c\<close> with \<^verbatim>\<open>abi/tcp_retransmit_types.h\<close>: one event per retransmission, passed
  through a packet filter and a rate limiter. The queued packets have no headers, so the probes
  build the packet the filter sees from the socket; the filter itself is compiled by user space
  and is a parameter. A request socket begins with the same fields as a socket.
\<close>

section \<open>Model\<close>

record tcp_retransmit_event =
  kernel_observed_ns :: u64
  ev_tgid_pid :: u64
  memcg_css_addr :: u64
  skb_addr :: u64
  netns_cookie :: u64
  netns_inum :: u32
  ev_state :: u32
  reord_seen :: u32
  dsack_dups :: u32
  tcp_seq :: u32
  tcp_ack :: u32
  tcp_end_seq :: u32
  sport :: u16
  dport :: u16
  family :: u16
  ca_state :: u8
  icsk_retransmits :: u8
  event_type :: u8
  icsk_pending :: u8
  tcp_flags :: u8
  saddr :: "u8 list"
  daddr :: "u8 list"
  ev_comm :: string

abbreviation (input) "TCP_RETRANSMIT_EVENT_SKB \<equiv> 1 :: u8"
abbreviation (input) "TCP_RETRANSMIT_EVENT_SYNACK \<equiv> 2 :: u8"
abbreviation (input) "TCP_RETRANSMIT_EVENT_TLP \<equiv> 3 :: u8"
abbreviation (input) "TCP_WIRE_FLAGS_SYNACK \<equiv> 0x12 :: u8"
abbreviation (input) "TCP_CA_Loss \<equiv> 4 :: u8"
abbreviation (input) "TCP_NEW_SYN_RECV \<equiv> 12 :: u32"

text \<open>A field that \<^verbatim>\<open>bpf_core_field_exists\<close> guards is an option, \<open>None\<close> if the kernel lacks it.\<close>

record tcp_kernel = net_kernel +
  nk_ptr :: "u64 \<Rightarrow> u64 option"
  trace_entry_size :: u32
  icsk_ca_state_f :: "(u64 \<Rightarrow> u8 option) option"
  icsk_retransmits_f :: "(u64 \<Rightarrow> u8 option) option"
  icsk_pending_f :: "(u64 \<Rightarrow> u8 option) option"
  reord_seen_f :: "(u64 \<Rightarrow> u32 option) option"
  dsack_dups_f :: "(u64 \<Rightarrow> u32 option) option"
  snd_nxt_f :: "(u64 \<Rightarrow> u32 option) option"
  snd_una_f :: "(u64 \<Rightarrow> u32 option) option"
  rcv_nxt_f :: "(u64 \<Rightarrow> u32 option) option"
  skc_num :: "u64 \<Rightarrow> u16 option"
  skc_dport :: "u64 \<Rightarrow> u16 option"
  has_skc_rcv_saddr :: bool
  skc_rcv_saddr :: "u64 \<Rightarrow> u32 option"
  skc_daddr :: "u64 \<Rightarrow> u32 option"
  has_skc_v6_rcv_saddr :: bool
  skc_v6_rcv_saddr :: "u64 \<Rightarrow> 128 word option"
  skc_v6_daddr :: "u64 \<Rightarrow> 128 word option"
  skb_cb_offset :: u64
  tcb_seq_f :: "(u64 \<Rightarrow> u32 option) option"
  tcb_end_seq_f :: "(u64 \<Rightarrow> u32 option) option"
  tcb_tcp_flags_f :: "(u64 \<Rightarrow> u8 option) option"
  treq_snt_isn_f :: "(u64 \<Rightarrow> u32 option) option"
  treq_rcv_nxt_f :: "(u64 \<Rightarrow> u32 option) option"
  num_retrans_f :: "(u64 \<Rightarrow> u8 option) option"

text \<open>A guarded read keeps the old value when the field does not exist.\<close>

definition read_if :: "('k \<Rightarrow> 'v::zero option) option \<Rightarrow> 'k \<Rightarrow> 'v \<Rightarrow> 'v" where
  "read_if field p old = (case field of None \<Rightarrow> old | Some f \<Rightarrow> core_read f p)"

record retransmit_env =
  re_observed_ns :: u64
  re_limit_ns :: u64
  re_pid_tgid :: u64
  re_comm :: string

record retransmit_state =
  retransmit_events :: "tcp_retransmit_event list"
  bpf_rlimit_tcp_retransmit :: "bpf_ratelimit_event option"
  event_bpf_rlimit_tcp_retransmit :: "bpf_ratelimit_event list"

record retransmit_config =
  bpf_rlimit_interval_ns_tcp_retransmit :: u64
  bpf_rlimit_burst_tcp_retransmit :: u64
  bpf_rlimit_max_burst_tcp_retransmit :: u64

definition zero_event :: tcp_retransmit_event where
  "zero_event =
     \<lparr>kernel_observed_ns = 0, ev_tgid_pid = 0, memcg_css_addr = 0, skb_addr = 0, netns_cookie = 0,
      netns_inum = 0, ev_state = 0, reord_seen = 0, dsack_dups = 0, tcp_seq = 0, tcp_ack = 0,
      tcp_end_seq = 0, sport = 0, dport = 0, family = 0, ca_state = 0, icsk_retransmits = 0,
      event_type = 0, icsk_pending = 0, tcp_flags = 0, saddr = replicate 16 0, daddr = replicate 16 0,
      ev_comm = ''''\<rparr>"

definition init_retransmit_event :: "retransmit_env \<Rightarrow> u8 \<Rightarrow> tcp_retransmit_event \<Rightarrow> tcp_retransmit_event" where
  "init_retransmit_event env type ev =
     ev\<lparr>event_type := type, kernel_observed_ns := re_observed_ns env, ev_tgid_pid := re_pid_tgid env,
        ev_comm := re_comm env\<rparr>"

definition read_ca_state :: "'a tcp_kernel_scheme \<Rightarrow> u64 \<Rightarrow> u8" where
  "read_ca_state K sk =
     (if sk = 0 then 0
      else case icsk_ca_state_f K of None \<Rightarrow> 0
      | Some f \<Rightarrow> let ca = core_read f sk in if TCP_CA_Loss < ca then 0 else ca)"

definition read_reorder_metrics :: "'a tcp_kernel_scheme \<Rightarrow> u64 \<Rightarrow> u32 \<times> u32 \<Rightarrow> u32 \<times> u32" where
  "read_reorder_metrics K sk m =
     (if sk = 0 then m
      else (read_if (reord_seen_f K) sk (fst m), read_if (dsack_dups_f K) sk (snd m)))"

definition fill_addrs :: "'a tcp_kernel_scheme \<Rightarrow> u64 \<Rightarrow> tcp_retransmit_event \<Rightarrow> tcp_retransmit_event" where
  "fill_addrs K skc ev =
     (if skc = 0 then ev
      else if family ev = AF_INET
      then if \<not> has_skc_rcv_saddr K then ev
           else ev\<lparr>saddr := le_bytes 4 (core_read (skc_rcv_saddr K) skc) @ drop 4 (saddr ev),
                   daddr := le_bytes 4 (core_read (skc_daddr K) skc) @ drop 4 (daddr ev)\<rparr>
      else if family ev = AF_INET6
      then if \<not> has_skc_v6_rcv_saddr K then ev
           else ev\<lparr>saddr := le_bytes 16 (core_read (skc_v6_rcv_saddr K) skc),
                   daddr := le_bytes 16 (core_read (skc_v6_daddr K) skc)\<rparr>
      else ev)"

definition read_icsk_pending :: "'a tcp_kernel_scheme \<Rightarrow> u64 \<Rightarrow> tcp_retransmit_event \<Rightarrow> tcp_retransmit_event" where
  "read_icsk_pending K sk ev =
     (if sk = 0 then ev else ev\<lparr>icsk_pending := read_if (icsk_pending_f K) sk (icsk_pending ev)\<rparr>)"

definition read_tlp_tcp_info :: "'a tcp_kernel_scheme \<Rightarrow> u64 \<Rightarrow> tcp_retransmit_event \<Rightarrow> tcp_retransmit_event" where
  "read_tlp_tcp_info K sk ev =
     ev\<lparr>tcp_seq := read_if (snd_nxt_f K) sk (tcp_seq ev), tcp_ack := read_if (snd_una_f K) sk (tcp_ack ev)\<rparr>"

definition fill_retransmit_event_from_sk ::
  "'a tcp_kernel_scheme \<Rightarrow> u64 \<Rightarrow> tcp_retransmit_event \<Rightarrow> tcp_retransmit_event" where
  "fill_retransmit_event_from_sk K sk ev =
     (if sk = 0 then ev
      else
        let ev1 = ev\<lparr>ev_state := ucast (core_read (nk_skc_state K) sk),
                     family := core_read (nk_skc_family K) sk,
                     sport := core_read (skc_num K) sk,
                     dport := bpf_ntohs (core_read (skc_dport K) sk),
                     ca_state := read_ca_state K sk,
                     icsk_retransmits := read_if (icsk_retransmits_f K) sk (icsk_retransmits ev),
                     memcg_css_addr := sk_memcg_css_addr K sk,
                     netns_cookie := sk_netns_cookie K sk,
                     netns_inum := sk_netns_inum K sk\<rparr>;
            ev2 = read_icsk_pending K sk ev1;
            rm = read_reorder_metrics K sk (0, 0)
        in fill_addrs K sk (ev2\<lparr>reord_seen := fst rm, dsack_dups := snd rm\<rparr>))"

definition read_retransmit_skb_tcp_fields ::
  "'a tcp_kernel_scheme \<Rightarrow> u64 \<Rightarrow> u64 \<Rightarrow> tcp_retransmit_event \<Rightarrow> tcp_retransmit_event" where
  "read_retransmit_skb_tcp_fields K sk skb ev =
     (let tcb = skb + skb_cb_offset K;
          ev1 = (if skb \<noteq> 0
                 then ev\<lparr>tcp_seq := read_if (tcb_seq_f K) tcb (tcp_seq ev),
                         tcp_end_seq := read_if (tcb_end_seq_f K) tcb (tcp_end_seq ev),
                         tcp_flags := read_if (tcb_tcp_flags_f K) tcb (tcp_flags ev)\<rparr>
                 else ev)
      in if sk \<noteq> 0 then ev1\<lparr>tcp_ack := read_if (rcv_nxt_f K) sk (tcp_ack ev1)\<rparr> else ev1)"

definition read_retransmit_synack_tcp_fields ::
  "'a tcp_kernel_scheme \<Rightarrow> u64 \<Rightarrow> tcp_retransmit_event \<Rightarrow> tcp_retransmit_event" where
  "read_retransmit_synack_tcp_fields K req ev =
     (if req = 0 then ev
      else
        let ev1 = (case treq_snt_isn_f K of None \<Rightarrow> ev
                   | Some f \<Rightarrow> ev\<lparr>tcp_seq := core_read f req, tcp_end_seq := core_read f req + 1\<rparr>)
        in ev1\<lparr>tcp_ack := read_if (treq_rcv_nxt_f K) req (tcp_ack ev1),
               tcp_flags := TCP_WIRE_FLAGS_SYNACK\<rparr>)"

section \<open>The packet shown to the filter\<close>

text \<open>The twenty bytes of the TCP header.\<close>

definition fill_retransmit_filter_tcp :: "tcp_retransmit_event \<Rightarrow> u8 list" where
  "fill_retransmit_filter_tcp ev =
     le_bytes 2 (bpf_htons (sport ev)) @ le_bytes 2 (bpf_htons (dport ev)) @
     le_bytes 4 (bpf_htonl (tcp_seq ev)) @ le_bytes 4 (bpf_htonl (tcp_ack ev)) @
     le_bytes 4 (bpf_htonl (push_bit 28 5 OR push_bit 16 (ucast (tcp_flags ev) AND 0xff))) @
     replicate 4 0"

definition retransmit_address_is_ipv4_mapped :: "u8 list \<Rightarrow> bool" where
  "retransmit_address_is_ipv4_mapped address =
     (le32 address 0 OR le32 address 4 = 0 \<and> le32 address 8 = bpf_htonl 0x0000ffff)"

text \<open>The two packet layouts: the fields of the IP header in memory order, then TCP.\<close>

definition filter_ipv4_packet :: "u8 list \<Rightarrow> u8 list \<Rightarrow> tcp_retransmit_event \<Rightarrow> u8 list" where
  "filter_ipv4_packet src dst ev =
     [push_bit 4 4 OR 5, 0] @ le_bytes 2 (bpf_htons 40) @ [0, 0, 0, 0, 64, IPPROTO_TCP, 0, 0] @
     src @ dst @ fill_retransmit_filter_tcp ev"

definition filter_ipv6_packet :: "u8 list \<Rightarrow> u8 list \<Rightarrow> tcp_retransmit_event \<Rightarrow> u8 list" where
  "filter_ipv6_packet src dst ev =
     [push_bit 4 6, 0, 0, 0] @ le_bytes 2 (bpf_htons 20) @ [IPPROTO_TCP, 64] @
     src @ dst @ fill_retransmit_filter_tcp ev"

text \<open>The packet handed to the L3 filter, \<open>None\<close> where the probe rejects the event without asking
  it. The result of the call to the L2 stub is discarded.\<close>

definition retransmit_filter_view :: "tcp_retransmit_event \<Rightarrow> u8 list option" where
  "retransmit_filter_view ev =
     (if family ev = AF_INET
      then Some (filter_ipv4_packet (take 4 (saddr ev)) (take 4 (daddr ev)) ev)
      else if family ev = AF_INET6
      then let source_is_mapped = retransmit_address_is_ipv4_mapped (saddr ev);
               destination_is_mapped = retransmit_address_is_ipv4_mapped (daddr ev)
           in if source_is_mapped \<noteq> destination_is_mapped then None
              else if source_is_mapped
              then Some (filter_ipv4_packet (take 4 (drop 12 (saddr ev))) (take 4 (drop 12 (daddr ev))) ev)
              else Some (filter_ipv6_packet (saddr ev) (daddr ev) ev)
      else None)"

definition retransmit_filter_pass :: "(u8 list \<Rightarrow> bool) \<Rightarrow> tcp_retransmit_event \<Rightarrow> bool" where
  "retransmit_filter_pass l3 ev = (case retransmit_filter_view ev of None \<Rightarrow> False | Some packet \<Rightarrow> l3 packet)"

section \<open>Probes\<close>

text \<open>The common tail of the probes: filter, limiter, submission.\<close>

definition retransmit_submit ::
  "retransmit_config \<Rightarrow> (u8 list \<Rightarrow> bool) \<Rightarrow> u64 \<Rightarrow> tcp_retransmit_event \<Rightarrow> retransmit_state \<Rightarrow> retransmit_state" where
  "retransmit_submit cfg l3 now ev s =
     (if \<not> retransmit_filter_pass l3 ev then s
      else
        let (limited, elem, report) =
              bpf_ratelimited_in_map_rc (bpf_rlimit_interval_ns_tcp_retransmit cfg)
                (bpf_rlimit_burst_tcp_retransmit cfg) (bpf_rlimit_max_burst_tcp_retransmit cfg)
                (bpf_rlimit_tcp_retransmit s) now;
            s1 = s\<lparr>bpf_rlimit_tcp_retransmit := elem,
                   event_bpf_rlimit_tcp_retransmit := event_bpf_rlimit_tcp_retransmit s @
                     (case report of None \<Rightarrow> [] | Some r \<Rightarrow> [r])\<rparr>
        in if limited then s1 else s1\<lparr>retransmit_events := retransmit_events s1 @ [ev]\<rparr>)"

definition skb_event :: "'a tcp_kernel_scheme \<Rightarrow> retransmit_env \<Rightarrow> u64 \<Rightarrow> u64 \<Rightarrow> tcp_retransmit_event" where
  "skb_event K env skb sk =
     read_retransmit_skb_tcp_fields K sk skb
       (fill_retransmit_event_from_sk K sk
          ((init_retransmit_event env TCP_RETRANSMIT_EVENT_SKB zero_event)\<lparr>skb_addr := skb\<rparr>))"

definition retrans_skb ::
  "retransmit_config \<Rightarrow> (u8 list \<Rightarrow> bool) \<Rightarrow> 'a tcp_kernel_scheme \<Rightarrow> retransmit_env \<Rightarrow> u64 \<Rightarrow>
     retransmit_state \<Rightarrow> retransmit_state" where
  "retrans_skb cfg l3 K env ctx s =
     (let skb = tracepoint_arg (trace_entry_size K) (nk_ptr K) ctx 0;
          sk = tracepoint_arg (trace_entry_size K) (nk_ptr K) ctx 1
      in if skb = 0 \<or> sk = 0 then s
         else retransmit_submit cfg l3 (re_limit_ns env) (skb_event K env skb sk) s)"

definition synack_event :: "'a tcp_kernel_scheme \<Rightarrow> retransmit_env \<Rightarrow> u64 \<Rightarrow> u64 \<Rightarrow> tcp_retransmit_event" where
  "synack_event K env sk req =
     (let ev = init_retransmit_event env TCP_RETRANSMIT_EVENT_SYNACK zero_event;
          ev1 = (if sk \<noteq> 0
                 then ev\<lparr>family := core_read (nk_skc_family K) sk, sport := core_read (skc_num K) sk,
                         memcg_css_addr := sk_memcg_css_addr K sk, netns_cookie := sk_netns_cookie K sk,
                         netns_inum := sk_netns_inum K sk\<rparr>
                 else ev);
          ev2 = (if req \<noteq> 0
                 then ev1\<lparr>family := (if family ev1 = 0 then core_read (nk_skc_family K) req else family ev1),
                          dport := bpf_ntohs (core_read (skc_dport K) req),
                          icsk_retransmits := read_if (num_retrans_f K) req (icsk_retransmits ev1)\<rparr>
                 else ev1);
          ev3 = ev2\<lparr>ev_state := TCP_NEW_SYN_RECV, skb_addr := 0, ca_state := 0\<rparr>
      in read_retransmit_synack_tcp_fields K req (fill_addrs K req ev3))"

definition retrans_synack ::
  "retransmit_config \<Rightarrow> (u8 list \<Rightarrow> bool) \<Rightarrow> 'a tcp_kernel_scheme \<Rightarrow> retransmit_env \<Rightarrow> u64 \<Rightarrow> u64 \<Rightarrow>
     retransmit_state \<Rightarrow> retransmit_state" where
  "retrans_synack cfg l3 K env skaddr req s =
     (if skaddr = 0 \<and> req = 0 then s
      else retransmit_submit cfg l3 (re_limit_ns env) (synack_event K env skaddr req) s)"

definition tlp_event :: "'a tcp_kernel_scheme \<Rightarrow> retransmit_env \<Rightarrow> u64 \<Rightarrow> tcp_retransmit_event" where
  "tlp_event K env sk =
     read_tlp_tcp_info K sk (fill_retransmit_event_from_sk K sk
       (init_retransmit_event env TCP_RETRANSMIT_EVENT_TLP zero_event))"

definition retrans_tlp ::
  "retransmit_config \<Rightarrow> (u8 list \<Rightarrow> bool) \<Rightarrow> 'a tcp_kernel_scheme \<Rightarrow> retransmit_env \<Rightarrow> u64 \<Rightarrow>
     retransmit_state \<Rightarrow> retransmit_state" where
  "retrans_tlp cfg l3 K env sk s =
     (if sk = 0 then s else retransmit_submit cfg l3 (re_limit_ns env) (tlp_event K env sk) s)"

datatype retransmit_probe =
    Retrans_skb tcp_kernel retransmit_env u64
  | Retrans_synack tcp_kernel retransmit_env u64 u64
  | Retrans_tlp tcp_kernel retransmit_env u64

fun retransmit_step ::
  "retransmit_config \<Rightarrow> (u8 list \<Rightarrow> bool) \<Rightarrow> retransmit_probe \<Rightarrow> retransmit_state \<Rightarrow> retransmit_state" where
  "retransmit_step cfg l3 (Retrans_skb K env ctx) s = retrans_skb cfg l3 K env ctx s"
| "retransmit_step cfg l3 (Retrans_synack K env skaddr req) s = retrans_synack cfg l3 K env skaddr req s"
| "retransmit_step cfg l3 (Retrans_tlp K env sk) s = retrans_tlp cfg l3 K env sk s"

section \<open>What the filter decodes\<close>

text \<open>A decoder of TCP over IPv4 without options or over IPv6, as the packet formats define them:
  big-endian numbers at fixed offsets.\<close>

definition be16 :: "u8 list \<Rightarrow> nat \<Rightarrow> u16" where
  "be16 bs i = push_bit 8 (ucast (bs ! i)) OR ucast (bs ! (i + 1))"

definition be32 :: "u8 list \<Rightarrow> nat \<Rightarrow> u32" where
  "be32 bs i = push_bit 24 (ucast (bs ! i)) OR push_bit 16 (ucast (bs ! (i + 1))) OR
               push_bit 8 (ucast (bs ! (i + 2))) OR ucast (bs ! (i + 3))"

record tcp_packet =
  p_version :: u8
  p_src :: "u8 list"
  p_dst :: "u8 list"
  p_sport :: u16
  p_dport :: u16
  p_seq :: u32
  p_ack :: u32
  p_data_offset :: u8
  p_flags :: u8

definition decode_at :: "u8 \<Rightarrow> u8 list \<Rightarrow> u8 list \<Rightarrow> nat \<Rightarrow> u8 list \<Rightarrow> tcp_packet" where
  "decode_at version src dst n bs =
     \<lparr>p_version = version, p_src = src, p_dst = dst, p_sport = be16 bs n, p_dport = be16 bs (n + 2),
      p_seq = be32 bs (n + 4), p_ack = be32 bs (n + 8), p_data_offset = drop_bit 4 (bs ! (n + 12)),
      p_flags = bs ! (n + 13)\<rparr>"

definition decode_tcp :: "u8 list \<Rightarrow> tcp_packet option" where
  "decode_tcp bs =
     (if drop_bit 4 (bs ! 0) = 4
      then if take_bit 4 (bs ! 0) = 5 \<and> be16 bs 2 = of_nat (length bs) \<and> bs ! 9 = IPPROTO_TCP
           then Some (decode_at 4 (take 4 (drop 12 bs)) (take 4 (drop 16 bs)) 20 bs) else None
      else if drop_bit 4 (bs ! 0) = 6 \<and> be16 bs 4 + 40 = of_nat (length bs) \<and> bs ! 6 = IPPROTO_TCP
      then Some (decode_at 6 (take 16 (drop 8 bs)) (take 16 (drop 24 bs)) 40 bs) else None)"

text \<open>What an event says about its packet: the addresses are those of IPv4 when both ends are
  IPv4-mapped, and there is no packet when only one is.\<close>

definition expected_packet :: "tcp_retransmit_event \<Rightarrow> tcp_packet option" where
  "expected_packet ev =
     (let packet = (\<lambda>v src dst. Some \<lparr>p_version = v, p_src = src, p_dst = dst, p_sport = sport ev,
            p_dport = dport ev, p_seq = tcp_seq ev, p_ack = tcp_ack ev, p_data_offset = 5,
            p_flags = tcp_flags ev\<rparr>);
          mapped = (\<lambda>a. take 12 a = [0, 0, 0, 0, 0, 0, 0, 0, 0, 0, 0xff, 0xff])
      in if family ev = AF_INET then packet 4 (take 4 (saddr ev)) (take 4 (daddr ev))
         else if family ev = AF_INET6
         then if mapped (saddr ev) \<noteq> mapped (daddr ev) then None
              else if mapped (saddr ev) then packet 4 (drop 12 (saddr ev)) (drop 12 (daddr ev))
              else packet 6 (saddr ev) (daddr ev)
         else None)"

lemma length_le_bytes [simp]: "length (le_bytes n w) = n"
  by (simp add: le_bytes_def)

lemma le_bytes_2: "le_bytes 2 w = [ucast w, ucast (drop_bit 8 w)]"
  by (simp add: le_bytes_def upt_rec)

lemma le_bytes_4: "le_bytes 4 w = [ucast w, ucast (drop_bit 8 w), ucast (drop_bit 16 w), ucast (drop_bit 24 w)]"
  by (simp add: le_bytes_def upt_rec)

lemma htons_bytes: "le_bytes 2 (bpf_htons v) = [ucast (drop_bit 8 v), ucast v]"
  unfolding le_bytes_2 bpf_htons_def
  by (auto intro!: bit_eqI simp: bit_simps dest: bit_imp_le_length)

lemma bit_byte_masks:
  "bit (255 :: int) n \<longleftrightarrow> n < 8" "bit (65280 :: int) n \<longleftrightarrow> 8 \<le> n \<and> n < 16"
proof -
  have "(255 :: int) = mask 8" and *: "(65280 :: int) = push_bit 8 (mask 8)"
    by (simp_all add: mask_eq_exp_minus_1 push_bit_eq_mult)
  then show "bit (255 :: int) n \<longleftrightarrow> n < 8" by (simp only: bit_simps) auto
  show "bit (65280 :: int) n \<longleftrightarrow> 8 \<le> n \<and> n < 16" unfolding * by (simp only: bit_simps) auto
qed

lemma htonl_bytes:
  "le_bytes 4 (bpf_htonl v) = [ucast (drop_bit 24 v), ucast (drop_bit 16 v), ucast (drop_bit 8 v), ucast v]"
  unfolding le_bytes_4 bpf_htonl_def
  by (auto intro!: bit_eqI simp: bit_simps bit_byte_masks dest: bit_imp_le_length)

lemma be16_bytes: "push_bit 8 (ucast (ucast (drop_bit 8 v) :: u8)) OR ucast (ucast v :: u8) = v" for v :: u16
  by (auto intro!: bit_eqI simp: bit_simps)

lemma be32_bytes:
  "push_bit 24 (ucast (ucast (drop_bit 24 v) :: u8)) OR push_bit 16 (ucast (ucast (drop_bit 16 v) :: u8)) OR
   push_bit 8 (ucast (ucast (drop_bit 8 v) :: u8)) OR ucast (ucast v :: u8) = v" for v :: u32
proof (rule bit_eqI)
  fix n assume "possible_bit TYPE(32 word) n"
  then consider "n < 8" | "8 \<le> n" "n < 16" | "16 \<le> n" "n < 24" | "24 \<le> n" "n < 32" by fastforce
  then show "bit (push_bit 24 (ucast (ucast (drop_bit 24 v) :: u8)) OR
      push_bit 16 (ucast (ucast (drop_bit 16 v) :: u8)) OR push_bit 8 (ucast (ucast (drop_bit 8 v) :: u8)) OR
      ucast (ucast v :: u8) :: u32) n = bit v n"
    by cases (auto simp: bit_simps)
qed

lemma bit_data_offset:
  "n < 8 \<Longrightarrow> \<not> bit (20480 :: int) n" "n < 8 \<Longrightarrow> \<not> bit (5242880 :: int) n"
  "n < 8 \<Longrightarrow> \<not> bit (1342177280 :: int) n"
proof -
  have *: "(20480 :: int) = push_bit 12 5" "(5242880 :: int) = push_bit 20 5"
    "(1342177280 :: int) = push_bit 28 5"
    by (simp_all add: push_bit_eq_mult)
  show "n < 8 \<Longrightarrow> \<not> bit (20480 :: int) n" "n < 8 \<Longrightarrow> \<not> bit (5242880 :: int) n"
    "n < 8 \<Longrightarrow> \<not> bit (1342177280 :: int) n"
    unfolding * by (simp_all only: bit_simps) simp_all
qed

lemma flag_word_bytes:
  "le_bytes 4 (bpf_htonl (push_bit 28 5 OR push_bit 16 (ucast f AND 0xff))) = [0x50, f, 0, 0]" for f :: u8
proof -
  have "ucast (drop_bit 24 (push_bit 28 5 OR push_bit 16 (ucast f AND 0xff) :: u32)) = (0x50 :: u8)"
    by (rule bit_eqI) (auto simp: bit_simps bit_byte_masks bit_data_offset dest: bit_imp_le_length)
  moreover have "ucast (drop_bit 16 (push_bit 28 5 OR push_bit 16 (ucast f AND 0xff) :: u32)) = f"
    by (rule bit_eqI) (auto simp: bit_simps bit_byte_masks bit_data_offset dest: bit_imp_le_length)
  moreover have "ucast (drop_bit 8 (push_bit 28 5 OR push_bit 16 (ucast f AND 0xff) :: u32)) = (0 :: u8)"
    by (rule bit_eqI) (auto simp: bit_simps bit_byte_masks bit_data_offset dest: bit_imp_le_length)
  moreover have "ucast (push_bit 28 5 OR push_bit 16 (ucast f AND 0xff) :: u32) = (0 :: u8)"
    by (rule bit_eqI) (auto simp: bit_simps bit_byte_masks bit_data_offset dest: bit_imp_le_length)
  ultimately show ?thesis unfolding htonl_bytes by simp
qed

lemma four_zeros: "replicate 4 (0 :: u8) = [0, 0, 0, 0]"
  by (simp add: numeral_eq_Suc)

lemma tcp_header:
  "fill_retransmit_filter_tcp ev =
     [ucast (drop_bit 8 (sport ev)), ucast (sport ev), ucast (drop_bit 8 (dport ev)), ucast (dport ev),
      ucast (drop_bit 24 (tcp_seq ev)), ucast (drop_bit 16 (tcp_seq ev)), ucast (drop_bit 8 (tcp_seq ev)),
      ucast (tcp_seq ev), ucast (drop_bit 24 (tcp_ack ev)), ucast (drop_bit 16 (tcp_ack ev)),
      ucast (drop_bit 8 (tcp_ack ev)), ucast (tcp_ack ev), 0x50, tcp_flags ev, 0, 0, 0, 0, 0, 0]"
  unfolding fill_retransmit_filter_tcp_def flag_word_bytes
  unfolding htons_bytes htonl_bytes four_zeros by simp

lemma decode_at_shift:
  assumes "length hdr = n"
  shows "decode_at v src dst n (hdr @ t) = decode_at v src dst 0 t"
proof -
  have zero: "(hdr @ t) ! length hdr = t ! 0" using nth_append_length_plus [of hdr t 0] by simp
  show ?thesis
    unfolding assms [symmetric] decode_at_def be16_def be32_def
    by (simp only: add.assoc nth_append_length_plus zero add_0)
qed

lemma decode_at_header:
  "length hdr = n \<Longrightarrow> decode_at v src dst n (hdr @ fill_retransmit_filter_tcp ev) =
    \<lparr>p_version = v, p_src = src, p_dst = dst, p_sport = sport ev, p_dport = dport ev, p_seq = tcp_seq ev,
     p_ack = tcp_ack ev, p_data_offset = 5, p_flags = tcp_flags ev\<rparr>"
  by (simp only: decode_at_shift) (simp add: tcp_header decode_at_def be16_def be32_def be16_bytes be32_bytes)

lemma byte_bit: "\<not> bit (b :: u8) (8 + n)" "8 \<le> m \<Longrightarrow> \<not> bit b m"
  by (auto dest: bit_imp_le_length)

lemma le32_byte:
  assumes "k < 4"
  shows "ucast (drop_bit (8 * k) (le32 bs i)) = bs ! (i + k)"
proof (rule bit_eqI)
  fix n assume "possible_bit TYPE(8 word) n"
  then have n: "n < 8" by simp
  consider "k = 0" | "k = 1" | "k = 2" | "k = 3" using assms by fastforce
  then show "bit (ucast (drop_bit (8 * k) (le32 bs i)) :: u8) n = bit (bs ! (i + k)) n"
    using n by cases (simp_all add: le32_def bit_simps byte_bit)
qed
lemma le32_bytes: "le32 [ucast w, ucast (drop_bit 8 w), ucast (drop_bit 16 w), ucast (drop_bit 24 w)] 0 = w"
  using be32_bytes [of w] by (simp add: le32_def ac_simps)

lemma le32_eq_iff:
  "le32 bs i = w \<longleftrightarrow> bs ! i = ucast w \<and> bs ! (i + 1) = ucast (drop_bit 8 w) \<and>
     bs ! (i + 2) = ucast (drop_bit 16 w) \<and> bs ! (i + 3) = ucast (drop_bit 24 w)"
  using le32_bytes [of w] le32_byte [of 0 bs i] le32_byte [of 1 bs i] le32_byte [of 2 bs i] le32_byte [of 3 bs i]
  by (auto simp: le32_def)

lemma mapped_bytes:
  assumes "length a = 16"
  shows "retransmit_address_is_ipv4_mapped a \<longleftrightarrow> take 12 a = [0, 0, 0, 0, 0, 0, 0, 0, 0, 0, 0xff, 0xff]"
proof -
  have swap: "bpf_htonl 0x0000ffff = 0xffff0000" by (simp add: bpf_htonl_def)
  have "retransmit_address_is_ipv4_mapped a \<longleftrightarrow>
      le32 a 0 = 0 \<and> le32 a 4 = 0 \<and> le32 a 8 = 0xffff0000"
    by (simp add: retransmit_address_is_ipv4_mapped_def swap or_eq_0_iff)
  also have "\<dots> \<longleftrightarrow> take 12 a = [0, 0, 0, 0, 0, 0, 0, 0, 0, 0, 0xff, 0xff]"
  proof -
    obtain a0 a1 a2 a3 a4 a5 a6 a7 a8 a9 a10 a11 rest where
      "a = [a0, a1, a2, a3, a4, a5, a6, a7, a8, a9, a10, a11] @ rest"
      using assms by (auto simp: numeral_eq_Suc length_Suc_conv)
    moreover have nums: "(4294901760 :: u8) = 0" "(16776960 :: u8) = 0" "(65535 :: u8) = 255" by simp_all
    ultimately show ?thesis unfolding le32_eq_iff by (simp add: nums)
  qed
  finally show ?thesis .
qed
lemma length_tcp_header: "length (fill_retransmit_filter_tcp ev) = 20"
  by (simp add: tcp_header)

lemma tot_len_bytes: "le_bytes 2 (bpf_htons 40) = [0, 40]" "le_bytes 2 (bpf_htons 20) = [0, 20]"
  unfolding htons_bytes by simp_all

lemma decode_ipv4:
  assumes "length src = 4" "length dst = 4"
  shows "decode_tcp (filter_ipv4_packet src dst ev) = Some
    \<lparr>p_version = 4, p_src = src, p_dst = dst, p_sport = sport ev, p_dport = dport ev, p_seq = tcp_seq ev,
     p_ack = tcp_ack ev, p_data_offset = 5, p_flags = tcp_flags ev\<rparr>"
proof -
  let ?hdr = "[0x45, 0, 0, 40, 0, 0, 0, 0, 64, IPPROTO_TCP, 0, 0] @ src @ dst"
  define bs where "bs = ?hdr @ fill_retransmit_filter_tcp ev"
  have packet: "filter_ipv4_packet src dst ev = bs"
    by (simp add: filter_ipv4_packet_def bs_def tot_len_bytes)
  have dec: "decode_at 4 src dst 20 bs = 
    \<lparr>p_version = 4, p_src = src, p_dst = dst, p_sport = sport ev, p_dport = dport ev, p_seq = tcp_seq ev,
     p_ack = tcp_ack ev, p_data_offset = 5, p_flags = tcp_flags ev\<rparr>"
    unfolding bs_def using assms by (intro decode_at_header) simp
  have "take 4 (drop 12 bs) = src" "take 4 (drop 16 bs) = dst"
    using assms by (simp_all add: bs_def)
  moreover have "be16 bs 2 = 40" by (simp add: bs_def be16_def)
  moreover have "bs ! 0 = 0x45" "bs ! 9 = IPPROTO_TCP" by (simp_all add: bs_def)
  moreover have "length bs = 40" using assms by (simp add: bs_def length_tcp_header)
  ultimately show ?thesis unfolding packet decode_tcp_def by (simp add: dec)
qed

lemma decode_ipv6:
  assumes "length src = 16" "length dst = 16"
  shows "decode_tcp (filter_ipv6_packet src dst ev) = Some
    \<lparr>p_version = 6, p_src = src, p_dst = dst, p_sport = sport ev, p_dport = dport ev, p_seq = tcp_seq ev,
     p_ack = tcp_ack ev, p_data_offset = 5, p_flags = tcp_flags ev\<rparr>"
proof -
  let ?hdr = "[0x60, 0, 0, 0, 0, 20, IPPROTO_TCP, 64] @ src @ dst"
  define bs where "bs = ?hdr @ fill_retransmit_filter_tcp ev"
  have packet: "filter_ipv6_packet src dst ev = bs"
    by (simp add: filter_ipv6_packet_def bs_def tot_len_bytes)
  have dec: "decode_at 6 src dst 40 bs = 
    \<lparr>p_version = 6, p_src = src, p_dst = dst, p_sport = sport ev, p_dport = dport ev, p_seq = tcp_seq ev,
     p_ack = tcp_ack ev, p_data_offset = 5, p_flags = tcp_flags ev\<rparr>"
    unfolding bs_def using assms by (intro decode_at_header) simp
  have "take 16 (drop 8 bs) = src" "take 16 (drop 24 bs) = dst"
    using assms by (simp_all add: bs_def)
  moreover have "be16 bs 4 = 20" by (simp add: bs_def be16_def)
  moreover have "bs ! 0 = 0x60" "bs ! 6 = IPPROTO_TCP" by (simp_all add: bs_def)
  moreover have "length bs = 60" using assms by (simp add: bs_def length_tcp_header)
  ultimately show ?thesis unfolding packet decode_tcp_def by (simp add: dec)
qed

lemma decode_view:
  assumes "length (saddr ev) = 16" "length (daddr ev) = 16"
  shows "Option.bind (retransmit_filter_view ev) decode_tcp = expected_packet ev"
  using assms
  by (simp add: retransmit_filter_view_def expected_packet_def Let_def mapped_bytes decode_ipv4 decode_ipv6)

text \<open>Every event a probe builds has addresses of sixteen bytes.\<close>

definition addr_ok :: "tcp_retransmit_event \<Rightarrow> bool" where
  "addr_ok ev = (length (saddr ev) = 16 \<and> length (daddr ev) = 16)"

lemma fill_addrs_ok: "addr_ok ev \<Longrightarrow> addr_ok (fill_addrs K skc ev)"
  by (simp add: addr_ok_def fill_addrs_def)

lemma built_events_ok:
  "addr_ok (skb_event K env skb sk)" "addr_ok (synack_event K env sk req)" "addr_ok (tlp_event K env sk)"
proof -
  have zero: "addr_ok (init_retransmit_event env t zero_event)" for t
    by (simp add: addr_ok_def init_retransmit_event_def zero_event_def)
  have fill: "addr_ok (fill_retransmit_event_from_sk K sk ev)" if "addr_ok ev" for ev
  proof (cases "sk = 0")
    case False
    then show ?thesis
      unfolding fill_retransmit_event_from_sk_def Let_def read_icsk_pending_def
      using that by (simp only: if_False) (intro fill_addrs_ok, simp add: addr_ok_def)
  qed (use that in \<open>simp add: fill_retransmit_event_from_sk_def\<close>)
  have keep: "addr_ok (read_retransmit_skb_tcp_fields K sk skb ev) = addr_ok ev"
    "addr_ok (read_tlp_tcp_info K sk ev) = addr_ok ev"
    "addr_ok (read_retransmit_synack_tcp_fields K req ev) = addr_ok ev" for ev
    by (simp_all add: addr_ok_def read_retransmit_skb_tcp_fields_def read_tlp_tcp_info_def
        read_retransmit_synack_tcp_fields_def Let_def split: option.split)
  show "addr_ok (skb_event K env skb sk)"
    unfolding skb_event_def keep using zero by (intro fill) (simp add: addr_ok_def)
  show "addr_ok (tlp_event K env sk)" unfolding tlp_event_def keep by (rule fill [OF zero])
  show "addr_ok (synack_event K env sk req)"
    unfolding synack_event_def Let_def keep using zero by (intro fill_addrs_ok) (simp add: addr_ok_def)
qed

text \<open>C19. The filter decides on the packet the event describes: for every filter that looks at the
  decoded packet, and for the events of all three probes, the verdict is that of the filter on
  the addresses, ports, sequence numbers and flags of the event. Sockets with IPv4-mapped
  addresses are seen as IPv4, and an event with one mapped address or another family never
  passes.\<close>

theorem filter_sees_event:
  "let accepts = (\<lambda>P packet. case packet of None \<Rightarrow> False | Some p \<Rightarrow> P p);
       agrees = (\<lambda>P ev. retransmit_filter_pass (\<lambda>bs. accepts P (decode_tcp bs)) ev = accepts P (expected_packet ev))
   in agrees P (skb_event K env skb sk) \<and> agrees P (synack_event K env sk req) \<and> agrees P (tlp_event K env sk)"
proof -
  have "retransmit_filter_pass (\<lambda>bs. case decode_tcp bs of None \<Rightarrow> False | Some p \<Rightarrow> P p) ev =
      (case expected_packet ev of None \<Rightarrow> False | Some p \<Rightarrow> P p)" if "addr_ok ev" for ev
    using decode_view [of ev] that
    by (cases "retransmit_filter_view ev") (simp_all add: retransmit_filter_pass_def addr_ok_def flip: decode_view)
  then show ?thesis by (simp add: Let_def built_events_ok)
qed

section \<open>Rate\<close>

text \<open>The event of a firing, if its arguments are usable, and the reading given to the limiter.\<close>

fun probe_event :: "retransmit_probe \<Rightarrow> tcp_retransmit_event option" where
  "probe_event (Retrans_skb K env ctx) =
     (let skb = tracepoint_arg (trace_entry_size K) (nk_ptr K) ctx 0;
          sk = tracepoint_arg (trace_entry_size K) (nk_ptr K) ctx 1
      in if skb = 0 \<or> sk = 0 then None else Some (skb_event K env skb sk))"
| "probe_event (Retrans_synack K env skaddr req) =
     (if skaddr = 0 \<and> req = 0 then None else Some (synack_event K env skaddr req))"
| "probe_event (Retrans_tlp K env sk) = (if sk = 0 then None else Some (tlp_event K env sk))"

fun probe_time :: "retransmit_probe \<Rightarrow> u64" where
  "probe_time (Retrans_skb K env ctx) = re_limit_ns env"
| "probe_time (Retrans_synack K env skaddr req) = re_limit_ns env"
| "probe_time (Retrans_tlp K env sk) = re_limit_ns env"

definition retransmit_offer :: "(u8 list \<Rightarrow> bool) \<Rightarrow> retransmit_probe \<Rightarrow> retransmit_state \<Rightarrow> u64 option" where
  "retransmit_offer l3 e s =
     (case probe_event e of None \<Rightarrow> None
      | Some ev \<Rightarrow> if retransmit_filter_pass l3 ev then Some (probe_time e) else None)"

lemma retransmit_step_event:
  "retransmit_step cfg l3 e s =
     (case probe_event e of None \<Rightarrow> s | Some ev \<Rightarrow> retransmit_submit cfg l3 (probe_time e) ev s)"
  by (cases e) (simp_all add: retrans_skb_def retrans_synack_def retrans_tlp_def Let_def)

interpretation retransmit: limited_output
  "in_map_call (bpf_rlimit_interval_ns_tcp_retransmit cfg) (bpf_rlimit_burst_tcp_retransmit cfg)
     (bpf_rlimit_max_burst_tcp_retransmit cfg)"
  "\<lambda>e. bpf_rlimit_interval_ns_tcp_retransmit cfg \<noteq> 0 \<and> e = Some (BPF_RATELIMIT 0 0)"
  "unat (bpf_rlimit_interval_ns_tcp_retransmit cfg)" "unat (bpf_rlimit_burst_tcp_retransmit cfg)"
  "retransmit_step cfg l3" bpf_rlimit_tcp_retransmit "\<lambda>s. length (retransmit_events s)"
  "retransmit_offer l3" probe_time for cfg l3
  by unfold_locales
    (auto simp: retransmit_offer_def retransmit_step_event retransmit_submit_def in_map_call_def Let_def
      case_prod_beta split: option.splits if_splits)

text \<open>The output is bounded by the configured rate: from the loaded object, over any sequence of
  retransmissions at non-decreasing clock readings and with any filter, at most \<open>burst\<close> events are
  submitted per interval started, counted from the first reading to the last.\<close>

theorem retransmit_rate_bound:
  assumes "bpf_rlimit_interval_ns_tcp_retransmit cfg \<noteq> 0"
    and "bpf_rlimit_tcp_retransmit s = Some (BPF_RATELIMIT 0 0)" and "retransmit_events s = []"
    and "sorted (map (unat \<circ> probe_time) es)" and "0 \<notin> set (map probe_time es)" and "es \<noteq> []"
  shows "length (retransmit_events (fold (retransmit_step cfg l3) es s)) \<le>
    unat (bpf_rlimit_burst_tcp_retransmit cfg) *
    ((unat (probe_time (last es)) - unat (probe_time (hd es))) div
       unat (bpf_rlimit_interval_ns_tcp_retransmit cfg) + 1)"
  using retransmit.rate_bound [OF conjI [OF assms(1,2)] assms(4-6), of l3] assms(3) by simp

definition demo_retransmit_kernel :: tcp_kernel where
  "demo_retransmit_kernel =
     \<lparr>nk_str = Map.empty, nk_bytes = (\<lambda>_ _. None), nk_head = Map.empty, nk_tail = Map.empty,
      nk_mac_header = Map.empty, nk_network_header = Map.empty, nk_transport_header = Map.empty,
      nk_mac_len = Map.empty, nk_protocol = Map.empty, nk_len = Map.empty, nk_queue_mapping = Map.empty,
      nk_skb_sk = Map.empty, nk_skb_dev = Map.empty, nk_ifindex = Map.empty, nk_dev_state = Map.empty,
      nk_dev_flags = Map.empty, nk_dev_net = Map.empty, nk_dev_name_offset = 0, nk_sk_net = Map.empty,
      nk_has_net_cookie = False, nk_net_cookie = Map.empty, nk_net_inum = Map.empty,
      nk_has_sk_memcg = False, nk_sk_memcg = Map.empty, nk_skc_state = [9 \<mapsto> 1], nk_skc_family = [9 \<mapsto> AF_INET],
      nk_ptr = Map.empty, trace_entry_size = 8, icsk_ca_state_f = None, icsk_retransmits_f = None,
      icsk_pending_f = None, reord_seen_f = None, dsack_dups_f = None, snd_nxt_f = Some [9 \<mapsto> 1000],
      snd_una_f = Some [9 \<mapsto> 900], rcv_nxt_f = None, skc_num = [9 \<mapsto> 80], skc_dport = [9 \<mapsto> 0x3412],
      has_skc_rcv_saddr = True, skc_rcv_saddr = [9 \<mapsto> 0x0100007f], skc_daddr = [9 \<mapsto> 0x0200007f],
      has_skc_v6_rcv_saddr = False, skc_v6_rcv_saddr = Map.empty, skc_v6_daddr = Map.empty,
      skb_cb_offset = 40, tcb_seq_f = None, tcb_end_seq_f = None, tcb_tcp_flags_f = None,
      treq_snt_isn_f = None, treq_rcv_nxt_f = None, num_retrans_f = None\<rparr>"

definition demo_retransmit_env :: "u64 \<Rightarrow> retransmit_env" where
  "demo_retransmit_env now =
     \<lparr>re_observed_ns = now, re_limit_ns = now, re_pid_tgid = 7, re_comm = ''curl''\<rparr>"

definition demo_retransmit_config :: retransmit_config where
  "demo_retransmit_config =
     \<lparr>bpf_rlimit_interval_ns_tcp_retransmit = 1000, bpf_rlimit_burst_tcp_retransmit = 2,
      bpf_rlimit_max_burst_tcp_retransmit = 0\<rparr>"

end
