(* ===== verification/Dropwatch.thy ===== *)
theory Dropwatch
  imports Net_Common Ratelimit "HOL-Library.Sublist"
begin

text \<open>
  \<^verbatim>\<open>bpf/net_dropwatch.c\<close> with \<^verbatim>\<open>abi/dropwatch_types.h\<close>: one event per dropped packet, software drops
  from \<^verbatim>\<open>kfree_skb\<close> and hardware drops from devlink traps. A packet dropped by hardware is freed
  later, so the second report of it is recognised by a marker. Events are built in a per-CPU
  buffer. The packet filters are compiled by user space and are parameters.
\<close>

section \<open>Model\<close>

record dropwatch_packet_meta =
  dm_kernel_observed_ns :: u64
  dm_tgid_pid :: u64
  dm_netns_cookie :: u64
  dm_skb_addr :: u64
  dm_drop_location :: u64
  dm_memcg_css_addr :: u64
  dm_ifindex :: u32
  dm_dev_flags :: u32
  dm_queue_mapping :: u32
  dm_drop_reason :: u32
  dm_netns_inum :: u32
  dm_drop_source :: u32
  dm_dev_name :: string
  dm_comm :: string
  dm_trap_name :: string
  dm_trap_group_name :: string

record dropwatch_packet_raw =
  eth_proto :: u16
  raw_len :: u16
  has_eth_hdr :: u16
  packet_len_bytes :: u32
  sk_state :: u32
  raw :: "u8 list"

record dropwatch_packet_event =
  meta :: dropwatch_packet_meta
  pkt_hdr :: dropwatch_packet_raw
  dw_stack_size :: u64
  dw_stack :: "u64 list"

abbreviation (input) "DROPWATCH_PACKET_RAW_LEN \<equiv> 120 :: nat"
abbreviation (input) "DROPWATCH_TRAP_NAME_LEN \<equiv> 64 :: nat"
abbreviation (input) "PERF_MAX_STACK_DEPTH \<equiv> 127 :: nat"
abbreviation (input) "DROPWATCH_DROP_SOURCE_SOFTWARE \<equiv> 1 :: u32"
abbreviation (input) "DROPWATCH_DROP_SOURCE_HARDWARE \<equiv> 2 :: u32"
abbreviation (input) "HARDWARE_DROP_DEDUP_WINDOW_NS \<equiv> 1000000000 :: u64"
abbreviation (input) "DEVLINK_TRAP_TYPE_DROP \<equiv> 0 :: u32"
abbreviation (input) "SOCK_STREAM \<equiv> 1 :: u16"
abbreviation (input) "SKB_DROP_REASON_NOT_SUPPORTED \<equiv> - 1 :: u32"

text \<open>The flags word exists on old kernels only; \<open>None\<close> is a kernel without it.\<close>

record dropwatch_kernel = net_kernel +
  sk_flags_f :: "(u64 \<Rightarrow> u32 option) option"
  sk_protocol_f :: "u64 \<Rightarrow> u16 option"
  sk_type_f :: "u64 \<Rightarrow> u16 option"
  md_trap_type :: "u64 \<Rightarrow> u32 option"
  md_input_dev :: "u64 \<Rightarrow> u64 option"
  md_trap_name :: "u64 \<Rightarrow> u64 option"
  md_trap_group_name :: "u64 \<Rightarrow> u64 option"

text \<open>What a firing gets from the kernel helpers: the three clock readings, the CPU, the current
  task, the frames of the stack and their size, the result of the submission, and the fate of the marker updates. An insertion
  into the LRU map may evict any rows.\<close>

record dropwatch_env =
  de_dedup_ns :: u64
  de_now :: u64
  de_limit_ns :: u64
  de_cpu :: u32
  de_pid_tgid :: u64
  de_comm :: string
  de_stack :: "u64 list"
  de_stack_size :: u64
  de_output_ret :: int
  de_update_fault :: map_fault
  de_evicted :: "u64 list"
  de_delete_fault :: map_fault

record dropwatch_config =
  dw_filter :: skb_filter
  dw_l2 :: "dropwatch_kernel \<Rightarrow> pcap_stub"
  dw_l3 :: "dropwatch_kernel \<Rightarrow> pcap_stub"
  bpf_rlimit_interval_ns_dropwatch :: u64
  bpf_rlimit_burst_dropwatch :: u64
  bpf_rlimit_max_burst_dropwatch :: u64

record dropwatch_state =
  dropwatch_events :: "dropwatch_packet_event list"
  dropwatch_stackmap :: "(u32 \<Rightarrow> dropwatch_packet_event) option"
  bpf_perf_out_dropwatch :: "(u32 \<Rightarrow> u64) option"
  dropwatch_hardware_skb :: "u64 \<rightharpoonup> u64"
  bpf_rlimit_dropwatch :: "bpf_ratelimit_event option"
  event_bpf_rlimit_dropwatch :: "bpf_ratelimit_event list"

record kfree_skb_ctx =
  kf_skbaddr :: u64
  kf_location :: u64
  kf_reason :: "u32 option"

abbreviation (input) "zero_str n \<equiv> replicate n (CHR 0x00)"

definition zero_drop :: dropwatch_packet_event where
  "zero_drop =
     \<lparr>meta = \<lparr>dm_kernel_observed_ns = 0, dm_tgid_pid = 0, dm_netns_cookie = 0, dm_skb_addr = 0,
        dm_drop_location = 0, dm_memcg_css_addr = 0, dm_ifindex = 0, dm_dev_flags = 0,
        dm_queue_mapping = 0, dm_drop_reason = 0, dm_netns_inum = 0, dm_drop_source = 0,
        dm_dev_name = zero_str IFNAMSIZ, dm_comm = zero_str 16,
        dm_trap_name = zero_str DROPWATCH_TRAP_NAME_LEN,
        dm_trap_group_name = zero_str DROPWATCH_TRAP_NAME_LEN\<rparr>,
      pkt_hdr = \<lparr>eth_proto = 0, raw_len = 0, has_eth_hdr = 0, packet_len_bytes = 0, sk_state = 0,
        raw = replicate DROPWATCH_PACKET_RAW_LEN 0\<rparr>,
      dw_stack_size = 0, dw_stack = replicate PERF_MAX_STACK_DEPTH 0\<rparr>"

definition skb_get_drop_reason :: "kfree_skb_ctx \<Rightarrow> u32" where
  "skb_get_drop_reason ctx =
     (case kf_reason ctx of Some reason \<Rightarrow> reason | None \<Rightarrow> SKB_DROP_REASON_NOT_SUPPORTED)"

definition sk_get_type_and_protocol :: "'a dropwatch_kernel_scheme \<Rightarrow> u64 \<Rightarrow> u16 \<times> u16" where
  "sk_get_type_and_protocol K sk =
     (case sk_flags_f K of
        Some flags \<Rightarrow>
          let sk_flags = core_read flags sk in (ucast (drop_bit 8 sk_flags), ucast (drop_bit 16 sk_flags))
      | None \<Rightarrow> (core_read (sk_protocol_f K) sk, core_read (sk_type_f K) sk))"

definition skb_load_packet_raw ::
  "'a net_kernel_scheme \<Rightarrow> u64 \<Rightarrow> u16 \<Rightarrow> dropwatch_packet_raw \<Rightarrow> dropwatch_packet_raw" where
  "skb_load_packet_raw K skb skb_protocol pkt_raw =
     (if skb_protocol \<noteq> ETH_P_IP \<and> skb_protocol \<noteq> ETH_P_IPV6 \<and> skb_protocol \<noteq> ETH_P_ARP then pkt_raw
      else
        let pkt1 = pkt_raw\<lparr>eth_proto := skb_protocol\<rparr>;
            (hdr, pkt2) = (if 0 < core_read (nk_mac_len K) skb
                           then (skb_mac_header K skb, pkt1\<lparr>has_eth_hdr := 1\<rparr>)
                           else (skb_network_header K skb, pkt1))
        in case nk_bytes K hdr DROPWATCH_PACKET_RAW_LEN of
             None \<Rightarrow> pkt2\<lparr>raw := replicate DROPWATCH_PACKET_RAW_LEN 0\<rparr>
           | Some bytes \<Rightarrow> pkt2\<lparr>raw := bytes, raw_len := of_nat DROPWATCH_PACKET_RAW_LEN\<rparr>)"

definition dropwatch_skip_hardware_duplicate ::
  "dropwatch_env \<Rightarrow> u64 \<Rightarrow> dropwatch_state \<Rightarrow> bool \<times> dropwatch_state" where
  "dropwatch_skip_hardware_duplicate env skb s =
     (case dropwatch_hardware_skb s skb of
        None \<Rightarrow> (False, s)
      | Some timestamp \<Rightarrow>
          let s1 = s\<lparr>dropwatch_hardware_skb :=
                      snd (bpf_map_delete_elem (de_delete_fault env) skb (dropwatch_hardware_skb s))\<rparr>;
              now = de_dedup_ns env
          in (timestamp \<le> now \<and> now - timestamp \<le> HARDWARE_DROP_DEDUP_WINDOW_NS, s1))"

definition drop_event_filter_pass :: "dropwatch_config \<Rightarrow> dropwatch_kernel \<Rightarrow> u64 \<Rightarrow> u64 \<Rightarrow> bool" where
  "drop_event_filter_pass cfg K skb dev =
     (skb_filter_pass_netdev (dw_filter cfg) K dev \<and> PCAP_STUB_PASS_SKB (dw_l2 cfg K) (dw_l3 cfg K) K skb)"

text \<open>The fields written into the buffer of the CPU.\<close>

definition drop_event_meta ::
  "'a dropwatch_kernel_scheme \<Rightarrow> dropwatch_env \<Rightarrow> u64 \<Rightarrow> u64 \<Rightarrow> u32 \<Rightarrow> u64 \<Rightarrow> u32 \<Rightarrow> u64 \<Rightarrow> u64 \<Rightarrow>
     dropwatch_packet_meta \<Rightarrow> dropwatch_packet_meta" where
  "drop_event_meta K env skb dev source drop_location drop_reason trap_name trap_group_name m =
     (let m1 = m\<lparr>dm_kernel_observed_ns := de_now env, dm_tgid_pid := de_pid_tgid env,
                 dm_comm := de_comm env, dm_skb_addr := skb, dm_drop_location := drop_location,
                 dm_queue_mapping := ucast (core_read (nk_queue_mapping K) skb),
                 dm_drop_reason := drop_reason, dm_drop_source := source\<rparr>;
          m2 = (if trap_name = 0 then m1
                else m1\<lparr>dm_trap_name := store_str DROPWATCH_TRAP_NAME_LEN
                  (probe_read_str (nk_str K) DROPWATCH_TRAP_NAME_LEN trap_name) (dm_trap_name m1)\<rparr>);
          m3 = (if trap_group_name = 0 then m2
                else m2\<lparr>dm_trap_group_name := store_str DROPWATCH_TRAP_NAME_LEN
                  (probe_read_str (nk_str K) DROPWATCH_TRAP_NAME_LEN trap_group_name) (dm_trap_group_name m2)\<rparr>);
          m4 = m3\<lparr>dm_memcg_css_addr := skb_memcg_css_addr K skb, dm_netns_cookie := skb_netns_cookie K skb,
                  dm_netns_inum := skb_netns_inum K skb,
                  dm_dev_name := CHR ''-'' # tl (dm_dev_name m3)\<rparr>
      in if dev = 0 then m4
         else m4\<lparr>dm_dev_flags := netif_get_flags K dev, dm_ifindex := core_read (nk_ifindex K) dev,
                 dm_dev_name := store_str IFNAMSIZ
                   (probe_read_str (nk_str K) IFNAMSIZ (dev + nk_dev_name_offset K)) (dm_dev_name m4)\<rparr>)"

definition drop_event_packet ::
  "'a dropwatch_kernel_scheme \<Rightarrow> u64 \<Rightarrow> dropwatch_packet_raw \<Rightarrow> dropwatch_packet_raw" where
  "drop_event_packet K skb p =
     (let p1 = p\<lparr>packet_len_bytes := core_read (nk_len K) skb\<rparr>;
          sk = core_read (nk_skb_sk K) skb;
          (sk_protocol, sk_type) = sk_get_type_and_protocol K sk
      in if sk \<noteq> 0 \<and> (ucast sk_protocol :: u8) = IPPROTO_TCP \<and> sk_type = SOCK_STREAM \<and>
            core_read (nk_skc_family K) sk = AF_INET
         then p1\<lparr>sk_state := ucast (core_read (nk_skc_state K) sk)\<rparr> else p1)"

definition drop_event_data ::
  "'a dropwatch_kernel_scheme \<Rightarrow> dropwatch_env \<Rightarrow> u64 \<Rightarrow> u64 \<Rightarrow> u32 \<Rightarrow> u64 \<Rightarrow> u32 \<Rightarrow> u64 \<Rightarrow> u64 \<Rightarrow>
     dropwatch_packet_event \<Rightarrow> dropwatch_packet_event" where
  "drop_event_data K env skb dev source drop_location drop_reason trap_name trap_group_name data =
     data\<lparr>meta := drop_event_meta K env skb dev source drop_location drop_reason trap_name trap_group_name (meta data),
          pkt_hdr := skb_load_packet_raw K skb (bpf_ntohs (core_read (nk_protocol K) skb))
                       (drop_event_packet K skb (pkt_hdr data)),
          dw_stack := stack_buffer (de_stack env), dw_stack_size := de_stack_size env\<rparr>"

text \<open>The LRU map gives up some rows before it stores one.\<close>

definition lru_update :: "map_fault \<Rightarrow> 'k list \<Rightarrow> 'k \<Rightarrow> 'v \<Rightarrow> ('k \<rightharpoonup> 'v) \<Rightarrow> ('k \<rightharpoonup> 'v)" where
  "lru_update f evicted k v m = snd (bpf_map_update_elem f BPF_ANY k v (m |` (- set evicted)))"

definition drop_event_commit ::
  "dropwatch_config \<Rightarrow> dropwatch_kernel \<Rightarrow> dropwatch_env \<Rightarrow> u64 \<Rightarrow> u64 \<Rightarrow> u32 \<Rightarrow> u64 \<Rightarrow> u32 \<Rightarrow> u64 \<Rightarrow> u64 \<Rightarrow>
     dropwatch_state \<Rightarrow> dropwatch_state" where
  "drop_event_commit cfg K env skb dev source drop_location drop_reason trap_name trap_group_name s =
     (let (limited, elem, report) =
            bpf_ratelimited_in_map_rc (bpf_rlimit_interval_ns_dropwatch cfg) (bpf_rlimit_burst_dropwatch cfg)
              (bpf_rlimit_max_burst_dropwatch cfg) (bpf_rlimit_dropwatch s) (de_limit_ns env);
          s1 = s\<lparr>bpf_rlimit_dropwatch := elem,
                 event_bpf_rlimit_dropwatch := event_bpf_rlimit_dropwatch s @
                   (case report of None \<Rightarrow> [] | Some r \<Rightarrow> [r])\<rparr>
      in if limited then s1
         else case dropwatch_stackmap s1 of
           None \<Rightarrow> s1
         | Some bufs \<Rightarrow>
             let data = drop_event_data K env skb dev source drop_location drop_reason trap_name
                          trap_group_name (bufs (de_cpu env));
                 ret = de_output_ret env;
                 s2 = s1\<lparr>dropwatch_events := dropwatch_events s1 @ (if ret < 0 then [] else [data]),
                         bpf_perf_out_dropwatch :=
                           bpf_perf_event_output_counted ret (de_cpu env) (bpf_perf_out_dropwatch s1)\<rparr>;
                 s3 = (if ret = 0 \<and> source = DROPWATCH_DROP_SOURCE_HARDWARE
                       then s2\<lparr>dropwatch_hardware_skb :=
                                 lru_update (de_update_fault env) (de_evicted env) (dm_skb_addr (meta data))
                                   (dm_kernel_observed_ns (meta data)) (dropwatch_hardware_skb s2)\<rparr>
                       else s2)
             in s3\<lparr>dropwatch_stackmap := Some (bufs(de_cpu env := zero_drop))\<rparr>)"

definition bpf_kfree_skb_prog ::
  "dropwatch_config \<Rightarrow> dropwatch_kernel \<Rightarrow> dropwatch_env \<Rightarrow> kfree_skb_ctx \<Rightarrow> dropwatch_state \<Rightarrow> dropwatch_state" where
  "bpf_kfree_skb_prog cfg K env ctx s =
     (let skb = kf_skbaddr ctx;
          (skip, s1) = dropwatch_skip_hardware_duplicate env skb s;
          dev = core_read (nk_skb_dev K) skb
      in if skip then s1
         else if \<not> drop_event_filter_pass cfg K skb dev then s1
         else drop_event_commit cfg K env skb dev DROPWATCH_DROP_SOURCE_SOFTWARE (kf_location ctx)
                (skb_get_drop_reason ctx) 0 0 s1)"

definition bpf_devlink_trap_report_prog ::
  "dropwatch_config \<Rightarrow> dropwatch_kernel \<Rightarrow> dropwatch_env \<Rightarrow> u64 \<Rightarrow> u64 \<Rightarrow> dropwatch_state \<Rightarrow> dropwatch_state" where
  "bpf_devlink_trap_report_prog cfg K env skb metadata s =
     (if skb = 0 \<or> metadata = 0 then s
      else if core_read (md_trap_type K) metadata \<noteq> DEVLINK_TRAP_TYPE_DROP then s
      else
        let input_dev = core_read (md_input_dev K) metadata;
            dev = (if input_dev = 0 then core_read (nk_skb_dev K) skb else input_dev)
        in if \<not> drop_event_filter_pass cfg K skb dev then s
           else drop_event_commit cfg K env skb dev DROPWATCH_DROP_SOURCE_HARDWARE 0 0
                  (core_read (md_trap_name K) metadata) (core_read (md_trap_group_name K) metadata) s)"

datatype dropwatch_probe =
    Kfree_skb dropwatch_kernel dropwatch_env kfree_skb_ctx
  | Devlink_trap dropwatch_kernel dropwatch_env u64 u64

fun dropwatch_step :: "dropwatch_config \<Rightarrow> dropwatch_probe \<Rightarrow> dropwatch_state \<Rightarrow> dropwatch_state" where
  "dropwatch_step cfg (Kfree_skb K env ctx) s = bpf_kfree_skb_prog cfg K env ctx s"
| "dropwatch_step cfg (Devlink_trap K env skb metadata) s = bpf_devlink_trap_report_prog cfg K env skb metadata s"

section \<open>What a firing does\<close>

text \<open>The event of a firing as it would be built in zeroed memory, and whether the firing gets as
  far as the limiter.\<close>

fun built_event :: "dropwatch_probe \<Rightarrow> dropwatch_packet_event" where
  "built_event (Kfree_skb K env ctx) =
     drop_event_data K env (kf_skbaddr ctx) (core_read (nk_skb_dev K) (kf_skbaddr ctx))
       DROPWATCH_DROP_SOURCE_SOFTWARE (kf_location ctx) (skb_get_drop_reason ctx) 0 0 zero_drop"
| "built_event (Devlink_trap K env skb metadata) =
     drop_event_data K env skb
       (if core_read (md_input_dev K) metadata = 0 then core_read (nk_skb_dev K) skb
        else core_read (md_input_dev K) metadata)
       DROPWATCH_DROP_SOURCE_HARDWARE 0 0 (core_read (md_trap_name K) metadata)
       (core_read (md_trap_group_name K) metadata) zero_drop"

fun drop_env :: "dropwatch_probe \<Rightarrow> dropwatch_env" where
  "drop_env (Kfree_skb K env ctx) = env"
| "drop_env (Devlink_trap K env skb metadata) = env"

fun drop_skb :: "dropwatch_probe \<Rightarrow> u64" where
  "drop_skb (Kfree_skb K env ctx) = kf_skbaddr ctx"
| "drop_skb (Devlink_trap K env skb metadata) = skb"

fun drop_reported :: "dropwatch_config \<Rightarrow> dropwatch_probe \<Rightarrow> dropwatch_state \<Rightarrow> bool" where
  "drop_reported cfg (Kfree_skb K env ctx) s =
     (\<not> fst (dropwatch_skip_hardware_duplicate env (kf_skbaddr ctx) s) \<and>
      drop_event_filter_pass cfg K (kf_skbaddr ctx) (core_read (nk_skb_dev K) (kf_skbaddr ctx)))"
| "drop_reported cfg (Devlink_trap K env skb metadata) s =
     (skb \<noteq> 0 \<and> metadata \<noteq> 0 \<and> core_read (md_trap_type K) metadata = DEVLINK_TRAP_TYPE_DROP \<and>
      drop_event_filter_pass cfg K skb
        (if core_read (md_input_dev K) metadata = 0 then core_read (nk_skb_dev K) skb
         else core_read (md_input_dev K) metadata))"

fun drop_unmark :: "dropwatch_probe \<Rightarrow> dropwatch_state \<Rightarrow> dropwatch_state" where
  "drop_unmark (Kfree_skb K env ctx) s = snd (dropwatch_skip_hardware_duplicate env (kf_skbaddr ctx) s)"
| "drop_unmark (Devlink_trap K env skb metadata) s = s"

text \<open>The commit of an event built in zeroed memory.\<close>

definition commit_zeroed ::
  "dropwatch_config \<Rightarrow> dropwatch_env \<Rightarrow> dropwatch_packet_event \<Rightarrow> dropwatch_state \<Rightarrow> dropwatch_state" where
  "commit_zeroed cfg env ev s =
     (let (limited, elem, report) =
            bpf_ratelimited_in_map_rc (bpf_rlimit_interval_ns_dropwatch cfg) (bpf_rlimit_burst_dropwatch cfg)
              (bpf_rlimit_max_burst_dropwatch cfg) (bpf_rlimit_dropwatch s) (de_limit_ns env);
          s1 = s\<lparr>bpf_rlimit_dropwatch := elem,
                 event_bpf_rlimit_dropwatch := event_bpf_rlimit_dropwatch s @
                   (case report of None \<Rightarrow> [] | Some r \<Rightarrow> [r])\<rparr>
      in if limited then s1
         else s1\<lparr>dropwatch_events := dropwatch_events s1 @ (if de_output_ret env < 0 then [] else [ev]),
                 bpf_perf_out_dropwatch :=
                   bpf_perf_event_output_counted (de_output_ret env) (de_cpu env) (bpf_perf_out_dropwatch s1),
                 dropwatch_hardware_skb :=
                   (if de_output_ret env = 0 \<and> dm_drop_source (meta ev) = DROPWATCH_DROP_SOURCE_HARDWARE
                    then lru_update (de_update_fault env) (de_evicted env) (dm_skb_addr (meta ev)) (de_now env)
                           (dropwatch_hardware_skb s1)
                    else dropwatch_hardware_skb s1)\<rparr>)"

lemma meta_fields [simp]:
  "dm_skb_addr (drop_event_meta K env skb dev source loc reason tn tg m) = skb"
  "dm_kernel_observed_ns (drop_event_meta K env skb dev source loc reason tn tg m) = de_now env"
  "dm_drop_source (drop_event_meta K env skb dev source loc reason tn tg m) = source"
  "dm_trap_name (drop_event_meta K env skb dev source loc reason 0 0 m) = dm_trap_name m"
  "dm_trap_group_name (drop_event_meta K env skb dev source loc reason 0 0 m) = dm_trap_group_name m"
  by (simp_all add: drop_event_meta_def Let_def)

lemma meta_data [simp]:
  "meta (drop_event_data K env skb dev source loc reason tn tg data) =
     drop_event_meta K env skb dev source loc reason tn tg (meta data)"
  by (simp add: drop_event_data_def)

lemma commit_on_zeroed:
  assumes "dropwatch_stackmap s = Some (\<lambda>_. zero_drop)"
  shows "drop_event_commit cfg K env skb dev source loc reason tn tg s =
     commit_zeroed cfg env (drop_event_data K env skb dev source loc reason tn tg zero_drop) s"
  using assms by (auto simp: drop_event_commit_def commit_zeroed_def Let_def fun_upd_idem split: prod.splits)

lemma skip_frame [simp]:
  "dropwatch_stackmap (snd (dropwatch_skip_hardware_duplicate env skb s)) = dropwatch_stackmap s"
  "dropwatch_events (snd (dropwatch_skip_hardware_duplicate env skb s)) = dropwatch_events s"
  "bpf_perf_out_dropwatch (snd (dropwatch_skip_hardware_duplicate env skb s)) = bpf_perf_out_dropwatch s"
  "bpf_rlimit_dropwatch (snd (dropwatch_skip_hardware_duplicate env skb s)) = bpf_rlimit_dropwatch s"
  by (simp_all add: dropwatch_skip_hardware_duplicate_def Let_def split: option.split)

lemma unmark_frame [simp]:
  "dropwatch_stackmap (drop_unmark e s) = dropwatch_stackmap s"
  "dropwatch_events (drop_unmark e s) = dropwatch_events s"
  "bpf_perf_out_dropwatch (drop_unmark e s) = bpf_perf_out_dropwatch s"
  "bpf_rlimit_dropwatch (drop_unmark e s) = bpf_rlimit_dropwatch s"
  by (cases e; simp)+

lemma step_on_zeroed:
  assumes "dropwatch_stackmap s = Some (\<lambda>_. zero_drop)"
  shows "dropwatch_step cfg e s =
    (if drop_reported cfg e s then commit_zeroed cfg (drop_env e) (built_event e) (drop_unmark e s)
     else drop_unmark e s)"
  using assms
  by (cases e) (simp_all add: bpf_kfree_skb_prog_def bpf_devlink_trap_report_prog_def Let_def case_prod_beta
      commit_on_zeroed)

lemma commit_stackmap [simp]: "dropwatch_stackmap (commit_zeroed cfg env ev s) = dropwatch_stackmap s"
  by (simp add: commit_zeroed_def Let_def split: prod.split)

lemma zeroed_step:
  "dropwatch_stackmap s = Some (\<lambda>_. zero_drop) \<Longrightarrow> dropwatch_stackmap (dropwatch_step cfg e s) = Some (\<lambda>_. zero_drop)"
  by (simp add: step_on_zeroed)

lemma zeroed_run:
  "dropwatch_stackmap s = Some (\<lambda>_. zero_drop) \<Longrightarrow>
   dropwatch_stackmap (fold (dropwatch_step cfg) es s) = Some (\<lambda>_. zero_drop)"
  by (induction es arbitrary: s) (simp_all add: zeroed_step)

section \<open>No stale data\<close>

lemma commit_events:
  "\<exists>evs. dropwatch_events (commit_zeroed cfg env ev s) = dropwatch_events s @ evs \<and> subseq evs [ev]"
  by (auto simp: commit_zeroed_def Let_def split: prod.splits)

lemma drop_events_step:
  assumes "dropwatch_stackmap s = Some (\<lambda>_. zero_drop)"
  shows "\<exists>evs. dropwatch_events (dropwatch_step cfg e s) = dropwatch_events s @ evs \<and> subseq evs [built_event e]"
  using commit_events [of cfg "drop_env e" "built_event e" "drop_unmark e s"]
  by (auto simp: step_on_zeroed [OF assms])

lemma drop_events_run:
  "dropwatch_stackmap s = Some (\<lambda>_. zero_drop) \<Longrightarrow>
   subseq (dropwatch_events (fold (dropwatch_step cfg) es s)) (dropwatch_events s @ map built_event es)"
proof (induction es arbitrary: s)
  case (Cons e es)
  obtain evs where evs: "dropwatch_events (dropwatch_step cfg e s) = dropwatch_events s @ evs"
      "subseq evs [built_event e]"
    using drop_events_step [OF Cons.prems] by blast
  have "subseq (dropwatch_events s @ evs @ map built_event es)
      (dropwatch_events s @ [built_event e] @ map built_event es)"
    by (intro list_emb_append_mono evs(2)) simp_all
  moreover have "subseq (dropwatch_events (fold (dropwatch_step cfg) (e # es) s))
      (dropwatch_events s @ evs @ map built_event es)"
    using Cons.IH [OF zeroed_step [OF Cons.prems, of cfg e]] by (simp add: evs(1))
  ultimately show ?case by (auto intro: subseq_order.order_trans)
qed simp

lemma software_untrapped:
  "dm_drop_source (meta (built_event e)) = DROPWATCH_DROP_SOURCE_SOFTWARE \<Longrightarrow>
   dm_trap_name (meta (built_event e)) = zero_str 64 \<and> dm_trap_group_name (meta (built_event e)) = zero_str 64"
  by (cases e) (simp_all add: zero_drop_def)

text \<open>C20. Events never carry data of earlier packets: over any run from the loaded object, with any
  failed submissions, the delivered events are, in order, events of firings as they would be built
  in zeroed memory. In particular no software drop shows a trap name of a hardware drop.\<close>

theorem dropwatch_no_stale_data:
  assumes "dropwatch_stackmap s = Some (\<lambda>_. zero_drop)" and "dropwatch_events s = []"
    and "r = fold (dropwatch_step cfg) es s"
  shows "subseq (dropwatch_events r) (map built_event es) \<and>
    (\<forall>ev \<in> set (dropwatch_events r). dm_drop_source (meta ev) = DROPWATCH_DROP_SOURCE_SOFTWARE \<longrightarrow>
       dm_trap_name (meta ev) = zero_str 64 \<and> dm_trap_group_name (meta ev) = zero_str 64)"
proof -
  have "subseq (dropwatch_events r) (map built_event es)"
    using drop_events_run [OF assms(1), of cfg es] assms(2,3) by simp
  moreover from this have "set (dropwatch_events r) \<subseteq> set (map built_event es)"
    by (auto elim: list_emb_set)
  ultimately show ?thesis using software_untrapped by fastforce
qed


section \<open>Every admitted event is accounted for\<close>

definition drops_accounted :: "dropwatch_state \<Rightarrow> bool" where
  "drops_accounted s =
     (case (bpf_rlimit_dropwatch s, bpf_perf_out_dropwatch s) of
        (Some r, Some lost) \<Rightarrow> total_events r = of_nat (length (dropwatch_events s)) + (\<Sum>cpu \<in> UNIV. lost cpu)
      | _ \<Rightarrow> False)"

lemma accounted_commit:
  assumes "drops_accounted s" and "bpf_rlimit_interval_ns_dropwatch cfg \<noteq> 0"
  shows "drops_accounted (commit_zeroed cfg env ev s)"
proof -
  obtain r lost where s: "bpf_rlimit_dropwatch s = Some r" "bpf_perf_out_dropwatch s = Some lost"
      "total_events r = of_nat (length (dropwatch_events s)) + (\<Sum>cpu \<in> UNIV. lost cpu)"
    using assms(1) by (auto simp: drops_accounted_def split: option.splits)
  obtain limited elem report where rc: "bpf_ratelimited_in_map_rc (bpf_rlimit_interval_ns_dropwatch cfg)
      (bpf_rlimit_burst_dropwatch cfg) (bpf_rlimit_max_burst_dropwatch cfg) (Some r) (de_limit_ns env) =
      (limited, elem, report)"
    by (cases rule: prod_cases3)
  obtain r' where "elem = Some r'" "total_events r' = total_events r + (if limited then 0 else 1)"
    using in_map_rc_total [OF assms(2) rc] by blast
  then show ?thesis
    by (cases limited; cases "de_output_ret env < 0")
      (simp_all add: commit_zeroed_def s rc drops_accounted_def bpf_perf_event_output_counted_def sum_counter
        Let_def del: fun_upd_apply)
qed

lemma accounted_step:
  assumes "drops_accounted s" and "bpf_rlimit_interval_ns_dropwatch cfg \<noteq> 0"
    and "dropwatch_stackmap s = Some (\<lambda>_. zero_drop)"
  shows "drops_accounted (dropwatch_step cfg e s)"
proof -
  have "drops_accounted (drop_unmark e s)" using assms(1) by (simp add: drops_accounted_def split: option.splits)
  then show ?thesis using accounted_commit [OF _ assms(2)] by (simp add: step_on_zeroed [OF assms(3)])
qed

text \<open>C21. No admitted event vanishes silently: with the limiter enabled, after any run from the loaded
  object the limiter's total of admitted events is the number of delivered events plus the lost
  events counted on all CPUs, modulo 2^64.\<close>

theorem dropwatch_events_accounted:
  assumes "bpf_rlimit_interval_ns_dropwatch cfg \<noteq> 0"
    and "s = \<lparr>dropwatch_events = [], dropwatch_stackmap = Some (\<lambda>_. zero_drop),
              bpf_perf_out_dropwatch = Some (\<lambda>_. 0), dropwatch_hardware_skb = Map.empty,
              bpf_rlimit_dropwatch = Some (BPF_RATELIMIT 0 0), event_bpf_rlimit_dropwatch = []\<rparr>"
  shows "drops_accounted (fold (dropwatch_step cfg) es s)"
proof -
  have "drops_accounted (fold (dropwatch_step cfg) es s)"
    if "drops_accounted s" "dropwatch_stackmap s = Some (\<lambda>_. zero_drop)" for s
    using that by (induction es arbitrary: s) (simp_all add: accounted_step [OF _ assms(1)] zeroed_step)
  then show ?thesis by (simp add: assms(2) drops_accounted_def BPF_RATELIMIT_def)
qed

section \<open>Hardware drops\<close>

fun drop_touches :: "dropwatch_probe \<Rightarrow> u64 \<Rightarrow> bool" where
  "drop_touches e skb = (drop_skb e = skb \<or> skb \<in> set (de_evicted (drop_env e)))"

lemma lru_other: "k' \<noteq> k \<Longrightarrow> k' \<notin> set evicted \<Longrightarrow> lru_update f evicted k v m k' = m k'"
  by (simp add: lru_update_def bmap.update_other)

lemma commit_marker_other:
  "k \<noteq> skb \<Longrightarrow> k \<notin> set (de_evicted env) \<Longrightarrow>
   dropwatch_hardware_skb (drop_event_commit cfg K env skb dev source loc reason tn tg s) k =
   dropwatch_hardware_skb s k"
  by (simp add: drop_event_commit_def lru_other Let_def split: prod.split option.split)

lemma skip_marker_other:
  "k \<noteq> skb \<Longrightarrow> dropwatch_hardware_skb (snd (dropwatch_skip_hardware_duplicate env skb s)) k = dropwatch_hardware_skb s k"
  by (simp add: dropwatch_skip_hardware_duplicate_def bmap.delete_other Let_def split: option.split)

interpretation markers: touched_rows "dropwatch_step cfg" dropwatch_hardware_skb drop_touches "\<lambda>_. True" for cfg
proof unfold_locales
  fix e k s
  assume "\<not> drop_touches e k"
  then show "dropwatch_hardware_skb (dropwatch_step cfg e s) k = dropwatch_hardware_skb s k"
    by (cases e) (auto simp: bpf_kfree_skb_prog_def bpf_devlink_trap_report_prog_def Let_def case_prod_beta
        commit_marker_other skip_marker_other)
qed simp

lemma reported_marker:
  assumes "dropwatch_stackmap s = Some (\<lambda>_. zero_drop)"
    and "length (dropwatch_events s) < length (dropwatch_events (bpf_devlink_trap_report_prog cfg K env skb metadata s))"
    and "de_output_ret env = 0" and "de_update_fault env = Fault_none"
  shows "dropwatch_hardware_skb (bpf_devlink_trap_report_prog cfg K env skb metadata s) skb = Some (de_now env)"
  using assms(2)
  by (auto simp: bpf_devlink_trap_report_prog_def commit_on_zeroed [OF assms(1)] commit_zeroed_def Let_def
      assms(3,4) lru_update_def split: if_splits prod.splits)

text \<open>C22. A packet dropped by hardware is reported once: when it is freed within a second of its
  report the firing only removes the marker, whatever happened to other packets in between. A
  later free, or a second one at the same address, is treated like one that was never marked.\<close>

theorem hardware_drop_once:
  assumes "dropwatch_stackmap s = Some (\<lambda>_. zero_drop)"
    and "length (dropwatch_events s) < length (dropwatch_events (bpf_devlink_trap_report_prog cfg K env skb metadata s))"
    and "de_output_ret env = 0" and "de_update_fault env = Fault_none"
    and "list_all (\<lambda>e. \<not> drop_touches e skb) es"
    and r: "r = fold (dropwatch_step cfg) es (bpf_devlink_trap_report_prog cfg K env skb metadata s)"
    and "kf_skbaddr ctx = skb" and "de_delete_fault env' = Fault_none" and "de_now env \<le> de_dedup_ns env'"
    and r': "r' = r\<lparr>dropwatch_hardware_skb := (dropwatch_hardware_skb r)(skb := None)\<rparr>"
  shows "bpf_kfree_skb_prog cfg K' env' ctx r =
    (if de_dedup_ns env' - de_now env \<le> 1000000000 then r' else bpf_kfree_skb_prog cfg K' env' ctx r')"
proof -
  have "dropwatch_hardware_skb r skb = Some (de_now env)"
    using markers.row_kept [OF _ assms(5)] reported_marker [OF assms(1-4)] by (simp add: r)
  then have "dropwatch_skip_hardware_duplicate env' skb r = (de_dedup_ns env' - de_now env \<le> 1000000000, r')"
    and "dropwatch_skip_hardware_duplicate env' skb r' = (False, r')"
    using assms(8,9) by (simp_all add: dropwatch_skip_hardware_duplicate_def Let_def r')
  then show ?thesis by (simp add: bpf_kfree_skb_prog_def assms(7))
qed

section \<open>Rate\<close>

lemma commit_limiter:
  fixes cfg s
  defines "answer \<equiv> \<lambda>env. in_map_call (bpf_rlimit_interval_ns_dropwatch cfg) (bpf_rlimit_burst_dropwatch cfg)
    (bpf_rlimit_max_burst_dropwatch cfg) (bpf_rlimit_dropwatch s) (de_limit_ns env)"
  shows "bpf_rlimit_dropwatch (drop_event_commit cfg K env skb dev source loc reason tn tg s) = snd (answer env)"
    and "length (dropwatch_events (drop_event_commit cfg K env skb dev source loc reason tn tg s)) \<le>
      length (dropwatch_events s) + (if fst (answer env) then 0 else 1)"
  by (auto simp: drop_event_commit_def in_map_call_def answer_def Let_def split: prod.split option.split)

interpretation dropwatch: limited_output
  "in_map_call (bpf_rlimit_interval_ns_dropwatch cfg) (bpf_rlimit_burst_dropwatch cfg)
     (bpf_rlimit_max_burst_dropwatch cfg)"
  "\<lambda>e. bpf_rlimit_interval_ns_dropwatch cfg \<noteq> 0 \<and> e = Some (BPF_RATELIMIT 0 0)"
  "unat (bpf_rlimit_interval_ns_dropwatch cfg)" "unat (bpf_rlimit_burst_dropwatch cfg)"
  "dropwatch_step cfg" bpf_rlimit_dropwatch "\<lambda>s. length (dropwatch_events s)"
  "\<lambda>e s. if drop_reported cfg e s then Some (de_limit_ns (drop_env e)) else None"
  "\<lambda>e. de_limit_ns (drop_env e)" for cfg
proof unfold_locales
  fix e s t
  assume "(if drop_reported cfg e s then Some (de_limit_ns (drop_env e)) else None) = None"
  then show "bpf_rlimit_dropwatch (dropwatch_step cfg e s) = bpf_rlimit_dropwatch s \<and>
      length (dropwatch_events (dropwatch_step cfg e s)) = length (dropwatch_events s)"
    by (cases e) (auto simp: bpf_kfree_skb_prog_def bpf_devlink_trap_report_prog_def Let_def case_prod_beta
        split: if_splits)
next
  fix e s t
  assume "(if drop_reported cfg e s then Some (de_limit_ns (drop_env e)) else None) = Some t"
  then show "bpf_rlimit_dropwatch (dropwatch_step cfg e s) =
        snd (in_map_call (bpf_rlimit_interval_ns_dropwatch cfg) (bpf_rlimit_burst_dropwatch cfg)
          (bpf_rlimit_max_burst_dropwatch cfg) (bpf_rlimit_dropwatch s) t) \<and>
      length (dropwatch_events (dropwatch_step cfg e s)) \<le> length (dropwatch_events s) +
        (if fst (in_map_call (bpf_rlimit_interval_ns_dropwatch cfg) (bpf_rlimit_burst_dropwatch cfg)
          (bpf_rlimit_max_burst_dropwatch cfg) (bpf_rlimit_dropwatch s) t) then 0 else 1)"
    by (cases e) (auto simp: bpf_kfree_skb_prog_def bpf_devlink_trap_report_prog_def Let_def case_prod_beta
        commit_limiter(1) intro!: le_trans [OF commit_limiter(2)] split: if_splits)
qed (simp split: if_splits)

lemma dropwatch_rate_bound:
  assumes "bpf_rlimit_interval_ns_dropwatch cfg \<noteq> 0" and "bpf_rlimit_dropwatch s = Some (BPF_RATELIMIT 0 0)"
    and "sorted (map (unat \<circ> (\<lambda>e. de_limit_ns (drop_env e))) es)"
    and "0 \<notin> set (map (\<lambda>e. de_limit_ns (drop_env e)) es)" and "es \<noteq> []"
  shows "length (dropwatch_events (fold (dropwatch_step cfg) es s)) \<le> length (dropwatch_events s) +
    unat (bpf_rlimit_burst_dropwatch cfg) *
    ((unat (de_limit_ns (drop_env (last es))) - unat (de_limit_ns (drop_env (hd es)))) div
       unat (bpf_rlimit_interval_ns_dropwatch cfg) + 1)"
  by (rule dropwatch.rate_bound [OF conjI [OF assms(1,2)] assms(3-5)])

section \<open>Examples\<close>

definition demo_drop_kernel :: dropwatch_kernel where
  "demo_drop_kernel =
     \<lparr>nk_str = [700 \<mapsto> ''l2_drops'', 700 + 8 \<mapsto> ''eth0''], nk_bytes = (\<lambda>_ n. Some (replicate n 1)),
      nk_head = Map.empty, nk_tail = Map.empty, nk_mac_header = Map.empty, nk_network_header = Map.empty,
      nk_transport_header = Map.empty, nk_mac_len = Map.empty, nk_protocol = [50 \<mapsto> 8], nk_len = [50 \<mapsto> 60],
      nk_queue_mapping = Map.empty, nk_skb_sk = Map.empty, nk_skb_dev = [50 \<mapsto> 300], nk_ifindex = [300 \<mapsto> 2],
      nk_dev_state = Map.empty, nk_dev_flags = Map.empty, nk_dev_net = Map.empty, nk_dev_name_offset = 408,
      nk_sk_net = Map.empty, nk_has_net_cookie = False, nk_net_cookie = Map.empty, nk_net_inum = Map.empty,
      nk_has_sk_memcg = False, nk_sk_memcg = Map.empty, nk_skc_state = Map.empty, nk_skc_family = Map.empty,
      sk_flags_f = None, sk_protocol_f = Map.empty, sk_type_f = Map.empty, md_trap_type = [90 \<mapsto> 0],
      md_input_dev = Map.empty, md_trap_name = [90 \<mapsto> 700], md_trap_group_name = Map.empty\<rparr>"

definition demo_drop_env :: "u64 \<Rightarrow> dropwatch_env" where
  "demo_drop_env now =
     \<lparr>de_dedup_ns = now, de_now = now, de_limit_ns = now, de_cpu = 1, de_pid_tgid = 5, de_comm = zero_str 16,
      de_stack = [], de_stack_size = 0, de_output_ret = 0, de_update_fault = Fault_none,
      de_evicted = [], de_delete_fault = Fault_none\<rparr>"

definition demo_drop_config :: dropwatch_config where
  "demo_drop_config =
     \<lparr>dw_filter = \<lparr>filter_dev_mode = 0, skb_filter_dev_map = Map.empty\<rparr>, dw_l2 = (\<lambda>_ _ _ _ _ _. True),
      dw_l3 = (\<lambda>_ _ _ _ _ _. True), bpf_rlimit_interval_ns_dropwatch = 1000,
      bpf_rlimit_burst_dropwatch = 10, bpf_rlimit_max_burst_dropwatch = 0\<rparr>"

definition loaded_dropwatch :: dropwatch_state where
  "loaded_dropwatch =
     \<lparr>dropwatch_events = [], dropwatch_stackmap = Some (\<lambda>_. zero_drop),
      bpf_perf_out_dropwatch = Some (\<lambda>_. 0), dropwatch_hardware_skb = Map.empty,
      bpf_rlimit_dropwatch = Some (BPF_RATELIMIT 0 0), event_bpf_rlimit_dropwatch = []\<rparr>"

theorem dropwatch_no_stale_data_witness:
  "subseq (dropwatch_events (fold (dropwatch_step demo_drop_config)
       [Devlink_trap demo_drop_kernel (demo_drop_env 5) 50 90,
        Kfree_skb demo_drop_kernel (demo_drop_env 6) \<lparr>kf_skbaddr = 60, kf_location = 1, kf_reason = None\<rparr>]
       loaded_dropwatch))
     (map built_event
       [Devlink_trap demo_drop_kernel (demo_drop_env 5) 50 90,
        Kfree_skb demo_drop_kernel (demo_drop_env 6) \<lparr>kf_skbaddr = 60, kf_location = 1, kf_reason = None\<rparr>])"
  by (rule dropwatch_no_stale_data [OF _ _ refl, THEN conjunct1]) (simp_all add: loaded_dropwatch_def)

theorem dropwatch_events_accounted_witness:
  "drops_accounted (fold (dropwatch_step demo_drop_config)
     [Devlink_trap demo_drop_kernel (demo_drop_env 5) 50 90] loaded_dropwatch)"
  by (rule dropwatch_events_accounted) (simp_all add: demo_drop_config_def loaded_dropwatch_def)

lemma demo_drop_reported:
  "length (dropwatch_events loaded_dropwatch) <
   length (dropwatch_events (bpf_devlink_trap_report_prog demo_drop_config demo_drop_kernel (demo_drop_env 5) 50 90
     loaded_dropwatch))"
proof -
  have "drop_event_filter_pass demo_drop_config demo_drop_kernel 50 dev" for dev
    by (simp add: drop_event_filter_pass_def demo_drop_config_def skb_filter_pass_netdev_def
        PCAP_STUB_PASS_SKB_def pcap_stub_pass_l3_def pcap_stub_pass_l2_def Let_def)
  moreover have "core_read (md_trap_type demo_drop_kernel) 90 = 0" by (simp add: demo_drop_kernel_def)
  moreover have "dropwatch_stackmap loaded_dropwatch = Some (\<lambda>_. zero_drop)" by (simp add: loaded_dropwatch_def)
  ultimately show ?thesis
    by (simp add: bpf_devlink_trap_report_prog_def commit_on_zeroed commit_zeroed_def Let_def)
      (simp add: demo_drop_config_def demo_drop_env_def loaded_dropwatch_def bpf_ratelimited_in_map_rc_def
        bpf_ratelimited_core_in_map_def bpf_ratelimited_def BPF_RATELIMIT_def)
qed

theorem hardware_drop_once_witness:
  "let r = bpf_devlink_trap_report_prog demo_drop_config demo_drop_kernel (demo_drop_env 5) 50 90 loaded_dropwatch
   in bpf_kfree_skb_prog demo_drop_config demo_drop_kernel (demo_drop_env 900)
        \<lparr>kf_skbaddr = 50, kf_location = 1, kf_reason = None\<rparr> r =
      r\<lparr>dropwatch_hardware_skb := (dropwatch_hardware_skb r)(50 := None)\<rparr>"
  using hardware_drop_once [OF _ demo_drop_reported, where es = "[]" and env' = "demo_drop_env 900"
      and ctx = "\<lparr>kf_skbaddr = 50, kf_location = 1, kf_reason = None\<rparr>" and K' = demo_drop_kernel, OF _ _ _ _ refl _ _ _ refl]
  by (simp add: demo_drop_env_def loaded_dropwatch_def)

end
