(* ===== verification/Rx_Latency.thy ===== *)
theory Rx_Latency
  imports Net_Common Ratelimit
begin

text \<open>
  \<^verbatim>\<open>bpf/net_rx_latency.c\<close> with \<^verbatim>\<open>abi/net_rx_latency_types.h\<close>: how long received packets take from
  their timestamp to the device layer, to TCP and to the reader. The timestamp may be of the
  monotonic or of the wall clock, which differ by a configured offset.
\<close>

section \<open>Model\<close>

record net_rx_latency_event =
  rx_comm :: string
  latency_ns :: u64
  rx_tgid_pid :: u64
  rx_packet_len_bytes :: u64
  tcp_sport :: u16
  tcp_dport :: u16
  tcp_saddr :: u32
  tcp_daddr :: u32
  rx_tcp_seq :: u32
  tcp_ack_seq :: u32
  tcp_state :: u8
  latency_stage :: u8
  netdev_name :: string
  rx_netns_inum :: u32
  rx_netns_cookie :: u64

abbreviation (input) "RX_STAGE_NETIF \<equiv> 0 :: u8"
abbreviation (input) "RX_STAGE_TCPV4 \<equiv> 1 :: u8"
abbreviation (input) "RX_STAGE_USERCOPY \<equiv> 2 :: u8"
abbreviation (input) "SKB_CLOCK_MONOTONIC \<equiv> 1 :: u8"
abbreviation (input) "SKB_CLOCK_TAI \<equiv> 2 :: u8"

record rx_config =
  mono_wall_offset :: u64
  rxlat_thresh_netif :: u64
  rxlat_thresh_tcpv4 :: u64
  rxlat_thresh_usercopy :: u64

text \<open>The two bit fields that tell the clock of a timestamp; \<open>None\<close> on kernels without them.\<close>

record rx_kernel = net_kernel +
  skb_tstamp :: "u64 \<Rightarrow> u64 option"
  tstamp_type_f :: "(u64 \<Rightarrow> u8 option) option"
  mono_delivery_time_f :: "(u64 \<Rightarrow> u8 option) option"

record rx_env =
  xe_now :: u64
  xe_limit_ns :: u64
  xe_pid_tgid :: u64
  xe_comm :: string

record rx_state =
  rx_events :: "net_rx_latency_event list"
  rx_rate :: bpf_ratelimit_event

definition rx_init :: rx_state where
  "rx_init = \<lparr>rx_events = [], rx_rate = BPF_RATELIMIT 1000000000 100\<rparr>"

definition skb_clock_class :: "'a rx_kernel_scheme \<Rightarrow> u64 \<Rightarrow> int" where
  "skb_clock_class K skb =
     (case tstamp_type_f K of
        Some f \<Rightarrow>
          let t = core_read f skb
          in if t = SKB_CLOCK_TAI then - 1 else if t = SKB_CLOCK_MONOTONIC then 1 else 0
      | None \<Rightarrow>
          (case mono_delivery_time_f K of
             Some f \<Rightarrow> if core_read f skb \<noteq> 0 then 1 else 0
           | None \<Rightarrow> 0))"

definition delta_now_skb_tstamp :: "rx_config \<Rightarrow> 'a rx_kernel_scheme \<Rightarrow> u64 \<Rightarrow> u64 \<Rightarrow> u64" where
  "delta_now_skb_tstamp cfg K ktime skb =
     (let tstamp = core_read (skb_tstamp K) skb
      in if tstamp = 0 then 0
         else
           let cls = skb_clock_class K skb
           in if cls < 0 then 0
              else
                let now = (if cls \<noteq> 0 then ktime else ktime + mono_wall_offset cfg)
                in if now < tstamp then 0 else now - tstamp)"

definition skb_is_ipv4_tcp :: "'a net_kernel_scheme \<Rightarrow> u64 \<Rightarrow> bool" where
  "skb_is_ipv4_tcp K skb =
     (if core_read (nk_protocol K) skb \<noteq> bpf_ntohs ETH_P_IP then False
      else read_bytes K (skb_network_header K skb) 20 ! 9 = IPPROTO_TCP)"

definition skb_latency_check :: "rx_config \<Rightarrow> 'a rx_kernel_scheme \<Rightarrow> u64 \<Rightarrow> u64 \<Rightarrow> u64 \<Rightarrow> u64" where
  "skb_latency_check cfg K ktime skb threshold =
     (let delta = delta_now_skb_tstamp cfg K ktime skb in if threshold \<le> delta then delta else 0)"

text \<open>The event of a packet: addresses, ports and numbers in network order as in the headers.\<close>

definition rxlat_event ::
  "'a rx_kernel_scheme \<Rightarrow> rx_env \<Rightarrow> u64 \<Rightarrow> u64 \<Rightarrow> u8 \<Rightarrow> net_rx_latency_event" where
  "rxlat_event K env skb latency stage =
     (let ip_hdr = read_bytes K (skb_network_header K skb) 20;
          tcp_hdr = read_bytes K (skb_transport_header K skb) 20;
          dash = CHR ''-'' # replicate 15 (CHR 0x00);
          dev = core_read (nk_skb_dev K) skb
      in \<lparr>rx_comm = (if stage = RX_STAGE_USERCOPY then xe_comm env else dash),
          latency_ns = latency,
          rx_tgid_pid = (if stage = RX_STAGE_USERCOPY then xe_pid_tgid env else 0),
          rx_packet_len_bytes = ucast (core_read (nk_len K) skb),
          tcp_sport = le16 tcp_hdr 0, tcp_dport = le16 tcp_hdr 2,
          tcp_saddr = le32 ip_hdr 12, tcp_daddr = le32 ip_hdr 16,
          rx_tcp_seq = le32 tcp_hdr 4, tcp_ack_seq = le32 tcp_hdr 8,
          tcp_state = (if stage = RX_STAGE_NETIF then 0 else skb_sk_state K skb),
          latency_stage = stage,
          netdev_name = (if dev = 0 then dash
                         else store_str IFNAMSIZ (probe_read_str (nk_str K) IFNAMSIZ (dev + nk_dev_name_offset K)) dash),
          rx_netns_inum = skb_netns_inum K skb, rx_netns_cookie = skb_netns_cookie K skb\<rparr>)"

definition submit_rxlat_event ::
  "'a rx_kernel_scheme \<Rightarrow> rx_env \<Rightarrow> u64 \<Rightarrow> u64 \<Rightarrow> u8 \<Rightarrow> rx_state \<Rightarrow> rx_state" where
  "submit_rxlat_event K env skb latency stage s =
     (let (limited, rate) = bpf_ratelimited (Some (rx_rate s)) (xe_limit_ns env);
          s1 = s\<lparr>rx_rate := the rate\<rparr>
      in if limited then s1 else s1\<lparr>rx_events := rx_events s1 @ [rxlat_event K env skb latency stage]\<rparr>)"

definition netif_receive_skb_prog ::
  "rx_config \<Rightarrow> 'a rx_kernel_scheme \<Rightarrow> rx_env \<Rightarrow> u64 \<Rightarrow> rx_state \<Rightarrow> rx_state" where
  "netif_receive_skb_prog cfg K env skb s =
     (if \<not> skb_is_ipv4_tcp K skb then s
      else
        let delta = skb_latency_check cfg K (xe_now env) skb (rxlat_thresh_netif cfg)
        in if delta = 0 then s else submit_rxlat_event K env skb delta RX_STAGE_NETIF s)"

definition tcp_v4_rcv_prog ::
  "rx_config \<Rightarrow> 'a rx_kernel_scheme \<Rightarrow> rx_env \<Rightarrow> u64 \<Rightarrow> rx_state \<Rightarrow> rx_state" where
  "tcp_v4_rcv_prog cfg K env skb s =
     (let delta = skb_latency_check cfg K (xe_now env) skb (rxlat_thresh_tcpv4 cfg)
      in if delta = 0 then s else submit_rxlat_event K env skb delta RX_STAGE_TCPV4 s)"

definition skb_copy_datagram_iovec_prog ::
  "rx_config \<Rightarrow> 'a rx_kernel_scheme \<Rightarrow> rx_env \<Rightarrow> u64 \<Rightarrow> rx_state \<Rightarrow> rx_state" where
  "skb_copy_datagram_iovec_prog cfg K env skb s =
     (if \<not> skb_is_ipv4_tcp K skb then s
      else
        let delta = skb_latency_check cfg K (xe_now env) skb (rxlat_thresh_usercopy cfg)
        in if delta = 0 then s else submit_rxlat_event K env skb delta RX_STAGE_USERCOPY s)"

datatype rx_stage = Stage_netif | Stage_tcpv4 | Stage_usercopy

datatype rx_probe = Rx_probe rx_stage rx_kernel rx_env u64

fun rx_step :: "rx_config \<Rightarrow> rx_probe \<Rightarrow> rx_state \<Rightarrow> rx_state" where
  "rx_step cfg (Rx_probe Stage_netif K env skb) s = netif_receive_skb_prog cfg K env skb s"
| "rx_step cfg (Rx_probe Stage_tcpv4 K env skb) s = tcp_v4_rcv_prog cfg K env skb s"
| "rx_step cfg (Rx_probe Stage_usercopy K env skb) s = skb_copy_datagram_iovec_prog cfg K env skb s"

section \<open>The latency of a packet\<close>

text \<open>What the three stages differ in.\<close>

fun stage_threshold :: "rx_config \<Rightarrow> rx_stage \<Rightarrow> u64" where
  "stage_threshold cfg Stage_netif = rxlat_thresh_netif cfg"
| "stage_threshold cfg Stage_tcpv4 = rxlat_thresh_tcpv4 cfg"
| "stage_threshold cfg Stage_usercopy = rxlat_thresh_usercopy cfg"

fun stage_number :: "rx_stage \<Rightarrow> u8" where
  "stage_number Stage_netif = RX_STAGE_NETIF"
| "stage_number Stage_tcpv4 = RX_STAGE_TCPV4"
| "stage_number Stage_usercopy = RX_STAGE_USERCOPY"

text \<open>The device layer and the reader see packets of all protocols and trace IPv4 packets whose header,
  if it can be read, names TCP; \<^verbatim>\<open>0x0800\<close> is stored in network order.\<close>

definition stage_traced :: "rx_stage \<Rightarrow> 'a net_kernel_scheme \<Rightarrow> u64 \<Rightarrow> bool" where
  "stage_traced stage K skb =
     (stage = Stage_tcpv4 \<or>
      nk_protocol K skb = Some 0x0008 \<and>
      (case nk_bytes K (skb_network_header K skb) 20 of None \<Rightarrow> False | Some header \<Rightarrow> header ! 9 = 6))"

lemma ipv4_tcp_iff: "skb_is_ipv4_tcp K skb \<longleftrightarrow> stage_traced Stage_netif K skb"
proof -
  have "bpf_htons ETH_P_IP = 0x0008" by (simp add: bpf_htons_def)
  then show ?thesis
    by (auto simp: skb_is_ipv4_tcp_def stage_traced_def read_bytes_def core_read_def split: option.splits)
qed

lemma rx_step_stage:
  "rx_step cfg (Rx_probe stage K env skb) s =
     (let delta = skb_latency_check cfg K (xe_now env) skb (stage_threshold cfg stage)
      in if stage_traced stage K skb \<and> delta \<noteq> 0
         then submit_rxlat_event K env skb delta (stage_number stage) s else s)"
  by (cases stage) (simp_all add: netif_receive_skb_prog_def tcp_v4_rcv_prog_def skb_copy_datagram_iovec_prog_def
      ipv4_tcp_iff stage_traced_def Let_def)

text \<open>The clock of a timestamp, from the enumeration of the kernel: a kernel with the type field says 0
  for the wall clock, 1 for the monotonic clock and 2 for atomic time; the older flag is set for
  monotonic time; still older kernels stamp with the wall clock. A field that cannot be read
  counts as zero.\<close>

datatype stamp_clock = Wall | Monotonic | Atomic

definition stamp_clock_of :: "'a rx_kernel_scheme \<Rightarrow> u64 \<Rightarrow> stamp_clock" where
  "stamp_clock_of K skb =
     (case (tstamp_type_f K, mono_delivery_time_f K) of
        (Some f, _) \<Rightarrow> (case f skb of Some t \<Rightarrow> if t = 1 then Monotonic else if t = 2 then Atomic else Wall | None \<Rightarrow> Wall)
      | (None, Some f) \<Rightarrow> (case f skb of Some m \<Rightarrow> if m = 0 then Wall else Monotonic | None \<Rightarrow> Wall)
      | (None, None) \<Rightarrow> Wall)"

lemma clock_class:
  "skb_clock_class K skb = (case stamp_clock_of K skb of Wall \<Rightarrow> 0 | Monotonic \<Rightarrow> 1 | Atomic \<Rightarrow> - 1)"
  by (auto simp: skb_clock_class_def stamp_clock_of_def core_read_def split: option.splits)

text \<open>A packet stamped at monotonic time \<open>m\<close>: with that time, or with the wall clock at that time.\<close>

definition stamped_at :: "rx_config \<Rightarrow> 'a rx_kernel_scheme \<Rightarrow> u64 \<Rightarrow> u64 \<Rightarrow> bool" where
  "stamped_at cfg K skb m =
     (case stamp_clock_of K skb of
        Monotonic \<Rightarrow> m \<noteq> 0 \<and> skb_tstamp K skb = Some m
      | Wall \<Rightarrow> m + mono_wall_offset cfg \<noteq> 0 \<and> skb_tstamp K skb = Some (m + mono_wall_offset cfg)
      | Atomic \<Rightarrow> False)"

lemma wall_order:
  fixes a b d :: u64
  assumes "a \<le> b" and "unat b + unat d < 2 ^ 64"
  shows "a + d \<le> b + d"
proof -
  have "unat a + unat d < 2 ^ 64" using assms by (simp add: word_le_nat_alt)
  then show ?thesis using assms by (simp add: word_le_nat_alt unat_word_ariths)
qed

lemma delta_exact:
  assumes "stamped_at cfg K skb m" and "m \<le> now" and "unat now + unat (mono_wall_offset cfg) < 2 ^ 64"
  shows "delta_now_skb_tstamp cfg K now skb = now - m"
  using assms wall_order [OF assms(2,3)]
  by (auto simp: delta_now_skb_tstamp_def stamped_at_def clock_class Let_def leD split: stamp_clock.splits)

text \<open>No latency can be told: no timestamp, atomic time, or a time in the future.\<close>

definition stamp_unusable :: "rx_config \<Rightarrow> 'a rx_kernel_scheme \<Rightarrow> u64 \<Rightarrow> u64 \<Rightarrow> bool" where
  "stamp_unusable cfg K now skb =
     (case skb_tstamp K skb of
        None \<Rightarrow> True
      | Some stamp \<Rightarrow> stamp = 0 \<or>
          (case stamp_clock_of K skb of
             Monotonic \<Rightarrow> now < stamp | Wall \<Rightarrow> now + mono_wall_offset cfg < stamp | Atomic \<Rightarrow> True))"

lemma delta_unusable: "stamp_unusable cfg K now skb \<Longrightarrow> delta_now_skb_tstamp cfg K now skb = 0"
  by (auto simp: delta_now_skb_tstamp_def stamp_unusable_def clock_class core_read_def Let_def
      split: option.splits stamp_clock.splits)

text \<open>C24. Latencies are exact in both clocks: for a packet stamped at monotonic time \<open>m\<close>, by the
  monotonic clock or by the wall clock, a traced stage at time \<open>now\<close> asks the limiter exactly if
  \<open>now - m\<close> is positive and reaches the threshold of the stage. If the limiter admits it, the event
  carries \<open>now - m\<close> and the stage; if not, none is submitted. A packet whose timestamp is missing,
  of atomic time or in the future never changes the state, and neither does a packet the stage
  does not trace.\<close>

theorem rx_latency_exact:
  assumes "m \<le> xe_now env" and "unat (xe_now env) + unat (mono_wall_offset cfg) < 2 ^ 64"
    and d: "d = xe_now env - m"
  shows "(stamped_at cfg K skb m \<and> stage_traced stage K skb \<longrightarrow>
      rx_step cfg (Rx_probe stage K env skb) s =
        (if 0 < d \<and> stage_threshold cfg stage \<le> d
         then s\<lparr>rx_rate := snd (ratelimited_call (rx_rate s) (xe_limit_ns env)),
                rx_events := rx_events s @
                  (if fst (ratelimited_call (rx_rate s) (xe_limit_ns env)) then []
                   else [rxlat_event K env skb d (stage_number stage)])\<rparr>
         else s)) \<and>
    (stamp_unusable cfg K (xe_now env) skb \<or> \<not> stage_traced stage K skb \<longrightarrow>
      rx_step cfg (Rx_probe stage K env skb) s = s)"
proof (intro conjI impI)
  assume stamp: "stamped_at cfg K skb m \<and> stage_traced stage K skb"
  have "skb_latency_check cfg K (xe_now env) skb t = (if t \<le> d then d else 0)" for t
    using stamp by (simp add: skb_latency_check_def delta_exact [OF _ assms(1,2)] d)
  then show "rx_step cfg (Rx_probe stage K env skb) s =
        (if 0 < d \<and> stage_threshold cfg stage \<le> d
         then s\<lparr>rx_rate := snd (ratelimited_call (rx_rate s) (xe_limit_ns env)),
                rx_events := rx_events s @
                  (if fst (ratelimited_call (rx_rate s) (xe_limit_ns env)) then []
                   else [rxlat_event K env skb d (stage_number stage)])\<rparr>
         else s)"
    using stamp by (simp add: rx_step_stage submit_rxlat_event_def bpf_ratelimited_Some word_gt_0)
next
  assume "stamp_unusable cfg K (xe_now env) skb \<or> \<not> stage_traced stage K skb"
  then show "rx_step cfg (Rx_probe stage K env skb) s = s"
    by (auto simp: rx_step_stage skb_latency_check_def delta_unusable Let_def)
qed

section \<open>Rate\<close>

fun rx_time :: "rx_probe \<Rightarrow> u64" where
  "rx_time (Rx_probe stage K env skb) = xe_limit_ns env"

fun rx_offer :: "rx_config \<Rightarrow> rx_probe \<Rightarrow> rx_state \<Rightarrow> u64 option" where
  "rx_offer cfg (Rx_probe stage K env skb) s =
     (if stage_traced stage K skb \<and>
         skb_latency_check cfg K (xe_now env) skb (stage_threshold cfg stage) \<noteq> 0
      then Some (xe_limit_ns env) else None)"

interpretation rx: limited_output ratelimited_call "\<lambda>r. 1000000000 \<noteq> (0 :: u64) \<and> r = BPF_RATELIMIT 1000000000 100"
  "unat (1000000000 :: u64)" "unat (100 :: u64)" "rx_step cfg" rx_rate "\<lambda>s. length (rx_events s)"
  "rx_offer cfg" rx_time for cfg
proof unfold_locales
  fix e s t
  show "t = rx_time e" if "rx_offer cfg e s = Some t"
    using that by (cases e) (simp split: if_splits)
  show "rx_rate (rx_step cfg e s) = rx_rate s \<and> length (rx_events (rx_step cfg e s)) = length (rx_events s)"
    if "rx_offer cfg e s = None"
    using that by (cases e) (auto simp: rx_step_stage Let_def split: if_splits)
  show "rx_rate (rx_step cfg e s) = snd (ratelimited_call (rx_rate s) t) \<and>
      length (rx_events (rx_step cfg e s)) \<le>
        length (rx_events s) + (if fst (ratelimited_call (rx_rate s) t) then 0 else 1)"
    if "rx_offer cfg e s = Some t"
    using that
    by (cases e) (auto simp: rx_step_stage submit_rxlat_event_def bpf_ratelimited_Some Let_def split: if_splits)
qed

text \<open>At most a hundred events per second started, over all stages and CPUs.\<close>

lemma rx_rate_bound:
  assumes "sorted (map (unat \<circ> rx_time) es)" and "0 \<notin> set (map rx_time es)" and "es \<noteq> []"
  shows "length (rx_events (fold (rx_step cfg) es rx_init)) \<le>
    100 * ((unat (rx_time (last es)) - unat (rx_time (hd es))) div 1000000000 + 1)"
  using rx.rate_bound [OF _ assms, of rx_init cfg] by (simp add: rx_init_def)

section \<open>Example\<close>

definition demo_rx_kernel :: rx_kernel where
  "demo_rx_kernel =
     \<lparr>nk_str = Map.empty, nk_bytes = (\<lambda>_ _. None), nk_head = Map.empty, nk_tail = Map.empty,
      nk_mac_header = Map.empty, nk_network_header = Map.empty, nk_transport_header = Map.empty,
      nk_mac_len = Map.empty, nk_protocol = Map.empty, nk_len = Map.empty, nk_queue_mapping = Map.empty,
      nk_skb_sk = Map.empty, nk_skb_dev = Map.empty, nk_ifindex = Map.empty, nk_dev_state = Map.empty,
      nk_dev_flags = Map.empty, nk_dev_net = Map.empty, nk_dev_name_offset = 0, nk_sk_net = Map.empty,
      nk_has_net_cookie = False, nk_net_cookie = Map.empty, nk_net_inum = Map.empty,
      nk_has_sk_memcg = False, nk_sk_memcg = Map.empty, nk_skc_state = Map.empty, nk_skc_family = Map.empty,
      skb_tstamp = [7 \<mapsto> 1500], tstamp_type_f = Some [7 \<mapsto> 0], mono_delivery_time_f = None\<rparr>"

theorem rx_latency_exact_witness:
  "map latency_ns (rx_events (rx_step \<lparr>mono_wall_offset = 1000, rxlat_thresh_netif = 5, rxlat_thresh_tcpv4 = 300,
     rxlat_thresh_usercopy = 9\<rparr> (Rx_probe Stage_tcpv4 demo_rx_kernel
       \<lparr>xe_now = 900, xe_limit_ns = 901, xe_pid_tgid = 1, xe_comm = ''''\<rparr> 7) rx_init)) = [400]"
proof -
  let ?cfg = "\<lparr>mono_wall_offset = 1000, rxlat_thresh_netif = 5, rxlat_thresh_tcpv4 = 300,
    rxlat_thresh_usercopy = 9\<rparr>"
  have "stamped_at ?cfg demo_rx_kernel 7 500 \<and> stage_traced Stage_tcpv4 demo_rx_kernel 7"
    by (simp add: stamped_at_def stamp_clock_of_def demo_rx_kernel_def stage_traced_def)
  moreover have "\<not> fst (ratelimited_call (rx_rate rx_init) 901)"
    by (simp add: rx_init_def ratelimited_call_def bpf_ratelimited_def BPF_RATELIMIT_def)
  ultimately show ?thesis
    using rx_latency_exact [where cfg = ?cfg and m = 500 and skb = 7 and K = demo_rx_kernel
        and stage = Stage_tcpv4 and env = "\<lparr>xe_now = 900, xe_limit_ns = 901, xe_pid_tgid = 1, xe_comm = ''''\<rparr>"
        and s = rx_init, OF _ _ refl, THEN conjunct1]
    by (simp add: rxlat_event_def rx_init_def Let_def)
qed

end
