(* ===== verification/Irq_Tracing.thy ===== *)
theory Irq_Tracing
  imports Ratelimit
begin

text \<open>
  \<^verbatim>\<open>bpf/irqtracing.c\<close> with \<^verbatim>\<open>abi/irqtracing_types.h\<close>: which stacks raise softirqs and which tasks
  softirqs interrupt. The two tables are per-CPU hash maps shared by all CPUs, and the probe that
  adds a stack to a table looks it up, inserts it and looks again. Here the probes of different
  CPUs may interleave between these accesses: \<open>irq_step\<close> is the relation of one access.
\<close>

section \<open>Model\<close>

record irqtracing_stack_key =
  ustack_id :: u32
  kstack_id :: u32
  key_pid :: u32
  key_vec :: u32
  key_comm :: string

datatype irqtracing_stream = IRQTRACING_STREAM_SOURCE | IRQTRACING_STREAM_VICTIM

abbreviation (input) "IRQTRACING_TARGET_ALL_CPUS \<equiv> - 1 :: u32"
abbreviation (input) "IRQTRACING_STACK_ID_NONE \<equiv> 0xffffffff :: u32"
abbreviation (input) "PF_KTHREAD \<equiv> 0x00200000 :: u32"
abbreviation (input) "BPF_NSEC_PER_SEC \<equiv> 1000000000 :: u64"

record irq_config =
  target_cpu :: u32
  source_rate_limit :: u32
  victim_rate_limit :: u32

text \<open>The helper results of a firing; the stack ids are negative if no stack could be stored.\<close>

record irq_env =
  ir_cpu :: u32
  ir_now :: u64
  ir_pid_tgid :: u64
  ir_comm :: string
  ir_flags :: u32
  ir_vec :: u32
  ir_ustack :: int
  ir_kstack :: int

record irq_state =
  source_rlimit :: "(u32 \<Rightarrow> bpf_percpu_ratelimit_state) option"
  victim_rlimit :: "(u32 \<Rightarrow> bpf_percpu_ratelimit_state) option"
  source_counts :: "irqtracing_stack_key \<rightharpoonup> (u32 \<Rightarrow> u64)"
  victim_counts :: "irqtracing_stack_key \<rightharpoonup> (u32 \<Rightarrow> u64)"
  dropped_samples :: "irqtracing_stream \<rightharpoonup> (u32 \<Rightarrow> u64)"

definition is_ksoftirqd :: "string \<Rightarrow> u32 \<Rightarrow> bool" where
  "is_ksoftirqd comm flags =
     (flags AND PF_KTHREAD \<noteq> 0 \<and>
      name_byte comm 0 = CHR ''k'' \<and> name_byte comm 1 = CHR ''s'' \<and> name_byte comm 2 = CHR ''o'' \<and>
      name_byte comm 3 = CHR ''f'' \<and> name_byte comm 4 = CHR ''t'' \<and> name_byte comm 5 = CHR ''i'' \<and>
      name_byte comm 6 = CHR ''r'' \<and> name_byte comm 7 = CHR ''q'' \<and> name_byte comm 8 = CHR ''d'')"

definition should_trace_cpu :: "irq_config \<Rightarrow> u32 \<Rightarrow> bool" where
  "should_trace_cpu cfg cpu = (target_cpu cfg = IRQTRACING_TARGET_ALL_CPUS \<or> cpu = target_cpu cfg)"

definition count_drop :: "irqtracing_stream \<Rightarrow> u32 \<Rightarrow> irq_state \<Rightarrow> irq_state" where
  "count_drop stream cpu s =
     (case dropped_samples s stream of None \<Rightarrow> s
      | Some cnt \<Rightarrow> s\<lparr>dropped_samples := (dropped_samples s)(stream \<mapsto> cnt(cpu := cnt cpu + 1))\<rparr>)"

definition irq_ratelimited ::
  "(u32 \<Rightarrow> bpf_percpu_ratelimit_state) option \<Rightarrow> u32 \<Rightarrow> u32 \<Rightarrow> u64 \<Rightarrow>
     bool \<times> (u32 \<Rightarrow> bpf_percpu_ratelimit_state) option" where
  "irq_ratelimited states cpu limit now =
     (if limit = 0 then (False, states)
      else
        let (limited, state) =
              bpf_percpu_ratelimited_ns (map_option (\<lambda>m. m cpu) states) BPF_NSEC_PER_SEC limit now
        in (limited, case (states, state) of (Some m, Some st) \<Rightarrow> Some (m(cpu := st)) | _ \<Rightarrow> states))"

fun counts_of :: "irqtracing_stream \<Rightarrow> irq_state \<Rightarrow> (irqtracing_stack_key \<rightharpoonup> (u32 \<Rightarrow> u64))" where
  "counts_of IRQTRACING_STREAM_SOURCE s = source_counts s"
| "counts_of IRQTRACING_STREAM_VICTIM s = victim_counts s"

fun set_counts ::
  "irqtracing_stream \<Rightarrow> (irqtracing_stack_key \<rightharpoonup> (u32 \<Rightarrow> u64)) \<Rightarrow> irq_state \<Rightarrow> irq_state" where
  "set_counts IRQTRACING_STREAM_SOURCE m s = s\<lparr>source_counts := m\<rparr>"
| "set_counts IRQTRACING_STREAM_VICTIM m s = s\<lparr>victim_counts := m\<rparr>"

definition stack_key :: "irq_env \<Rightarrow> irqtracing_stack_key" where
  "stack_key env =
     \<lparr>ustack_id = (if ir_ustack env < 0 then IRQTRACING_STACK_ID_NONE else of_int (ir_ustack env)),
      kstack_id = (if ir_kstack env < 0 then IRQTRACING_STACK_ID_NONE else of_int (ir_kstack env)),
      key_pid = ucast (drop_bit 32 (ir_pid_tgid env)), key_vec = ir_vec env, key_comm = ir_comm env\<rparr>"

text \<open>The three accesses of \<^verbatim>\<open>account_stack\<close> to its map: \<open>None\<close> means that the probe goes on to the
  next. A new row of a per-CPU map is zero on the other CPUs.\<close>

definition account_lookup ::
  "irqtracing_stream \<Rightarrow> u32 \<Rightarrow> irqtracing_stack_key \<Rightarrow> irq_state \<Rightarrow> irq_state option" where
  "account_lookup stream cpu key s =
     (case counts_of stream s key of None \<Rightarrow> None
      | Some valp \<Rightarrow> Some (set_counts stream ((counts_of stream s)(key \<mapsto> valp(cpu := valp cpu + 1))) s))"

definition account_insert ::
  "map_fault \<Rightarrow> irqtracing_stream \<Rightarrow> u32 \<Rightarrow> irqtracing_stack_key \<Rightarrow> irq_state \<Rightarrow> irq_state option" where
  "account_insert f stream cpu key s =
     (let (ret, m) = bpf_map_update_elem f BPF_NOEXIST key ((\<lambda>_. 0)(cpu := 1)) (counts_of stream s)
      in if ret = 0 then Some (set_counts stream m s) else None)"

definition account_retry :: "irqtracing_stream \<Rightarrow> u32 \<Rightarrow> irqtracing_stack_key \<Rightarrow> irq_state \<Rightarrow> irq_state" where
  "account_retry stream cpu key s =
     (case account_lookup stream cpu key s of None \<Rightarrow> count_drop stream cpu s | Some s' \<Rightarrow> s')"

definition account_stack :: "map_fault \<Rightarrow> irqtracing_stream \<Rightarrow> irq_env \<Rightarrow> irq_state \<Rightarrow> irq_state" where
  "account_stack f stream env s =
     (case account_lookup stream (ir_cpu env) (stack_key env) s of Some s' \<Rightarrow> s'
      | None \<Rightarrow>
          (case account_insert f stream (ir_cpu env) (stack_key env) s of Some s' \<Rightarrow> s'
           | None \<Rightarrow> account_retry stream (ir_cpu env) (stack_key env) s))"

text \<open>The guards of the two probes: the stream for which the firing accounts its stack, \<open>None\<close> if it
  returns before, and the state it leaves.\<close>

definition softirq_raise_guard ::
  "irq_config \<Rightarrow> irq_env \<Rightarrow> irq_state \<Rightarrow> irqtracing_stream option \<times> irq_state" where
  "softirq_raise_guard cfg env s =
     (if \<not> should_trace_cpu cfg (ir_cpu env) then (None, s)
      else
        let (limited, rl) = irq_ratelimited (source_rlimit s) (ir_cpu env) (source_rate_limit cfg) (ir_now env);
            s1 = s\<lparr>source_rlimit := rl\<rparr>
        in if limited then (None, count_drop IRQTRACING_STREAM_SOURCE (ir_cpu env) s1)
           else (Some IRQTRACING_STREAM_SOURCE, s1))"

definition softirq_entry_guard ::
  "irq_config \<Rightarrow> irq_env \<Rightarrow> irq_state \<Rightarrow> irqtracing_stream option \<times> irq_state" where
  "softirq_entry_guard cfg env s =
     (if \<not> should_trace_cpu cfg (ir_cpu env) then (None, s)
      else if is_ksoftirqd (ir_comm env) (ir_flags env) then (None, s)
      else if (ucast (drop_bit 32 (ir_pid_tgid env)) :: u32) = 0 then (None, s)
      else
        let (limited, rl) = irq_ratelimited (victim_rlimit s) (ir_cpu env) (victim_rate_limit cfg) (ir_now env);
            s1 = s\<lparr>victim_rlimit := rl\<rparr>
        in if limited then (None, count_drop IRQTRACING_STREAM_VICTIM (ir_cpu env) s1)
           else (Some IRQTRACING_STREAM_VICTIM, s1))"

definition probe_softirq_raise :: "irq_config \<Rightarrow> map_fault \<Rightarrow> irq_env \<Rightarrow> irq_state \<Rightarrow> irq_state" where
  "probe_softirq_raise cfg f env s =
     (case softirq_raise_guard cfg env s of (None, s1) \<Rightarrow> s1
      | (Some stream, s1) \<Rightarrow> account_stack f stream env s1)"

definition probe_softirq_entry :: "irq_config \<Rightarrow> map_fault \<Rightarrow> irq_env \<Rightarrow> irq_state \<Rightarrow> irq_state" where
  "probe_softirq_entry cfg f env s =
     (case softirq_entry_guard cfg env s of (None, s1) \<Rightarrow> s1
      | (Some stream, s1) \<Rightarrow> account_stack f stream env s1)"

section \<open>Interleaving\<close>

text \<open>Where a CPU stands in a firing.\<close>

datatype irq_pc =
    Idle
  | Missed irqtracing_stream irqtracing_stack_key
  | Refused irqtracing_stream irqtracing_stack_key

datatype irq_probe = Softirq_raise irq_env | Softirq_entry irq_env

fun irq_env_of :: "irq_probe \<Rightarrow> irq_env" where
  "irq_env_of (Softirq_raise env) = env"
| "irq_env_of (Softirq_entry env) = env"

fun irq_guard :: "irq_config \<Rightarrow> irq_probe \<Rightarrow> irq_state \<Rightarrow> irqtracing_stream option \<times> irq_state" where
  "irq_guard cfg (Softirq_raise env) s = softirq_raise_guard cfg env s"
| "irq_guard cfg (Softirq_entry env) s = softirq_entry_guard cfg env s"

fun irq_atomic :: "irq_config \<Rightarrow> map_fault \<Rightarrow> irq_probe \<Rightarrow> irq_state \<Rightarrow> irq_state" where
  "irq_atomic cfg f (Softirq_raise env) s = probe_softirq_raise cfg f env s"
| "irq_atomic cfg f (Softirq_entry env) s = probe_softirq_entry cfg f env s"

text \<open>One access to shared memory by one CPU. The label is the probe, if a firing starts.\<close>

inductive irq_step ::
  "irq_config \<Rightarrow> irq_state \<times> (u32 \<Rightarrow> irq_pc) \<Rightarrow> irq_probe option \<Rightarrow> irq_state \<times> (u32 \<Rightarrow> irq_pc) \<Rightarrow> bool"
  for cfg where
  returned: "pc (ir_cpu (irq_env_of p)) = Idle \<Longrightarrow> irq_guard cfg p s = (None, s1) \<Longrightarrow>
    irq_step cfg (s, pc) (Some p) (s1, pc)"
| found: "pc (ir_cpu (irq_env_of p)) = Idle \<Longrightarrow> irq_guard cfg p s = (Some stream, s1) \<Longrightarrow>
    account_lookup stream (ir_cpu (irq_env_of p)) (stack_key (irq_env_of p)) s1 = Some s2 \<Longrightarrow>
    irq_step cfg (s, pc) (Some p) (s2, pc)"
| missed: "pc (ir_cpu (irq_env_of p)) = Idle \<Longrightarrow> irq_guard cfg p s = (Some stream, s1) \<Longrightarrow>
    account_lookup stream (ir_cpu (irq_env_of p)) (stack_key (irq_env_of p)) s1 = None \<Longrightarrow>
    irq_step cfg (s, pc) (Some p) (s1, pc(ir_cpu (irq_env_of p) := Missed stream (stack_key (irq_env_of p))))"
| inserted: "pc cpu = Missed stream key \<Longrightarrow> account_insert f stream cpu key s = Some s1 \<Longrightarrow>
    irq_step cfg (s, pc) None (s1, pc(cpu := Idle))"
| refused: "pc cpu = Missed stream key \<Longrightarrow> account_insert f stream cpu key s = None \<Longrightarrow>
    irq_step cfg (s, pc) None (s, pc(cpu := Refused stream key))"
| retried: "pc cpu = Refused stream key \<Longrightarrow>
    irq_step cfg (s, pc) None (account_retry stream cpu key s, pc(cpu := Idle))"

text \<open>A run with the firings started in it.\<close>

inductive irq_run ::
  "irq_config \<Rightarrow> irq_state \<times> (u32 \<Rightarrow> irq_pc) \<Rightarrow> irq_probe list \<Rightarrow> irq_state \<times> (u32 \<Rightarrow> irq_pc) \<Rightarrow> bool"
  for cfg where
  run_refl: "irq_run cfg g [] g"
| run_step: "irq_run cfg g ps g1 \<Longrightarrow> irq_step cfg g1 l g2 \<Longrightarrow>
    irq_run cfg g (ps @ (case l of None \<Rightarrow> [] | Some p \<Rightarrow> [p])) g2"

section \<open>No sample is lost\<close>

text \<open>The stream a firing belongs to, if it is traced at all.\<close>

fun irq_selects :: "irq_config \<Rightarrow> irq_probe \<Rightarrow> irqtracing_stream option" where
  "irq_selects cfg (Softirq_raise env) =
     (if should_trace_cpu cfg (ir_cpu env) then Some IRQTRACING_STREAM_SOURCE else None)"
| "irq_selects cfg (Softirq_entry env) =
     (if should_trace_cpu cfg (ir_cpu env) \<and> \<not> is_ksoftirqd (ir_comm env) (ir_flags env) \<and>
         (ucast (drop_bit 32 (ir_pid_tgid env)) :: u32) \<noteq> 0
      then Some IRQTRACING_STREAM_VICTIM else None)"

definition irq_selected :: "irq_config \<Rightarrow> irqtracing_stream \<Rightarrow> u32 \<Rightarrow> irq_probe list \<Rightarrow> nat" where
  "irq_selected cfg stream cpu ps =
     length (filter (\<lambda>p. irq_selects cfg p = Some stream \<and> ir_cpu (irq_env_of p) = cpu) ps)"

text \<open>The count of a CPU over a whole table, and the samples it has under way.\<close>

definition cpu_total :: "('k \<rightharpoonup> (u32 \<Rightarrow> u64)) \<Rightarrow> u32 \<Rightarrow> u64" where
  "cpu_total m cpu = (\<Sum>key \<in> dom m. the (m key) cpu)"

fun under_way :: "irqtracing_stream \<Rightarrow> irq_pc \<Rightarrow> u64" where
  "under_way stream Idle = 0"
| "under_way stream (Missed st key) = (if st = stream then 1 else 0)"
| "under_way stream (Refused st key) = (if st = stream then 1 else 0)"

lemma cpu_total_update:
  assumes "finite (dom m)"
  shows "cpu_total (m(k \<mapsto> f)) cpu = cpu_total m cpu + f cpu - (case m k of None \<Rightarrow> 0 | Some g \<Rightarrow> g cpu)"
proof -
  let ?rest = "\<Sum>key \<in> dom m - {k}. the (m key) cpu"
  have "cpu_total (m(k \<mapsto> f)) cpu = f cpu + ?rest"
    using sum.insert_remove [OF assms, of "\<lambda>key. the ((m(k \<mapsto> f)) key) cpu" k] by (simp add: cpu_total_def)
  moreover have "cpu_total m cpu = (case m k of None \<Rightarrow> 0 | Some g \<Rightarrow> g cpu) + ?rest"
    using assms sum.remove [of "dom m" k "\<lambda>key. the (m key) cpu"]
    by (auto simp: cpu_total_def domIff split: option.split)
  ultimately show ?thesis by simp
qed

text \<open>What one access may do: one more sample of one stream on one CPU, counted or dropped.\<close>

definition irq_counted :: "irqtracing_stream \<Rightarrow> u32 \<Rightarrow> irq_state \<Rightarrow> u64" where
  "irq_counted stream cpu s =
     cpu_total (counts_of stream s) cpu + (case dropped_samples s stream of None \<Rightarrow> 0 | Some d \<Rightarrow> d cpu)"

definition irq_ok :: "irq_state \<Rightarrow> bool" where
  "irq_ok s \<longleftrightarrow> (\<forall>stream. finite (dom (counts_of stream s)) \<and> dropped_samples s stream \<noteq> None)"

definition one_sample :: "irqtracing_stream \<Rightarrow> u32 \<Rightarrow> irq_state \<Rightarrow> irq_state \<Rightarrow> bool" where
  "one_sample stream cpu s s' \<longleftrightarrow> irq_ok s' \<and>
     (\<forall>st c. irq_counted st c s' = irq_counted st c s + (if st = stream \<and> c = cpu then 1 else 0))"

definition no_sample :: "irq_state \<Rightarrow> irq_state \<Rightarrow> bool" where
  "no_sample s s' \<longleftrightarrow> irq_ok s' \<and> (\<forall>st c. irq_counted st c s' = irq_counted st c s)"

lemma set_counts_fields [simp]:
  "counts_of st (set_counts stream m s) = (if st = stream then m else counts_of st s)"
  "dropped_samples (set_counts stream m s) = dropped_samples s"
  by (cases st; cases stream; simp)+

lemma one_sample_update:
  assumes "irq_ok s" and "f = g(cpu := g cpu + 1)"
    and "g = (case counts_of stream s k of None \<Rightarrow> (\<lambda>_. 0) | Some h \<Rightarrow> h)"
  shows "one_sample stream cpu s (set_counts stream ((counts_of stream s)(k \<mapsto> f)) s)"
  using assms
  by (auto simp: one_sample_def irq_ok_def irq_counted_def cpu_total_update split: option.splits)

lemma one_sample_lookup:
  "irq_ok s \<Longrightarrow> account_lookup stream cpu key s = Some s' \<Longrightarrow> one_sample stream cpu s s'"
  by (auto simp: account_lookup_def intro!: one_sample_update split: option.splits)

lemma one_sample_insert:
  assumes "irq_ok s" and "account_insert f stream cpu key s = Some s'"
  shows "one_sample stream cpu s s'"
proof -
  have "s' = set_counts stream ((counts_of stream s)(key \<mapsto> (\<lambda>_. 0)(cpu := 1))) s \<and> counts_of stream s key = None"
    using assms(2) by (auto simp: account_insert_def bpf_map_update_elem_def Let_def split: if_splits)
  then show ?thesis using assms(1) by (auto intro!: one_sample_update)
qed

lemma one_sample_drop: "irq_ok s \<Longrightarrow> one_sample stream cpu s (count_drop stream cpu s)"
proof -
  assume ok: "irq_ok s"
  have "counts_of st (s\<lparr>dropped_samples := d\<rparr>) = counts_of st s" for st d by (cases st) simp_all
  then show ?thesis using ok by (auto simp: one_sample_def irq_ok_def irq_counted_def count_drop_def split: option.split)
qed

lemma one_sample_retry: "irq_ok s \<Longrightarrow> one_sample stream cpu s (account_retry stream cpu key s)"
  by (auto simp: account_retry_def one_sample_drop dest: one_sample_lookup split: option.split)

lemma limiter_frame [simp]:
  "counts_of st (s\<lparr>source_rlimit := rl\<rparr>) = counts_of st s" "counts_of st (s\<lparr>victim_rlimit := rl\<rparr>) = counts_of st s"
  by (cases st; simp)+

lemma no_sample_limiter [simp]:
  "irq_ok (s\<lparr>source_rlimit := rl\<rparr>) = irq_ok s" "irq_ok (s\<lparr>victim_rlimit := rl\<rparr>) = irq_ok s"
  "irq_counted st c (s\<lparr>source_rlimit := rl\<rparr>) = irq_counted st c s"
  "irq_counted st c (s\<lparr>victim_rlimit := rl\<rparr>) = irq_counted st c s"
  by (simp_all add: irq_ok_def irq_counted_def)

lemma guard_samples:
  assumes "irq_ok s" and "irq_guard cfg p s = (res, s1)"
  shows "case res of Some stream \<Rightarrow> irq_selects cfg p = Some stream \<and> no_sample s s1
    | None \<Rightarrow> (case irq_selects cfg p of None \<Rightarrow> no_sample s s1
        | Some stream \<Rightarrow> one_sample stream (ir_cpu (irq_env_of p)) s s1)"
proof -
  have "one_sample stream cpu s (count_drop stream cpu (s\<lparr>source_rlimit := rl\<rparr>))"
    and "one_sample stream cpu s (count_drop stream cpu (s\<lparr>victim_rlimit := rl\<rparr>))" for stream cpu rl
    using one_sample_drop [of "s\<lparr>source_rlimit := rl\<rparr>" stream cpu] one_sample_drop [of "s\<lparr>victim_rlimit := rl\<rparr>" stream cpu] assms(1)
    by (simp_all add: one_sample_def)
  then show ?thesis
    using assms
    by (cases p) (auto simp: softirq_raise_guard_def softirq_entry_guard_def no_sample_def Let_def
        split: if_splits prod.splits)
qed

definition irq_balanced :: "irq_config \<Rightarrow> irq_probe list \<Rightarrow> irq_state \<Rightarrow> (u32 \<Rightarrow> irq_pc) \<Rightarrow> bool" where
  "irq_balanced cfg ps s pc \<longleftrightarrow> irq_ok s \<and>
     (\<forall>stream cpu. of_nat (irq_selected cfg stream cpu ps) = irq_counted stream cpu s + under_way stream (pc cpu))"

lemma selected_append:
  "irq_selected cfg stream cpu (ps @ [p]) = irq_selected cfg stream cpu ps +
     (if irq_selects cfg p = Some stream \<and> ir_cpu (irq_env_of p) = cpu then 1 else 0)"
  by (simp add: irq_selected_def)

lemma balanced_step:
  assumes "irq_step cfg g l g'" and "irq_balanced cfg ps (fst g) (snd g)"
  shows "irq_balanced cfg (ps @ (case l of None \<Rightarrow> [] | Some p \<Rightarrow> [p])) (fst g') (snd g')"
  using assms
proof (induction rule: irq_step.induct)
  case (returned pc p s s1)
  then show ?case using guard_samples [of s cfg p None s1]
    by (auto simp: irq_balanced_def selected_append no_sample_def one_sample_def split: option.splits)
next
  case (found pc p s stream s1 s2)
  then show ?case
    using guard_samples [of s cfg p "Some stream" s1] one_sample_lookup [OF _ found.hyps(3)]
    by (auto simp: irq_balanced_def selected_append no_sample_def one_sample_def)
next
  case (missed pc p s stream s1)
  then show ?case using guard_samples [of s cfg p "Some stream" s1]
    by (auto simp: irq_balanced_def selected_append no_sample_def)
next
  case (inserted pc cpu stream key f s s1)
  then show ?case using one_sample_insert [OF _ inserted.hyps(2)]
    by (auto simp: irq_balanced_def one_sample_def)
next
  case (refused pc cpu stream key f s)
  then show ?case by (auto simp: irq_balanced_def)
next
  case (retried pc cpu stream key s)
  then show ?case using one_sample_retry [of s stream cpu key]
    by (auto simp: irq_balanced_def one_sample_def)
qed

lemma balanced_run:
  "irq_run cfg g ps g' \<Longrightarrow> irq_balanced cfg [] (fst g) (snd g) \<Longrightarrow> irq_balanced cfg ps (fst g') (snd g')"
  by (induction rule: irq_run.induct) (auto dest: balanced_step)

definition irq_loaded :: irq_state where
  "irq_loaded =
     \<lparr>source_rlimit = Some (\<lambda>_. \<lparr>pc_window_start_ns = 0, pc_events_in_window = 0\<rparr>),
      victim_rlimit = Some (\<lambda>_. \<lparr>pc_window_start_ns = 0, pc_events_in_window = 0\<rparr>),
      source_counts = Map.empty, victim_counts = Map.empty, dropped_samples = (\<lambda>_. Some (\<lambda>_. 0))\<rparr>"

lemma loaded_balanced: "irq_balanced cfg [] irq_loaded (\<lambda>_. Idle)"
proof -
  have "counts_of st irq_loaded = Map.empty" for st by (cases st) (simp_all add: irq_loaded_def)
  then show ?thesis
    by (simp add: irq_balanced_def irq_ok_def irq_counted_def cpu_total_def irq_selected_def)
      (simp add: irq_loaded_def)
qed

text \<open>C23. No softirq sample is lost or counted twice, even when CPUs race for the same row: after any
  interleaving of the accesses of all CPUs, with any failed insertions, the traced firings a CPU has
  started for a stream are those it counted in the table, those it counted as dropped, and the one
  it may have under way (modulo 2^64).\<close>

theorem irq_samples_conserved:
  assumes "irq_run cfg (irq_loaded, \<lambda>_. Idle) ps (s, pc)"
  shows "of_nat (irq_selected cfg stream cpu ps) =
    cpu_total (counts_of stream s) cpu + the (dropped_samples s stream) cpu + under_way stream (pc cpu)"
proof -
  have "irq_balanced cfg ps s pc" using balanced_run [OF assms] loaded_balanced by simp
  moreover from this obtain d where "dropped_samples s stream = Some d"
    unfolding irq_balanced_def irq_ok_def by blast
  ultimately show ?thesis by (simp add: irq_balanced_def irq_counted_def)
qed

section \<open>Undisturbed firings\<close>

text \<open>The atomic firing is the run of its accesses with no other CPU in between.\<close>

lemma irq_atomic_guard:
  "irq_atomic cfg f p s = (case irq_guard cfg p s of (None, s1) \<Rightarrow> s1
     | (Some stream, s1) \<Rightarrow> account_stack f stream (irq_env_of p) s1)"
  by (cases p) (auto simp: probe_softirq_raise_def probe_softirq_entry_def split: prod.split option.split)

lemma run_one: "irq_step cfg g (Some p) g1 \<Longrightarrow> irq_run cfg g [p] g1"
  using run_step [OF run_refl, of cfg g "Some p" g1] by simp

lemma run_more: "irq_run cfg g ps g1 \<Longrightarrow> irq_step cfg g1 None g2 \<Longrightarrow> irq_run cfg g ps g2"
  using run_step [of cfg g ps g1 None g2] by simp

lemma run_next: "irq_run cfg g ps g1 \<Longrightarrow> irq_step cfg g1 (Some p) g2 \<Longrightarrow> irq_run cfg g (ps @ [p]) g2"
  using run_step [of cfg g ps g1 "Some p" g2] by simp

lemma irq_atomic_run:
  assumes idle: "pc (ir_cpu (irq_env_of p)) = Idle"
  shows "irq_run cfg (s, pc) [p] (irq_atomic cfg f p s, pc)"
proof -
  let ?c = "ir_cpu (irq_env_of p)" and ?k = "stack_key (irq_env_of p)"
  obtain res s1 where g: "irq_guard cfg p s = (res, s1)" by (cases "irq_guard cfg p s")
  show ?thesis
  proof (cases res)
    case None
    with g idle show ?thesis by (auto simp: irq_atomic_guard intro!: run_one irq_step.returned)
  next
    case (Some stream)
    show ?thesis
    proof (cases "account_lookup stream ?c ?k s1")
      case None
      have miss: "irq_run cfg (s, pc) [p] (s1, pc(?c := Missed stream ?k))"
        using g Some None idle by (intro run_one irq_step.missed) auto
      show ?thesis
      proof (cases "account_insert f stream ?c ?k s1")
        case None: None
        have "irq_run cfg (s, pc) [p] (s1, pc(?c := Refused stream ?k))"
          using run_more [OF miss irq_step.refused [OF _ None]] by simp
        from run_more [OF this irq_step.retried [of _ ?c stream ?k]] show ?thesis
          using g Some None \<open>account_lookup stream ?c ?k s1 = None\<close> idle
          by (simp add: irq_atomic_guard account_stack_def fun_upd_idem)
      next
        case ins: (Some s2)
        from run_more [OF miss irq_step.inserted [OF _ ins]] show ?thesis
          using g Some None idle by (simp add: irq_atomic_guard account_stack_def ins fun_upd_idem)
      qed
    next
      case hit: (Some s2)
      with g Some idle show ?thesis
        by (auto simp: irq_atomic_guard account_stack_def intro!: run_one irq_step.found)
    qed
  qed
qed

section \<open>Example\<close>

definition demo_irq_env :: "u32 \<Rightarrow> irq_env" where
  "demo_irq_env cpu =
     \<lparr>ir_cpu = cpu, ir_now = 5, ir_pid_tgid = 0, ir_comm = ''swapper'', ir_flags = 0, ir_vec = 3,
      ir_ustack = - 14, ir_kstack = 9\<rparr>"

definition demo_irq_config :: irq_config where
  "demo_irq_config = \<lparr>target_cpu = IRQTRACING_TARGET_ALL_CPUS, source_rate_limit = 0, victim_rate_limit = 0\<rparr>"

text \<open>Two CPUs race to insert the same stack; the loser finds the row of the winner.\<close>

theorem irq_samples_conserved_witness:
  "\<exists>s. irq_run demo_irq_config (irq_loaded, \<lambda>_. Idle)
       [Softirq_raise (demo_irq_env 0), Softirq_raise (demo_irq_env 1)] (s, \<lambda>_. Idle) \<and>
     cpu_total (source_counts s) 1 + the (dropped_samples s IRQTRACING_STREAM_SOURCE) 1 = 1"
proof -
  let ?S = IRQTRACING_STREAM_SOURCE and ?cfg = demo_irq_config
  define k where "k = stack_key (demo_irq_env 0)"
  have k: "stack_key (demo_irq_env c) = k" and c: "ir_cpu (demo_irq_env c) = c" for c
    by (simp_all add: k_def stack_key_def demo_irq_env_def)
  have guard: "softirq_raise_guard ?cfg (demo_irq_env c) irq_loaded = (Some ?S, irq_loaded)" for c
    by (simp add: softirq_raise_guard_def should_trace_cpu_def demo_irq_config_def irq_ratelimited_def irq_loaded_def)
  have empty: "account_lookup ?S c k irq_loaded = None" for c by (simp add: account_lookup_def irq_loaded_def)
  define s1 where "s1 = set_counts ?S [k \<mapsto> (\<lambda>_. 0)(0 := 1)] irq_loaded"
  have ins: "account_insert Fault_none ?S 0 k irq_loaded = Some s1"
    and full: "account_insert Fault_none ?S 1 k s1 = None"
    by (simp_all add: account_insert_def s1_def irq_loaded_def)
  have r1: "irq_run ?cfg (irq_loaded, \<lambda>_. Idle) [Softirq_raise (demo_irq_env 0)] (irq_loaded, (\<lambda>_. Idle)(0 := Missed ?S k))"
    using irq_step.missed [of "\<lambda>_. Idle" "Softirq_raise (demo_irq_env 0)" ?cfg irq_loaded ?S irq_loaded]
    by (intro run_one) (simp add: k c guard empty)
  have "irq_run ?cfg (irq_loaded, \<lambda>_. Idle) [Softirq_raise (demo_irq_env 0), Softirq_raise (demo_irq_env 1)]
      (irq_loaded, (\<lambda>_. Idle)(0 := Missed ?S k, 1 := Missed ?S k))"
    using run_next [OF r1 irq_step.missed [of _ "Softirq_raise (demo_irq_env 1)" ?cfg irq_loaded ?S irq_loaded]]
    by (simp add: k c guard empty)
  from run_more [OF this irq_step.inserted [OF _ ins]]
  have "irq_run ?cfg (irq_loaded, \<lambda>_. Idle) [Softirq_raise (demo_irq_env 0), Softirq_raise (demo_irq_env 1)]
      (s1, (\<lambda>_. Idle)(0 := Idle, 1 := Missed ?S k))" by (simp add: fun_upd_twist)
  from run_more [OF this irq_step.refused [OF _ full]]
  have "irq_run ?cfg (irq_loaded, \<lambda>_. Idle) [Softirq_raise (demo_irq_env 0), Softirq_raise (demo_irq_env 1)]
      (s1, (\<lambda>_. Idle)(0 := Idle, 1 := Refused ?S k))" by simp
  from run_more [OF this irq_step.retried [of _ 1 ?S k]]
  have run: "irq_run ?cfg (irq_loaded, \<lambda>_. Idle) [Softirq_raise (demo_irq_env 0), Softirq_raise (demo_irq_env 1)]
      (account_retry ?S 1 k s1, \<lambda>_. Idle)" by (simp add: fun_upd_idem)
  have "irq_selected ?cfg ?S 1 [Softirq_raise (demo_irq_env 0), Softirq_raise (demo_irq_env 1)] = 1"
    by (simp add: irq_selected_def should_trace_cpu_def demo_irq_config_def demo_irq_env_def)
  with irq_samples_conserved [OF run, of ?S 1] run show ?thesis by auto
qed

end
