(* ===== verification/Softirq.thy ===== *)
theory Softirq
  imports Bpf_Prelude
begin

text \<open>
  \<^verbatim>\<open>bpf/system_softirq.c\<close>: the latency of softirqs from the raise to the handler, as a histogram per
  CPU and vector. A vector raised again before its handler runs keeps its first raise.
\<close>

section \<open>Model\<close>

record softirq_lat =
  lat_enable :: u64
  lat_start_ns :: u64
  latency_counts :: "u64 list"

abbreviation (input) "LAT_ZONE0 \<equiv> 0 :: nat"
abbreviation (input) "LAT_ZONE1 \<equiv> 1 :: nat"
abbreviation (input) "LAT_ZONE2 \<equiv> 2 :: nat"
abbreviation (input) "LAT_ZONE3 \<equiv> 3 :: nat"
abbreviation (input) "LAT_ZONE_MAX \<equiv> 4 :: nat"
abbreviation (input) "NR_SOFTIRQS \<equiv> 10 :: u32"
abbreviation (input) "NSEC_PER_USEC \<equiv> 1000 :: u64"
abbreviation (input) "NSEC_PER_MSEC \<equiv> 1000000 :: u64"

type_synonym softirq_lats = "u32 \<rightharpoonup> (u32 \<Rightarrow> softirq_lat)"

definition zero_lat :: softirq_lat where
  "zero_lat = \<lparr>lat_enable = 0, lat_start_ns = 0, latency_counts = replicate LAT_ZONE_MAX 0\<rparr>"

definition probe_softirq_raise :: "map_fault \<Rightarrow> u32 \<Rightarrow> u64 \<Rightarrow> u32 \<Rightarrow> softirq_lats \<Rightarrow> softirq_lats" where
  "probe_softirq_raise f cpu now vec m =
     (if NR_SOFTIRQS \<le> vec then m
      else case m vec of
        None \<Rightarrow> snd (bpf_map_update_elem f BPF_ANY vec
                  ((\<lambda>_. zero_lat)(cpu := zero_lat\<lparr>lat_start_ns := now, lat_enable := 1\<rparr>)) m)
      | Some lats \<Rightarrow>
          let lat = lats cpu
          in if lat_enable lat = 0
             then m(vec \<mapsto> lats(cpu := lat\<lparr>lat_start_ns := now, lat_enable := 1\<rparr>))
             else m)"

definition lat_zone :: "u64 \<Rightarrow> nat" where
  "lat_zone latency =
     (if latency < 10 * NSEC_PER_USEC then LAT_ZONE0
      else if latency < 100 * NSEC_PER_USEC then LAT_ZONE1
      else if latency < 1 * NSEC_PER_MSEC then LAT_ZONE2
      else LAT_ZONE3)"

definition probe_softirq_entry :: "u32 \<Rightarrow> u64 \<Rightarrow> u32 \<Rightarrow> softirq_lats \<Rightarrow> softirq_lats" where
  "probe_softirq_entry cpu now vec m =
     (if NR_SOFTIRQS \<le> vec then m
      else case m vec of
        None \<Rightarrow> m
      | Some lats \<Rightarrow>
          let lat = lats cpu
          in if lat_enable lat = 0 then m
             else
               let zone = lat_zone (now - lat_start_ns lat)
               in m(vec \<mapsto> lats(cpu := lat\<lparr>latency_counts :=
                     (latency_counts lat)[zone := latency_counts lat ! zone + 1], lat_enable := 0\<rparr>)))"

datatype softirq_probe = Raise map_fault u32 u64 u32 | Entry u32 u64 u32

fun softirq_step :: "softirq_probe \<Rightarrow> softirq_lats \<Rightarrow> softirq_lats" where
  "softirq_step (Raise f cpu now vec) m = probe_softirq_raise f cpu now vec m"
| "softirq_step (Entry cpu now vec) m = probe_softirq_entry cpu now vec m"

section \<open>The histogram of a run\<close>

text \<open>
  What the histogram is meant to show: the latencies of a vector on a CPU in a sequence of raises
  and handler entries. \<open>pending\<close> is the time of the first raise not yet served.
\<close>

fun softirq_latencies :: "u32 \<Rightarrow> u32 \<Rightarrow> u64 option \<Rightarrow> softirq_probe list \<Rightarrow> u64 list" where
  "softirq_latencies cpu vec pending [] = []"
| "softirq_latencies cpu vec pending (Raise f c now v # es) =
     softirq_latencies cpu vec
       (if c = cpu \<and> v = vec \<and> pending = None then Some now else pending) es"
| "softirq_latencies cpu vec pending (Entry c now v # es) =
     (if c = cpu \<and> v = vec
      then (case pending of None \<Rightarrow> [] | Some start \<Rightarrow> [now - start]) @ softirq_latencies cpu vec None es
      else softirq_latencies cpu vec pending es)"

text \<open>The number of latencies that reach as many of the three bounds as the zone says.\<close>

definition in_zone :: "nat \<Rightarrow> u64 list \<Rightarrow> nat" where
  "in_zone z ls =
     length (filter (\<lambda>l. length (filter (\<lambda>b. b \<le> unat l) [10000, 100000, 1000000]) = z) ls)"

lemma lat_zone_bounds: "lat_zone l = length (filter (\<lambda>b. b \<le> unat l) [10000, 100000, 1000000])"
  by (simp add: lat_zone_def word_less_nat_alt)

lemma in_zone_simps [simp]:
  "in_zone z [] = 0" "in_zone z (l # ls) = (if lat_zone l = z then 1 else 0) + in_zone z ls"
  by (simp_all add: in_zone_def lat_zone_bounds)

definition lat_state :: "u64 option \<Rightarrow> softirq_lat \<Rightarrow> bool" where
  "lat_state pending lat \<longleftrightarrow> length (latency_counts lat) = LAT_ZONE_MAX \<and>
     (case pending of None \<Rightarrow> lat_enable lat = 0 | Some start \<Rightarrow> lat_enable lat \<noteq> 0 \<and> lat_start_ns lat = start)"

text \<open>One firing, seen from one vector and CPU.\<close>

lemma raise_row:
  assumes "m vec = Some lats" and "vec < NR_SOFTIRQS" and "lat_state pending (lats cpu)"
  shows "\<exists>lats'. probe_softirq_raise f c now v m vec = Some lats' \<and>
    lat_state (if c = cpu \<and> v = vec \<and> pending = None then Some now else pending) (lats' cpu) \<and>
    latency_counts (lats' cpu) = latency_counts (lats cpu)"
  using assms
  by (cases "v = vec") (auto simp: probe_softirq_raise_def lat_state_def bmap.update_other Let_def split: option.splits)

lemma entry_row:
  assumes "m vec = Some lats" and "vec < NR_SOFTIRQS" and "lat_state pending (lats cpu)"
  shows "\<exists>lats'. probe_softirq_entry c now v m vec = Some lats' \<and>
    lat_state (if c = cpu \<and> v = vec then None else pending) (lats' cpu) \<and>
    latency_counts (lats' cpu) =
      (if c = cpu \<and> v = vec
       then case pending of None \<Rightarrow> latency_counts (lats cpu)
         | Some start \<Rightarrow> (latency_counts (lats cpu))
             [lat_zone (now - start) := latency_counts (lats cpu) ! lat_zone (now - start) + 1]
       else latency_counts (lats cpu))"
  using assms
  by (cases "v = vec") (auto simp: probe_softirq_entry_def lat_state_def Let_def split: option.splits)

lemma histogram_run:
  assumes "m vec = Some lats" and "vec < NR_SOFTIRQS" and "lat_state pending (lats cpu)" and "z < LAT_ZONE_MAX"
  shows "\<exists>lats'. fold softirq_step es m vec = Some lats' \<and>
    latency_counts (lats' cpu) ! z =
      latency_counts (lats cpu) ! z + of_nat (in_zone z (softirq_latencies cpu vec pending es))"
  using assms
proof (induction es arbitrary: m lats pending)
  case Nil
  then show ?case by simp
next
  case (Cons e es)
  show ?case
  proof (cases e)
    case (Raise f c now v)
    obtain lats' where "probe_softirq_raise f c now v m vec = Some lats'"
        "lat_state (if c = cpu \<and> v = vec \<and> pending = None then Some now else pending) (lats' cpu)"
        "latency_counts (lats' cpu) = latency_counts (lats cpu)"
      using raise_row [of m vec lats pending cpu f c now v] Cons.prems(1-3) by blast
    with Cons.IH [of "probe_softirq_raise f c now v m" lats'] Cons.prems show ?thesis by (simp add: Raise)
  next
    case (Entry c now v)
    obtain lats' where row: "probe_softirq_entry c now v m vec = Some lats'"
        "lat_state (if c = cpu \<and> v = vec then None else pending) (lats' cpu)"
        "latency_counts (lats' cpu) =
          (if c = cpu \<and> v = vec
           then case pending of None \<Rightarrow> latency_counts (lats cpu)
             | Some start \<Rightarrow> (latency_counts (lats cpu))
                 [lat_zone (now - start) := latency_counts (lats cpu) ! lat_zone (now - start) + 1]
           else latency_counts (lats cpu))"
      using entry_row [of m vec lats pending cpu c now v] Cons.prems(1-3) by blast
    have len: "length (latency_counts (lats cpu)) = LAT_ZONE_MAX" using Cons.prems(3) by (simp add: lat_state_def)
    obtain lats2 where "fold softirq_step es (probe_softirq_entry c now v m) vec = Some lats2"
        "latency_counts (lats2 cpu) ! z = latency_counts (lats' cpu) ! z +
          of_nat (in_zone z (softirq_latencies cpu vec (if c = cpu \<and> v = vec then None else pending) es))"
      using Cons.IH [of "probe_softirq_entry c now v m" lats' "if c = cpu \<and> v = vec then None else pending"]
        row(1,2) Cons.prems(2,4) by blast
    then show ?thesis using row(3) len Cons.prems(4)
      by (auto simp: Entry nth_list_update split: if_splits option.splits)
  qed
qed

text \<open>C25. The histogram is that of the run: for every vector and CPU, zone \<open>z\<close> holds, modulo 2^64,
  the number of served raises whose latency reaches exactly \<open>z\<close> of the bounds 10us, 100us and 1ms,
  each measured from the first raise since the handler last ran.\<close>

theorem softirq_histogram:
  assumes "vec < NR_SOFTIRQS" and "z < LAT_ZONE_MAX" and "\<forall>v < 16. m v = Some (\<lambda>_. zero_lat)"
  shows "map_option (\<lambda>lats. latency_counts (lats cpu) ! z) (fold softirq_step es m vec) =
    Some (of_nat (in_zone z (softirq_latencies cpu vec None es)))"
proof -
  have "m vec = Some (\<lambda>_. zero_lat)" using assms(1,3) by (simp add: word_less_nat_alt)
  with histogram_run [of m vec "\<lambda>_. zero_lat" None cpu z es] show ?thesis
    using assms(1,2) by (auto simp: lat_state_def zero_lat_def)
qed

theorem softirq_histogram_witness:
  "map_option (\<lambda>lats. latency_counts (lats 2) ! 1) (fold softirq_step
     [Raise Fault_none 2 1000 3, Raise Fault_none 2 5000 3, Entry 2 21000 3]
     (\<lambda>v. if v < 16 then Some (\<lambda>_. zero_lat) else None) 3) = Some 1"
  using softirq_histogram [of 3 1 "\<lambda>v. if v < 16 then Some (\<lambda>_. zero_lat) else None" 2
      "[Raise Fault_none 2 1000 3, Raise Fault_none 2 5000 3, Entry 2 21000 3]"]
  by (simp add: lat_zone_def del: fold.simps fold_simps)

end
