(* ===== verification/Sched_Tick.thy ===== *)
theory Sched_Tick
  imports Ratelimit
begin

text \<open>
  \<^verbatim>\<open>bpf/sched_tick.c\<close> with \<^verbatim>\<open>abi/sched_tick_types.h\<close>: late scheduler ticks. Each CPU remembers its
  last tick; a successful stop of the tick forgets it and a restart begins anew, so that idle time
  is not taken for a late tick. Reports pass a limiter of ten per second and CPU.
\<close>

section \<open>Model\<close>

record sched_tick_event =
  st_stack :: "u64 list"
  st_stack_size :: int
  tick_interval_ns :: u64
  st_comm :: string
  st_tgid :: u32
  st_cpu :: u32

record sched_tick_state =
  last_tick_ns :: u64
  report_ratelimit :: bpf_percpu_ratelimit_state
  tick_stopped :: u32

abbreviation (input) "SCHED_TICK_REPORT_WINDOW_NS \<equiv> 1000000000 :: u64"
abbreviation (input) "MAX_SCHED_TICK_REPORTS_PER_CPU_PER_SECOND \<equiv> 10 :: u32"

text \<open>The helper results of a firing: \<open>te_now\<close> is the probe's own reading of the clock and
  \<open>te_limit_ns\<close> the later one of the limiter; \<open>te_stack\<close> holds the captured frames;
  \<open>te_comm\<close> is \<open>None\<close> if the command cannot be read, which
  clears the buffer.\<close>

record tick_env =
  te_now :: u64
  te_limit_ns :: u64
  te_cpu :: u32
  te_pid_tgid :: u64
  te_comm :: "string option"
  te_stack :: "u64 list"
  te_stack_size :: int

record sched_tick_maps =
  sched_tick_states :: "(u32 \<Rightarrow> sched_tick_state) option"
  sched_tick_event_buf :: "(u32 \<Rightarrow> sched_tick_event) option"
  sched_tick_events :: "sched_tick_event list"

definition tick_report :: "tick_env \<Rightarrow> u64 \<Rightarrow> sched_tick_maps \<Rightarrow> sched_tick_maps" where
  "tick_report env tick_interval s =
     (case sched_tick_event_buf s of None \<Rightarrow> s
      | Some bufs \<Rightarrow>
          let event = (bufs (te_cpu env))\<lparr>tick_interval_ns := tick_interval\<rparr>
          in case te_comm env of
               None \<Rightarrow> s\<lparr>sched_tick_event_buf :=
                 Some (bufs(te_cpu env := event\<lparr>st_comm := replicate 16 (CHR 0x00)\<rparr>))\<rparr>
             | Some comm \<Rightarrow>
                 let event1 = event\<lparr>st_comm := comm, st_tgid := ucast (drop_bit 32 (te_pid_tgid env)),
                       st_cpu := te_cpu env, st_stack := stack_buffer (te_stack env), st_stack_size := te_stack_size env\<rparr>
                 in s\<lparr>sched_tick_event_buf := Some (bufs(te_cpu env := event1)),
                      sched_tick_events := sched_tick_events s @ [event1]\<rparr>)"

definition trace_sched_tick_interval :: "u64 \<Rightarrow> tick_env \<Rightarrow> sched_tick_maps \<Rightarrow> sched_tick_maps" where
  "trace_sched_tick_interval sched_tick_interval_threshold_ns env s =
     (case sched_tick_states s of None \<Rightarrow> s
      | Some states \<Rightarrow>
          let state = states (te_cpu env); now = te_now env
          in if tick_stopped state \<noteq> 0 then s
             else if last_tick_ns state = 0
             then s\<lparr>sched_tick_states := Some (states(te_cpu env := state\<lparr>last_tick_ns := now\<rparr>))\<rparr>
             else
               let tick_interval = now - last_tick_ns state;
                   state1 = state\<lparr>last_tick_ns := now\<rparr>
               in if tick_interval < sched_tick_interval_threshold_ns
                  then s\<lparr>sched_tick_states := Some (states(te_cpu env := state1))\<rparr>
                  else
                    let (limited, rl) = bpf_percpu_ratelimited_ns (Some (report_ratelimit state1))
                          SCHED_TICK_REPORT_WINDOW_NS MAX_SCHED_TICK_REPORTS_PER_CPU_PER_SECOND (te_limit_ns env);
                        s1 = s\<lparr>sched_tick_states :=
                               Some (states(te_cpu env := state1\<lparr>report_ratelimit := the rl\<rparr>))\<rparr>
                    in if limited then s1 else tick_report env tick_interval s1)"

definition trace_sched_tick_stop :: "tick_env \<Rightarrow> bool \<Rightarrow> sched_tick_maps \<Rightarrow> sched_tick_maps" where
  "trace_sched_tick_stop env success s =
     (case sched_tick_states s of None \<Rightarrow> s
      | Some states \<Rightarrow>
          if success
          then s\<lparr>sched_tick_states :=
                 Some (states(te_cpu env := (states (te_cpu env))\<lparr>tick_stopped := 1, last_tick_ns := 0\<rparr>))\<rparr>
          else s)"

definition trace_sched_tick_restart :: "tick_env \<Rightarrow> sched_tick_maps \<Rightarrow> sched_tick_maps" where
  "trace_sched_tick_restart env s =
     (case sched_tick_states s of None \<Rightarrow> s
      | Some states \<Rightarrow>
          s\<lparr>sched_tick_states :=
            Some (states(te_cpu env := (states (te_cpu env))\<lparr>last_tick_ns := te_now env, tick_stopped := 0\<rparr>))\<rparr>)"

datatype tick_probe = Tick tick_env | Tick_stop tick_env bool | Tick_restart tick_env

fun tick_step :: "u64 \<Rightarrow> tick_probe \<Rightarrow> sched_tick_maps \<Rightarrow> sched_tick_maps" where
  "tick_step thr (Tick env) s = trace_sched_tick_interval thr env s"
| "tick_step thr (Tick_stop env success) s = trace_sched_tick_stop env success s"
| "tick_step thr (Tick_restart env) s = trace_sched_tick_restart env s"

fun tick_env_of :: "tick_probe \<Rightarrow> tick_env" where
  "tick_env_of (Tick env) = env"
| "tick_env_of (Tick_stop env success) = env"
| "tick_env_of (Tick_restart env) = env"

definition tick_loaded :: sched_tick_maps where
  "tick_loaded =
     \<lparr>sched_tick_states = Some (\<lambda>_. \<lparr>last_tick_ns = 0,
        report_ratelimit = \<lparr>pc_window_start_ns = 0, pc_events_in_window = 0\<rparr>, tick_stopped = 0\<rparr>),
      sched_tick_event_buf = Some (\<lambda>_. \<lparr>st_stack = replicate 127 0, st_stack_size = 0, tick_interval_ns = 0,
        st_comm = replicate 16 (CHR 0x00), st_tgid = 0, st_cpu = 0\<rparr>),
      sched_tick_events = []\<rparr>"

section \<open>Idle time is never reported\<close>

abbreviation "probe_ns e \<equiv> unat (te_now (tick_env_of e))"

text \<open>The time a CPU spends between a successful stop of its tick and the restart; \<open>since\<close> is the
  time of the stop, if the tick is stopped.\<close>

fun idle_time :: "u32 \<Rightarrow> nat option \<Rightarrow> tick_probe list \<Rightarrow> nat" where
  "idle_time cpu since [] = 0"
| "idle_time cpu since (Tick env # es) = idle_time cpu since es"
| "idle_time cpu since (Tick_stop env success # es) =
     idle_time cpu (if te_cpu env = cpu \<and> success \<and> since = None then Some (unat (te_now env)) else since) es"
| "idle_time cpu since (Tick_restart env # es) =
     (if te_cpu env = cpu
      then (case since of None \<Rightarrow> 0 | Some t \<Rightarrow> unat (te_now env) - t) + idle_time cpu None es
      else idle_time cpu since es)"

definition reported_ns :: "u32 \<Rightarrow> sched_tick_maps \<Rightarrow> nat" where
  "reported_ns cpu s =
     sum_list (map (\<lambda>ev. unat (tick_interval_ns ev)) (filter (\<lambda>ev. st_cpu ev = cpu) (sched_tick_events s)))"

text \<open>What a CPU remembers: \<open>M\<close> is the time up to which its intervals are accounted for, the last
  tick or the stop of the tick.\<close>

definition tick_mark :: "u32 \<Rightarrow> nat option \<Rightarrow> nat \<Rightarrow> sched_tick_maps \<Rightarrow> bool" where
  "tick_mark cpu since M s \<longleftrightarrow> (\<exists>states. sched_tick_states s = Some states \<and>
     (case since of
        None \<Rightarrow> tick_stopped (states cpu) = 0 \<and> (last_tick_ns (states cpu) = 0 \<or> unat (last_tick_ns (states cpu)) = M)
      | Some t \<Rightarrow> tick_stopped (states cpu) \<noteq> 0 \<and> t = M))"

fun idle_part :: "u32 \<Rightarrow> nat option \<Rightarrow> tick_probe \<Rightarrow> nat" where
  "idle_part cpu since (Tick_restart env) =
     (if te_cpu env = cpu then (case since of None \<Rightarrow> 0 | Some t \<Rightarrow> unat (te_now env) - t) else 0)"
| "idle_part cpu since e = 0"

fun idle_since :: "u32 \<Rightarrow> nat option \<Rightarrow> tick_probe \<Rightarrow> nat option" where
  "idle_since cpu since (Tick env) = since"
| "idle_since cpu since (Tick_stop env success) =
     (if te_cpu env = cpu \<and> success \<and> since = None then Some (unat (te_now env)) else since)"
| "idle_since cpu since (Tick_restart env) = (if te_cpu env = cpu then None else since)"

lemma idle_time_Cons: "idle_time cpu since (e # es) = idle_part cpu since e + idle_time cpu (idle_since cpu since e) es"
  by (cases e) simp_all

lemma report_fields [simp]:
  "sched_tick_states (tick_report env d s) = sched_tick_states s"
  by (simp add: tick_report_def Let_def split: option.split)

lemma reported_report:
  "reported_ns cpu (tick_report env d s) \<le> reported_ns cpu s + (if te_cpu env = cpu then unat d else 0)"
  by (simp add: tick_report_def reported_ns_def Let_def split: option.split)

lemma reported_states [simp]: "reported_ns cpu (s\<lparr>sched_tick_states := x\<rparr>) = reported_ns cpu s"
  by (simp add: reported_ns_def)

lemma tick_effect:
  assumes "sched_tick_states s = Some states"
  shows "\<exists>states'. sched_tick_states (trace_sched_tick_interval thr env s) = Some states' \<and>
    (\<forall>c. c \<noteq> te_cpu env \<longrightarrow> states' c = states c) \<and>
    tick_stopped (states' (te_cpu env)) = tick_stopped (states (te_cpu env)) \<and>
    (tick_stopped (states (te_cpu env)) = 0 \<longrightarrow> last_tick_ns (states' (te_cpu env)) = te_now env)"
  using assms by (auto simp: trace_sched_tick_interval_def Let_def split: if_splits prod.splits)

lemma tick_reported:
  assumes "sched_tick_states s = Some states"
  shows "reported_ns cpu (trace_sched_tick_interval thr env s) \<le> reported_ns cpu s +
    (if te_cpu env = cpu \<and> tick_stopped (states cpu) = 0 \<and> last_tick_ns (states cpu) \<noteq> 0
     then unat (te_now env - last_tick_ns (states cpu)) else 0)"
  using assms
  by (auto simp: trace_sched_tick_interval_def Let_def intro!: le_trans [OF reported_report] split: prod.split)

lemma tick_mark_interval:
  assumes "tick_mark cpu since M s" and "M \<le> unat (te_now env)"
  shows "\<exists>M'. tick_mark cpu since M' (trace_sched_tick_interval thr env s) \<and> M \<le> M' \<and> M' \<le> unat (te_now env) \<and>
    reported_ns cpu (trace_sched_tick_interval thr env s) \<le> reported_ns cpu s + (M' - M)"
proof -
  obtain states where s: "sched_tick_states s = Some states"
    using assms(1) by (auto simp: tick_mark_def)
  let ?s = "trace_sched_tick_interval thr env s"
  obtain states' where s': "sched_tick_states ?s = Some states'" "\<forall>c. c \<noteq> te_cpu env \<longrightarrow> states' c = states c"
      "tick_stopped (states' (te_cpu env)) = tick_stopped (states (te_cpu env))"
      "tick_stopped (states (te_cpu env)) = 0 \<longrightarrow> last_tick_ns (states' (te_cpu env)) = te_now env"
    using tick_effect [OF s] by blast
  show ?thesis
  proof (cases "te_cpu env = cpu \<and> tick_stopped (states cpu) = 0")
    case True
    then have since: "since = None" and last: "last_tick_ns (states cpu) = 0 \<or> unat (last_tick_ns (states cpu)) = M"
      using assms(1) s by (auto simp: tick_mark_def split: option.splits)
    have "unat (te_now env - last_tick_ns (states cpu)) = unat (te_now env) - M" if "last_tick_ns (states cpu) \<noteq> 0"
      using last that assms(2) by (auto simp: unat_sub word_le_nat_alt)
    then have "reported_ns cpu ?s \<le> reported_ns cpu s + (unat (te_now env) - M)"
      using tick_reported [OF s, of cpu thr env] True by (auto split: if_splits)
    moreover have "tick_mark cpu since (unat (te_now env)) ?s"
      using s' True by (auto simp: tick_mark_def since)
    ultimately show ?thesis using assms(2) by blast
  next
    case False
    then have "reported_ns cpu ?s \<le> reported_ns cpu s"
      using tick_reported [OF s, of cpu thr env] by (auto split: if_splits)
    moreover have "tick_mark cpu since M ?s"
      using assms(1) s s' False by (cases "te_cpu env = cpu") (auto simp: tick_mark_def split: option.splits)
    ultimately show ?thesis using assms(2) by auto
  qed
qed

lemma tick_mark_step:
  assumes "tick_mark cpu since M s" and "M \<le> probe_ns e"
  shows "\<exists>M'. tick_mark cpu (idle_since cpu since e) M' (tick_step thr e s) \<and> M \<le> M' \<and> M' \<le> probe_ns e \<and>
    reported_ns cpu (tick_step thr e s) + idle_part cpu since e \<le> reported_ns cpu s + (M' - M)"
proof (cases e)
  case (Tick env)
  then show ?thesis using tick_mark_interval [of cpu since M s env thr] assms by simp
next
  case (Tick_stop env success)
  obtain states where s: "sched_tick_states s = Some states" using assms(1) by (auto simp: tick_mark_def)
  let ?M = "if te_cpu env = cpu \<and> success \<and> since = None then unat (te_now env) else M"
  have "tick_mark cpu (idle_since cpu since e) ?M (tick_step thr e s)"
    using assms(1) s by (auto simp: Tick_stop trace_sched_tick_stop_def tick_mark_def split: option.splits)
  moreover have "reported_ns cpu (tick_step thr e s) = reported_ns cpu s"
    by (simp add: Tick_stop trace_sched_tick_stop_def s)
  ultimately show ?thesis using assms(2) by (intro exI [of _ ?M]) (auto simp: Tick_stop)
next
  case (Tick_restart env)
  obtain states where s: "sched_tick_states s = Some states" using assms(1) by (auto simp: tick_mark_def)
  let ?M = "if te_cpu env = cpu then unat (te_now env) else M"
  have "tick_mark cpu (idle_since cpu since e) ?M (tick_step thr e s)"
    using assms(1) s by (auto simp: Tick_restart trace_sched_tick_restart_def tick_mark_def split: option.splits)
  moreover have "reported_ns cpu (tick_step thr e s) = reported_ns cpu s"
    by (simp add: Tick_restart trace_sched_tick_restart_def s)
  moreover have "idle_part cpu since e \<le> ?M - M"
    using assms(1) by (auto simp: Tick_restart tick_mark_def split: option.split)
  ultimately show ?thesis using assms(2) by (intro exI [of _ ?M]) (auto simp: Tick_restart)
qed

lemma tick_run:
  assumes "tick_mark cpu since M s" and "sorted (map probe_ns es)" and "\<forall>e \<in> set es. M \<le> probe_ns e \<and> probe_ns e \<le> T"
    and "M \<le> T"
  shows "reported_ns cpu (fold (tick_step thr) es s) + idle_time cpu since es \<le> reported_ns cpu s + (T - M)"
  using assms
proof (induction es arbitrary: s since M)
  case (Cons e es)
  obtain M' where M': "tick_mark cpu (idle_since cpu since e) M' (tick_step thr e s)" "M \<le> M'" "M' \<le> probe_ns e"
      "reported_ns cpu (tick_step thr e s) + idle_part cpu since e \<le> reported_ns cpu s + (M' - M)"
    using tick_mark_step [OF Cons.prems(1), of e thr] Cons.prems(3) by auto
  have "reported_ns cpu (fold (tick_step thr) es (tick_step thr e s)) + idle_time cpu (idle_since cpu since e) es
      \<le> reported_ns cpu (tick_step thr e s) + (T - M')"
    using Cons.prems(2,3) M'(3) by (intro Cons.IH [OF M'(1)]) auto
  moreover have "probe_ns e \<le> T" using Cons.prems(3) by simp
  ultimately show ?case using M'(2-4) by (simp add: idle_time_Cons)
qed simp

text \<open>C26. Idle time is never reported as a late tick: over any run with a clock that does not go back,
  the intervals reported for a CPU, together with the time its tick was stopped, add up to at most
  the time that passed.\<close>

theorem tick_time_bounded:
  assumes "sorted (map probe_ns es)" and "es \<noteq> []"
    and "r = fold (tick_step thr) es tick_loaded"
  shows "sum_list (map (\<lambda>ev. unat (tick_interval_ns ev)) (filter (\<lambda>ev. st_cpu ev = cpu) (sched_tick_events r))) +
    idle_time cpu None es \<le> probe_ns (last es) - probe_ns (hd es)"
proof -
  obtain e es' where es: "es = e # es'" using assms(2) by (cases es) auto
  have "sorted (map unat (te_now (tick_env_of e) # map (\<lambda>e. te_now (tick_env_of e)) es'))"
    using assms(1) by (simp add: es comp_def)
  from sorted_bounds [OF this] have "\<forall>x \<in> set es. probe_ns (hd es) \<le> probe_ns x \<and> probe_ns x \<le> probe_ns (last es)"
    by (auto simp: es last_map)
  moreover have "tick_mark cpu None (probe_ns (hd es)) tick_loaded" by (simp add: tick_mark_def tick_loaded_def)
  ultimately have "reported_ns cpu r + idle_time cpu None es \<le>
      reported_ns cpu tick_loaded + (probe_ns (last es) - probe_ns (hd es))"
    unfolding assms(3) using assms(1) by (intro tick_run) (auto simp: es)
  then show ?thesis by (simp add: reported_ns_def tick_loaded_def)
qed

section \<open>Rate\<close>

abbreviation "limiter_ns e \<equiv> unat (te_limit_ns (tick_env_of e))"

fun tick_offer :: "u64 \<Rightarrow> u32 \<Rightarrow> tick_probe \<Rightarrow> sched_tick_maps \<Rightarrow> u64 option" where
  "tick_offer thr cpu (Tick env) s =
     (case sched_tick_states s of None \<Rightarrow> None
      | Some states \<Rightarrow>
          if te_cpu env = cpu \<and> tick_stopped (states cpu) = 0 \<and> last_tick_ns (states cpu) \<noteq> 0 \<and>
             thr \<le> te_now env - last_tick_ns (states cpu)
          then Some (te_limit_ns env) else None)"
| "tick_offer thr cpu e s = None"

definition cpu_limiter :: "u32 \<Rightarrow> sched_tick_maps \<Rightarrow> bpf_percpu_ratelimit_state" where
  "cpu_limiter cpu s = (case sched_tick_states s of None \<Rightarrow> \<lparr>pc_window_start_ns = 0, pc_events_in_window = 0\<rparr>
     | Some states \<Rightarrow> report_ratelimit (states cpu))"

definition cpu_reports :: "u32 \<Rightarrow> sched_tick_maps \<Rightarrow> nat" where
  "cpu_reports cpu s = length (filter (\<lambda>ev. st_cpu ev = cpu) (sched_tick_events s))"

lemma cpu_reports_report:
  "cpu_reports cpu (tick_report env d s) \<le> cpu_reports cpu s + (if te_cpu env = cpu then 1 else 0)"
  "te_cpu env \<noteq> cpu \<Longrightarrow> cpu_reports cpu (tick_report env d s) = cpu_reports cpu s"
  by (simp_all add: tick_report_def cpu_reports_def Let_def split: option.split)

lemma cpu_reports_states [simp]: "cpu_reports cpu (s\<lparr>sched_tick_states := x\<rparr>) = cpu_reports cpu s"
  by (simp add: cpu_reports_def)

lemma cpu_limiter_report [simp]: "cpu_limiter cpu (tick_report env d s) = cpu_limiter cpu s"
  by (simp add: cpu_limiter_def)

interpretation ticks: limited_output "percpu_call 1000000000 10"
  "\<lambda>s. 1000000000 \<noteq> (0 :: u64) \<and> pc_window_start_ns s = 0" "unat (1000000000 :: u64)" "unat (10 :: u32)"
  "tick_step thr" "cpu_limiter cpu" "cpu_reports cpu" "tick_offer thr cpu" "\<lambda>e. te_limit_ns (tick_env_of e)" for thr cpu
proof unfold_locales
  fix e s t
  show "t = te_limit_ns (tick_env_of e)" if "tick_offer thr cpu e s = Some t"
    using that by (cases e) (auto split: option.splits if_splits)
  show "cpu_limiter cpu (tick_step thr e s) = cpu_limiter cpu s \<and> cpu_reports cpu (tick_step thr e s) = cpu_reports cpu s"
    if "tick_offer thr cpu e s = None"
    using that
    by (cases e) (auto simp: trace_sched_tick_interval_def trace_sched_tick_stop_def trace_sched_tick_restart_def
        bpf_percpu_ratelimited_Some cpu_reports_report(2) cpu_limiter_def Let_def split: option.splits if_splits)
  show "cpu_limiter cpu (tick_step thr e s) = snd (percpu_call 1000000000 10 (cpu_limiter cpu s) t) \<and>
      cpu_reports cpu (tick_step thr e s) \<le>
        cpu_reports cpu s + (if fst (percpu_call 1000000000 10 (cpu_limiter cpu s) t) then 0 else 1)"
    if "tick_offer thr cpu e s = Some t"
    using that
    by (cases e) (auto simp: trace_sched_tick_interval_def bpf_percpu_ratelimited_Some cpu_limiter_def Let_def
        intro!: le_trans [OF cpu_reports_report(1)] split: option.splits if_splits)
qed

text \<open>C35. A CPU reports at most ten late ticks per second started, whatever the other CPUs do; the
  seconds are those of the limiter's own clock readings.\<close>

theorem tick_rate_bound:
  assumes "sorted (map limiter_ns es)" and "0 \<notin> set (map limiter_ns es)" and "es \<noteq> []"
  shows "length (filter (\<lambda>ev. st_cpu ev = cpu) (sched_tick_events (fold (tick_step thr) es tick_loaded))) \<le>
    10 * ((limiter_ns (last es) - limiter_ns (hd es)) div 1000000000 + 1)"
proof -
  have "cpu_reports cpu tick_loaded = 0" "pc_window_start_ns (cpu_limiter cpu tick_loaded) = 0"
    by (simp_all add: cpu_reports_def cpu_limiter_def tick_loaded_def)
  then show ?thesis
    using ticks.rate_bound [of cpu tick_loaded es thr] assms
    by (auto simp: cpu_reports_def comp_def unat_eq_0 image_iff)
qed

section \<open>Example\<close>

definition demo_tick_env :: "u64 \<Rightarrow> tick_env" where
  "demo_tick_env now =
     \<lparr>te_now = now, te_limit_ns = now + 2, te_cpu = 1, te_pid_tgid = 7, te_comm = Some ''stress'', te_stack = [],
      te_stack_size = 0\<rparr>"

theorem tick_time_bounded_witness:
  "sum_list (map (\<lambda>ev. unat (tick_interval_ns ev)) (filter (\<lambda>ev. st_cpu ev = 1) (sched_tick_events
     (fold (tick_step 500) [Tick (demo_tick_env 100), Tick_stop (demo_tick_env 900) True,
        Tick_restart (demo_tick_env 5000), Tick (demo_tick_env 5600)] tick_loaded)))) \<le> 1400"
  using tick_time_bounded [of "[Tick (demo_tick_env 100), Tick_stop (demo_tick_env 900) True,
      Tick_restart (demo_tick_env 5000), Tick (demo_tick_env 5600)]", OF _ _ refl, of 1 500]
  by (simp add: demo_tick_env_def del: fold.simps fold_simps)

theorem tick_rate_bound_witness:
  "length (filter (\<lambda>ev. st_cpu ev = 1) (sched_tick_events
     (fold (tick_step 500) [Tick (demo_tick_env 100), Tick (demo_tick_env 1100)] tick_loaded))) \<le> 10"
  using tick_rate_bound [of "[Tick (demo_tick_env 100), Tick (demo_tick_env 1100)]" 1 500]
  by (simp add: demo_tick_env_def del: fold.simps fold_simps)

end
