(* ===== verification/Profiler.thy ===== *)
theory Profiler
  imports Bpf_Prelude
begin

text \<open>
  The sampling profilers: \<^verbatim>\<open>bpf/include/bpf_profiler.h\<close> with the layouts of
  \<^verbatim>\<open>abi/profiler_types.h\<close>, and the objects built on it, \<^verbatim>\<open>native_oncpu_profiler.c\<close>,
  \<^verbatim>\<open>native_physical_alloc.c\<close>, \<^verbatim>\<open>native_physical_usage.c\<close> and \<^verbatim>\<open>native_virtual_alloc.c\<close>.

  Every object has two sets of a stack map, an output and a sample counter, and user space
  flips between them with the parity of a transfer counter. The outputs are the lists of the
  events submitted. The per-CPU event buffer is rewritten by every firing before it is
  submitted, so only whether its lookup succeeds is kept. Signed 64-bit values are words,
  read with \<open>sint\<close> where they are compared.
\<close>

section \<open>Shared part\<close>

record profiler_event_base =
  pe_pid_tgid :: u64
  pe_comm :: string
  pe_kernstack :: int
  pe_userstack :: int
  pe_value :: u64

record profiler_oncpu_event =
  oc_base :: profiler_event_base
  oc_kernel_observed_ns :: u64
  oc_cpu :: u32

record profiler_config =
  profiler_filter_css :: u64
  profiler_filter_pid :: u32
  profiler_filter_threads :: bool
  profiler_sampling_prob :: u8
  profiler_idle_class_addr :: u64
  profiler_folio_npages :: bool

text \<open>What a firing obtains from helpers: the current task with the css of the object's
  subsystem, the stack ids in each stack map, a random number, the CPU and the clock.\<close>

record profiler_env =
  en_pid_tgid :: u64
  en_comm :: string
  en_css :: u64
  en_sched_class :: u64
  en_userstack :: "bool \<Rightarrow> int"
  en_kernstack :: "bool \<Rightarrow> int"
  en_random :: u32
  en_cpu :: u32
  en_now :: u64

text \<open>The maps of \<^verbatim>\<open>DEFINE_PROFILER_MAPS\<close>. The state map has the entries 0 (transfers), 1 and 2
  (samples of either set); \<open>True\<close> stands for the A set.\<close>

record 'ev profiler_maps =
  profiler_state_map :: "nat \<rightharpoonup> u64"
  profiler_output :: "bool \<Rightarrow> 'ev list"
  event_buf :: bool

abbreviation (input) "PROFILER_STATE_TRANSFER_CNT_IDX \<equiv> 0 :: nat"
abbreviation (input) "PROFILER_STATE_SAMPLE_CNT_A_IDX \<equiv> 1 :: nat"
abbreviation (input) "PROFILER_STATE_SAMPLE_CNT_B_IDX \<equiv> 2 :: nat"

definition profiler_should_trace :: "profiler_config \<Rightarrow> u64 \<Rightarrow> u64 \<Rightarrow> bool" where
  "profiler_should_trace cfg pid_tgid css =
     (let tgid = ucast (drop_bit 32 pid_tgid) :: u32; pid = ucast (pid_tgid AND 0xffffffff) :: u32
      in if profiler_filter_css cfg \<noteq> 0 \<and> css \<noteq> profiler_filter_css cfg then False
         else if profiler_filter_pid cfg = 0 then True
         else if profiler_filter_threads cfg then tgid = profiler_filter_pid cfg
         else pid = profiler_filter_pid cfg)"

definition profiler_should_sample :: "profiler_config \<Rightarrow> u32 \<Rightarrow> bool" where
  "profiler_should_sample cfg random =
     (if 100 \<le> profiler_sampling_prob cfg then True
      else random mod 100 < ucast (profiler_sampling_prob cfg))"

text \<open>The filled event, \<open>None\<close> for the result -1. The value field is the caller's.\<close>

definition profiler_fill_event_base ::
  "profiler_env \<Rightarrow> u64 \<Rightarrow> bool \<Rightarrow> u64 \<Rightarrow> profiler_event_base option" where
  "profiler_fill_event_base env pid_tgid stack_map v =
     (if en_userstack env stack_map < 0 \<and> en_kernstack env stack_map < 0 then None
      else Some \<lparr>pe_pid_tgid = pid_tgid, pe_comm = en_comm env,
                 pe_kernstack = en_kernstack env stack_map,
                 pe_userstack = en_userstack env stack_map, pe_value = v\<rparr>)"

definition profiler_copy_event_base ::
  "profiler_event_base \<Rightarrow> profiler_event_base \<Rightarrow> profiler_event_base" where
  "profiler_copy_event_base dst src =
     dst\<lparr>pe_pid_tgid := pe_pid_tgid src, pe_kernstack := pe_kernstack src,
         pe_userstack := pe_userstack src, pe_comm := pe_comm src\<rparr>"

definition zero_event_base :: profiler_event_base where
  "zero_event_base = \<lparr>pe_pid_tgid = 0, pe_comm = '''', pe_kernstack = 0, pe_userstack = 0, pe_value = 0\<rparr>"

definition profiler_prepare_event_base ::
  "profiler_env \<Rightarrow> u64 \<Rightarrow> bool \<Rightarrow> ('ev, 'z) profiler_maps_scheme \<Rightarrow> profiler_event_base option" where
  "profiler_prepare_event_base env pid_tgid stack_map s =
     (if \<not> event_buf s then None
      else profiler_fill_event_base env pid_tgid stack_map (pe_value zero_event_base))"

definition sample_count_idx :: "bool \<Rightarrow> nat" where
  "sample_count_idx a = (if a then PROFILER_STATE_SAMPLE_CNT_A_IDX else PROFILER_STATE_SAMPLE_CNT_B_IDX)"

definition profiler_emit_event :: "bool \<Rightarrow> 'ev \<Rightarrow> ('ev, 'z) profiler_maps_scheme \<Rightarrow> ('ev, 'z) profiler_maps_scheme" where
  "profiler_emit_event a event s =
     s\<lparr>profiler_state_map := (profiler_state_map s)(sample_count_idx a :=
         map_option (\<lambda>n. n + 1) (profiler_state_map s (sample_count_idx a))),
       profiler_output := (profiler_output s)(a := profiler_output s a @ [event])\<rparr>"

definition SELECT_PROFILER_AB :: "u64 \<Rightarrow> bool" where
  "SELECT_PROFILER_AB transfer_count = (transfer_count AND 1 = 0)"

text \<open>The transfer counter, \<open>None\<close> if one of the three lookups fails.\<close>

definition profiler_init_state :: "('ev, 'z) profiler_maps_scheme \<Rightarrow> u64 option" where
  "profiler_init_state s =
     (case profiler_state_map s PROFILER_STATE_TRANSFER_CNT_IDX of None \<Rightarrow> None
      | Some transfers \<Rightarrow>
          if profiler_state_map s PROFILER_STATE_SAMPLE_CNT_A_IDX = None \<or>
             profiler_state_map s PROFILER_STATE_SAMPLE_CNT_B_IDX = None
          then None else Some transfers)"

section \<open>On-CPU profiler\<close>

definition perf_event_sw_cpu_clock ::
  "profiler_config \<Rightarrow> profiler_env \<Rightarrow> profiler_oncpu_event profiler_maps \<Rightarrow>
     profiler_oncpu_event profiler_maps" where
  "perf_event_sw_cpu_clock cfg env s =
     (case profiler_init_state s of None \<Rightarrow> s
      | Some transfers \<Rightarrow>
          let pid_tgid = en_pid_tgid env;
              tgid = ucast (drop_bit 32 pid_tgid) :: u32;
              pid = ucast (pid_tgid AND 0xffffffff) :: u32
          in if \<not> profiler_should_trace cfg pid_tgid (en_css env) \<or>
                (profiler_idle_class_addr cfg \<noteq> 0 \<and> en_sched_class env = profiler_idle_class_addr cfg) \<or>
                (tgid = 0 \<and> pid = 0)
             then s
             else if \<not> event_buf s then s
             else
               let a = SELECT_PROFILER_AB transfers
               in case profiler_fill_event_base env pid_tgid a 1 of None \<Rightarrow> s
                  | Some base \<Rightarrow>
                      profiler_emit_event a
                        \<lparr>oc_base = base, oc_kernel_observed_ns = en_now env, oc_cpu = en_cpu env\<rparr> s)"

section \<open>Memory profilers\<close>

text \<open>The fields of a folio that the running kernel may have.\<close>

record folio_kernel =
  folio_flags :: "u64 \<Rightarrow> u64 option"
  has_nr_pages :: bool
  folio__nr_pages :: "u64 \<Rightarrow> u32 option"
  has_folio_nr_pages :: bool
  folio__folio_nr_pages :: "u64 \<Rightarrow> u32 option"
  has_flags_1 :: bool
  folio__flags_1 :: "u64 \<Rightarrow> u64 option"

definition profiler_folio_nr_pages :: "folio_kernel \<Rightarrow> u64 \<Rightarrow> u64" where
  "profiler_folio_nr_pages K folio =
     (case folio_flags K folio of None \<Rightarrow> 0
      | Some flags \<Rightarrow>
          if flags AND push_bit 6 1 = 0 then 1
          else if has_nr_pages K then ucast (core_read (folio__nr_pages K) folio)
          else if has_folio_nr_pages K then ucast (core_read (folio__folio_nr_pages K) folio)
          else if \<not> has_flags_1 K then 0
          else push_bit (unat (core_read (folio__flags_1 K) folio AND 0xff)) 1)"

text \<open>The css of the current task is read only under a css filter.\<close>

definition filtered_css :: "profiler_config \<Rightarrow> profiler_env \<Rightarrow> u64" where
  "filtered_css cfg env = (if profiler_filter_css cfg \<noteq> 0 then en_css env else 0)"

definition trace_page_alloc ::
  "profiler_config \<Rightarrow> folio_kernel \<Rightarrow> profiler_env \<Rightarrow> u64 \<Rightarrow> profiler_event_base profiler_maps \<Rightarrow>
     profiler_event_base profiler_maps" where
  "trace_page_alloc cfg K env page s =
     (case profiler_init_state s of None \<Rightarrow> s
      | Some transfers \<Rightarrow>
          if \<not> profiler_should_trace cfg (en_pid_tgid env) (filtered_css cfg env) then s
          else if \<not> profiler_should_sample cfg (en_random env) then s
          else
            let a = SELECT_PROFILER_AB transfers
            in case profiler_prepare_event_base env (en_pid_tgid env) a s of None \<Rightarrow> s
               | Some event \<Rightarrow>
                   let v = (if profiler_folio_npages cfg then profiler_folio_nr_pages K page else 1)
                   in if profiler_folio_npages cfg \<and> sint v \<le> 0 then s
                      else profiler_emit_event a (event\<lparr>pe_value := v\<rparr>) s)"

definition trace_mmap ::
  "profiler_config \<Rightarrow> profiler_env \<Rightarrow> u64 \<Rightarrow> u64 \<Rightarrow> profiler_event_base profiler_maps \<Rightarrow>
     profiler_event_base profiler_maps" where
  "trace_mmap cfg env file len s =
     (case profiler_init_state s of None \<Rightarrow> s
      | Some transfers \<Rightarrow>
          if \<not> profiler_should_trace cfg (en_pid_tgid env) (filtered_css cfg env) then s
          else if file \<noteq> 0 then s
          else
            let a = SELECT_PROFILER_AB transfers
            in case profiler_prepare_event_base env (en_pid_tgid env) a s of None \<Rightarrow> s
               | Some event \<Rightarrow> profiler_emit_event a (event\<lparr>pe_value := len\<rparr>) s)"

subsection \<open>Physical memory usage\<close>

record usage_maps = "profiler_event_base profiler_maps" +
  page_to_stackid :: "u64 \<rightharpoonup> profiler_event_base"

definition usage_trace_page_alloc ::
  "profiler_config \<Rightarrow> folio_kernel \<Rightarrow> profiler_env \<Rightarrow> map_fault \<Rightarrow> u64 \<Rightarrow> usage_maps \<Rightarrow> usage_maps" where
  "usage_trace_page_alloc cfg K env f page s =
     (case profiler_init_state s of None \<Rightarrow> s
      | Some transfers \<Rightarrow>
          if \<not> profiler_should_trace cfg (en_pid_tgid env) (filtered_css cfg env) then s
          else if \<not> profiler_should_sample cfg (en_random env) then s
          else
            let a = SELECT_PROFILER_AB transfers
            in case profiler_prepare_event_base env (en_pid_tgid env) a s of None \<Rightarrow> s
               | Some event \<Rightarrow>
                   let v = (if profiler_folio_npages cfg then profiler_folio_nr_pages K page else 1);
                       event = event\<lparr>pe_value := v\<rparr>
                   in if profiler_folio_npages cfg \<and> sint v \<le> 0 then s
                      else profiler_emit_event a event
                        (s\<lparr>page_to_stackid := snd (bpf_map_update_elem f BPF_ANY page event (page_to_stackid s))\<rparr>))"

text \<open>The third argument of the probed function is read as a signed 32-bit page count.\<close>

definition usage_trace_page_free ::
  "profiler_config \<Rightarrow> profiler_env \<Rightarrow> map_fault \<Rightarrow> u64 \<Rightarrow> u64 \<Rightarrow> usage_maps \<Rightarrow> usage_maps" where
  "usage_trace_page_free cfg env f page parm3 s =
     (case profiler_init_state s of None \<Rightarrow> s
      | Some transfers \<Rightarrow>
          if \<not> profiler_should_trace cfg (en_pid_tgid env) (filtered_css cfg env) then s
          else case page_to_stackid s page of None \<Rightarrow> s
          | Some stack_info \<Rightarrow>
              if \<not> event_buf s then s
              else
                let event = profiler_copy_event_base zero_event_base stack_info;
                    nr_pages = word_of_int (sint (ucast parm3 :: u32)) :: u64;
                    remaining_pages = pe_value stack_info - nr_pages;
                    (v, pages) =
                      (if profiler_folio_npages cfg
                       then
                         (- nr_pages,
                          if remaining_pages = 0
                          then snd (bpf_map_delete_elem f page (page_to_stackid s))
                          else snd (bpf_map_update_elem f BPF_ANY page
                                      (event\<lparr>pe_value := remaining_pages\<rparr>) (page_to_stackid s)))
                       else (- 1, snd (bpf_map_delete_elem f page (page_to_stackid s))))
                in profiler_emit_event (SELECT_PROFILER_AB transfers) (event\<lparr>pe_value := v\<rparr>)
                     (s\<lparr>page_to_stackid := pages\<rparr>))"

datatype usage_event =
    Page_alloc folio_kernel profiler_env map_fault u64
  | Page_free profiler_env map_fault u64 u64

fun usage_step :: "profiler_config \<Rightarrow> usage_event \<Rightarrow> usage_maps \<Rightarrow> usage_maps" where
  "usage_step cfg (Page_alloc K env f page) s = usage_trace_page_alloc cfg K env f page s"
| "usage_step cfg (Page_free env f page parm3) s = usage_trace_page_free cfg env f page parm3 s"

section \<open>The active set\<close>

text \<open>\<open>emits a evs s s'\<close>: the set \<open>a\<close> received the events \<open>evs\<close> and its sample counter
  advanced by their number; nothing else of the two sets changed. \<open>writes_active s s'\<close>: only the
  set selected by the transfer counter was written.\<close>

definition emits ::
  "bool \<Rightarrow> 'ev list \<Rightarrow> ('ev, 'z) profiler_maps_scheme \<Rightarrow> ('ev, 'z) profiler_maps_scheme \<Rightarrow> bool" where
  "emits a evs s s' \<longleftrightarrow>
     profiler_output s' = (profiler_output s)(a := profiler_output s a @ evs) \<and>
     profiler_state_map s' = (profiler_state_map s)(sample_count_idx a :=
       map_option (\<lambda>n. n + of_nat (length evs)) (profiler_state_map s (sample_count_idx a)))"

definition writes_active ::
  "('ev, 'z) profiler_maps_scheme \<Rightarrow> ('ev, 'z) profiler_maps_scheme \<Rightarrow> bool" where
  "writes_active s s' \<longleftrightarrow>
     (case profiler_init_state s of
        None \<Rightarrow> profiler_state_map s' = profiler_state_map s \<and> profiler_output s' = profiler_output s
      | Some transfers \<Rightarrow> \<exists>evs. emits (SELECT_PROFILER_AB transfers) evs s s')"

lemma init_state_same:
  "profiler_state_map s' = profiler_state_map s \<Longrightarrow> profiler_init_state s' = profiler_init_state s"
  unfolding profiler_init_state_def by (simp split: option.split)

lemma emits_init:
  assumes "emits a evs s s'" shows "profiler_init_state s' = profiler_init_state s"
proof -
  have "sample_count_idx a = 1 \<or> sample_count_idx a = 2" by (simp add: sample_count_idx_def)
  then show ?thesis using assms by (auto simp: emits_def profiler_init_state_def split: option.split)
qed

lemma emits_nil [simp]: "emits a [] s s"
  by (simp add: emits_def option.map_ident)

lemma emits_append: "emits a xs s t \<Longrightarrow> emits a ys t u \<Longrightarrow> emits a (xs @ ys) s u"
  by (simp add: emits_def option.map_comp comp_def add.assoc)

lemma writes_active_refl [simp]: "writes_active s s"
proof (cases "profiler_init_state s")
  case (Some t)
  have "emits (SELECT_PROFILER_AB t) [] s s" by simp
  then show ?thesis using Some unfolding writes_active_def by (simp only: option.case) (rule exI)
qed (simp add: writes_active_def)

lemma writes_active_init:
  assumes "writes_active s s'" shows "profiler_init_state s' = profiler_init_state s"
proof (cases "profiler_init_state s")
  case None
  with assms have "profiler_state_map s' = profiler_state_map s" by (simp add: writes_active_def)
  then show ?thesis by (rule init_state_same)
next
  case (Some t)
  with assms obtain evs where "emits (SELECT_PROFILER_AB t) evs s s'" by (auto simp: writes_active_def)
  then show ?thesis by (rule emits_init)
qed

lemma writes_active_trans:
  assumes ab: "writes_active a b" and bc: "writes_active b c"
  shows "writes_active a c"
proof (cases "profiler_init_state a")
  case None
  then show ?thesis using ab bc writes_active_init [OF ab] by (simp add: writes_active_def)
next
  case (Some t)
  then obtain xs ys where "emits (SELECT_PROFILER_AB t) xs a b" "emits (SELECT_PROFILER_AB t) ys b c"
    using ab bc writes_active_init [OF ab] by (auto simp: writes_active_def)
  then have "emits (SELECT_PROFILER_AB t) (xs @ ys) a c" by (rule emits_append)
  then show ?thesis using Some by (auto simp: writes_active_def)
qed

lemma writes_active_emit:
  assumes "profiler_init_state s = Some t" "profiler_state_map s1 = profiler_state_map s"
    "profiler_output s1 = profiler_output s"
  shows "writes_active s (profiler_emit_event (SELECT_PROFILER_AB t) ev s1)"
proof -
  have "emits (SELECT_PROFILER_AB t) [ev] s (profiler_emit_event (SELECT_PROFILER_AB t) ev s1)"
    using assms by (simp add: emits_def profiler_emit_event_def)
  then show ?thesis using assms(1) by (auto simp: writes_active_def)
qed

text \<open>A probe of a double-buffered profiler.\<close>

locale double_buffer =
  fixes probe :: "'e \<Rightarrow> ('ev, 'z) profiler_maps_scheme \<Rightarrow> ('ev, 'z) profiler_maps_scheme"
  assumes probe_active: "writes_active s (probe e s)"
begin

lemma run_active: "writes_active s (fold probe es s)"
proof (induction es arbitrary: s)
  case (Cons e es)
  show ?case using writes_active_trans [OF probe_active Cons.IH, of s e] by simp
qed simp

lemma run_transfers: "profiler_init_state (fold probe es s) = profiler_init_state s"
  by (rule writes_active_init [OF run_active])

lemma run_emits:
  assumes "profiler_init_state s = Some t"
  obtains evs where "emits (SELECT_PROFILER_AB t) evs s (fold probe es s)"
  using run_active [of s es] assms by (auto simp: writes_active_def)

lemma run_inactive:
  assumes "profiler_init_state s = Some t" "a \<noteq> SELECT_PROFILER_AB t"
  shows "profiler_output (fold probe es s) a = profiler_output s a \<and>
    profiler_state_map (fold probe es s) (sample_count_idx a) = profiler_state_map s (sample_count_idx a)"
proof -
  obtain evs where "emits (SELECT_PROFILER_AB t) evs s (fold probe es s)" by (rule run_emits [OF assms(1)])
  then show ?thesis using assms(2) by (auto simp: emits_def sample_count_idx_def)
qed

lemma run_active_count:
  assumes "profiler_init_state s = Some t"
    and "profiler_state_map s (sample_count_idx (SELECT_PROFILER_AB t)) = Some n"
  shows "\<exists>evs. profiler_output (fold probe es s) (SELECT_PROFILER_AB t) =
      profiler_output s (SELECT_PROFILER_AB t) @ evs \<and>
    profiler_state_map (fold probe es s) (sample_count_idx (SELECT_PROFILER_AB t)) = Some (n + of_nat (length evs))"
proof -
  obtain evs where "emits (SELECT_PROFILER_AB t) evs s (fold probe es s)" by (rule run_emits [OF assms(1)])
  then show ?thesis using assms(2) by (auto simp: emits_def)
qed

end

interpretation oncpu: double_buffer "perf_event_sw_cpu_clock cfg"
  by unfold_locales
    (auto simp: perf_event_sw_cpu_clock_def Let_def writes_active_emit split: option.split)

interpretation palloc: double_buffer "\<lambda>(K, env, page). trace_page_alloc cfg K env page"
  by unfold_locales
    (auto simp: trace_page_alloc_def Let_def writes_active_emit split: option.split prod.split)

interpretation valloc: double_buffer "\<lambda>(env, file, len). trace_mmap cfg env file len"
  by unfold_locales
    (auto simp: trace_mmap_def Let_def writes_active_emit split: option.split prod.split)

lemma usage_emit_active:
  "profiler_init_state s = Some t \<Longrightarrow>
   writes_active s (profiler_emit_event (SELECT_PROFILER_AB t) ev (s\<lparr>page_to_stackid := m\<rparr>))"
  by (rule writes_active_emit) simp_all

lemma usage_free_active: "writes_active s (usage_trace_page_free cfg env f page parm3 s)"
  unfolding usage_trace_page_free_def Let_def case_prod_beta
  by (auto simp only: usage_emit_active writes_active_refl split: option.split if_split)

lemma usage_alloc_active: "writes_active s (usage_trace_page_alloc cfg K env f page s)"
  unfolding usage_trace_page_alloc_def Let_def
  by (auto simp only: usage_emit_active writes_active_refl split: option.split if_split)

interpretation pusage: double_buffer "usage_step cfg"
proof
  show "writes_active s (usage_step cfg e s)" for e s
    by (cases e) (simp_all add: usage_free_active usage_alloc_active)
qed

text \<open>The two buffer sets never mix: however many page allocations and releases fire while
  the transfer counter stands still, the set not selected by its parity keeps its output and
  its sample counter, so user space can drain it, and the counter of the selected set advances
  by exactly the events submitted to it.\<close>

theorem inactive_set_quiet:
  assumes "profiler_init_state s = Some t" and "s' = fold (usage_step cfg) es s"
    and "profiler_state_map s (sample_count_idx (SELECT_PROFILER_AB t)) = Some n"
  shows "profiler_output s' (\<not> SELECT_PROFILER_AB t) = profiler_output s (\<not> SELECT_PROFILER_AB t) \<and>
    profiler_state_map s' (sample_count_idx (\<not> SELECT_PROFILER_AB t)) =
      profiler_state_map s (sample_count_idx (\<not> SELECT_PROFILER_AB t)) \<and>
    profiler_init_state s' = Some t \<and>
    (\<exists>evs. profiler_output s' (SELECT_PROFILER_AB t) = profiler_output s (SELECT_PROFILER_AB t) @ evs \<and>
       profiler_state_map s' (sample_count_idx (SELECT_PROFILER_AB t)) = Some (n + of_nat (length evs)))"
  using pusage.run_inactive [OF assms(1), of "\<not> SELECT_PROFILER_AB t" cfg es]
    pusage.run_active_count [OF assms(1,3), of cfg es] pusage.run_transfers [of cfg es s] assms(1,2)
  by auto

section \<open>Page balance\<close>

text \<open>What has been reported in both outputs, and what is still tracked, modulo \<open>2^64\<close>.\<close>

definition reported :: "('z) usage_maps_scheme \<Rightarrow> u64" where
  "reported s = sum_list (map pe_value (profiler_output s True @ profiler_output s False))"

definition tracked :: "(u64 \<rightharpoonup> profiler_event_base) \<Rightarrow> u64" where
  "tracked m = (\<Sum>p \<in> dom m. pe_value (the (m p)))"

lemma tracked_insert: "finite (dom m) \<Longrightarrow> m p = None \<Longrightarrow> tracked (m(p \<mapsto> e)) = tracked m + pe_value e"
  unfolding tracked_def
  by (subst sum.cong [OF refl, of "dom m" "\<lambda>q. pe_value (the (m q))" "\<lambda>q. pe_value (the ((m(p \<mapsto> e)) q))"])
    (auto simp: domIff algebra_simps)

lemma tracked_delete:
  assumes "finite (dom m)" "m p = Some e"
  shows "tracked (m(p := None)) = tracked m - pe_value e"
proof -
  have "tracked m = tracked ((m(p := None))(p \<mapsto> e))"
    using assms(2) by (simp add: map_upd_triv)
  also have "\<dots> = tracked (m(p := None)) + pe_value e"
    using assms(1) by (intro tracked_insert) simp_all
  finally show ?thesis by simp
qed

lemma tracked_update:
  assumes "finite (dom m)" "m p = Some e"
  shows "tracked (m(p \<mapsto> e')) = tracked m - pe_value e + pe_value e'"
proof -
  have "tracked (m(p \<mapsto> e')) = tracked ((m(p := None))(p \<mapsto> e'))" by simp
  also have "\<dots> = tracked (m(p := None)) + pe_value e'"
    using assms(1) by (intro tracked_insert) simp_all
  finally show ?thesis by (simp add: tracked_delete [OF assms])
qed

lemma reported_emit: "reported (profiler_emit_event a ev s) = reported s + pe_value ev"
  by (cases a) (simp_all add: reported_def profiler_emit_event_def)

text \<open>A firing whose map writes succeed and, for an allocation, whose page is not tracked yet.\<close>

fun clean_event :: "usage_event \<Rightarrow> usage_maps \<Rightarrow> bool" where
  "clean_event (Page_alloc K env f page) s \<longleftrightarrow> f = Fault_none \<and> page_to_stackid s page = None"
| "clean_event (Page_free env f page parm3) s \<longleftrightarrow> f = Fault_none"

fun clean_run :: "profiler_config \<Rightarrow> usage_event list \<Rightarrow> usage_maps \<Rightarrow> bool" where
  "clean_run cfg [] s \<longleftrightarrow> True"
| "clean_run cfg (e # es) s \<longleftrightarrow> clean_event e s \<and> clean_run cfg es (usage_step cfg e s)"

definition balance :: "usage_maps \<Rightarrow> u64" where
  "balance s = reported s - tracked (page_to_stackid s)"

definition balanced_step :: "usage_maps \<Rightarrow> usage_maps \<Rightarrow> bool" where
  "balanced_step s s' \<longleftrightarrow> finite (dom (page_to_stackid s')) \<and> balance s' = balance s"

lemma page_emit [simp]: "page_to_stackid (profiler_emit_event a ev s) = page_to_stackid s"
  by (simp add: profiler_emit_event_def)

lemma reported_pages [simp]: "reported (s\<lparr>page_to_stackid := m\<rparr>) = reported s"
  by (simp add: reported_def)

lemma alloc_balanced:
  assumes "finite (dom (page_to_stackid s))" "page_to_stackid s page = None"
  shows "balanced_step s (usage_trace_page_alloc cfg K env Fault_none page s)"
  using assms unfolding usage_trace_page_alloc_def Let_def
  by (auto simp: balanced_step_def balance_def reported_emit tracked_insert split: option.split)

lemma free_balanced:
  assumes "finite (dom (page_to_stackid s))"
    and whole: "profiler_folio_npages cfg \<or> (\<forall>p e. page_to_stackid s p = Some e \<longrightarrow> pe_value e = 1)"
  shows "balanced_step s (usage_trace_page_free cfg env Fault_none page parm3 s)"
proof (cases "page_to_stackid s page")
  case (Some e)
  show ?thesis
    using assms Some unfolding usage_trace_page_free_def Let_def case_prod_beta
    by (auto simp: balanced_step_def balance_def reported_emit tracked_delete tracked_update split: option.split)
qed (use assms in \<open>auto simp: usage_trace_page_free_def balanced_step_def split: option.split\<close>)

text \<open>Without folio counts every tracked page counts as one.\<close>

definition unit_values :: "(u64 \<rightharpoonup> profiler_event_base) \<Rightarrow> bool" where
  "unit_values m \<longleftrightarrow> (\<forall>p e. m p = Some e \<longrightarrow> pe_value e = 1)"

definition unit_pages :: "profiler_config \<Rightarrow> usage_maps \<Rightarrow> bool" where
  "unit_pages cfg s \<longleftrightarrow> profiler_folio_npages cfg \<or> unit_values (page_to_stackid s)"

lemma unit_values_update:
  "unit_values m \<Longrightarrow> pe_value v = 1 \<Longrightarrow> unit_values (snd (bpf_map_update_elem f BPF_ANY p v m))"
  unfolding unit_values_def using bmap.update_range by metis

lemma unit_values_delete: "unit_values m \<Longrightarrow> unit_values (snd (bpf_map_delete_elem f p m))"
  unfolding unit_values_def using bmap.delete_le by metis

lemma unit_pages_step:
  assumes "unit_pages cfg s" shows "unit_pages cfg (usage_step cfg e s)"
proof (cases "profiler_folio_npages cfg")
  case False
  then have "unit_values (page_to_stackid s)" using assms by (simp add: unit_pages_def)
  then have "unit_values (page_to_stackid (usage_step cfg e s))"
    using False
    by (cases e) (simp_all add: usage_trace_page_alloc_def usage_trace_page_free_def Let_def
        unit_values_update unit_values_delete split: option.split)
  then show ?thesis by (simp add: unit_pages_def)
qed (simp add: unit_pages_def)

lemma step_balanced:
  assumes "finite (dom (page_to_stackid s))" "clean_event e s" "unit_pages cfg s"
  shows "balanced_step s (usage_step cfg e s)"
  using assms
proof (cases e)
  case (Page_free env f page parm3)
  have "profiler_folio_npages cfg \<or> (\<forall>p e. page_to_stackid s p = Some e \<longrightarrow> pe_value e = 1)"
    using assms(3) by (simp add: unit_pages_def unit_values_def)
  then show ?thesis using assms(1,2) free_balanced Page_free by simp
qed (use alloc_balanced in simp)

text \<open>C17. Physical memory is neither lost nor invented: in every run whose map writes succeed and
  whose allocations hit untracked pages, what both outputs report in total minus what is still
  tracked never changes, modulo 2^64, also when a large folio is unmapped in several batches.
  Once every page is released, allocations and releases cancel out.\<close>

theorem usage_balanced:
  assumes "finite (dom (page_to_stackid s))" and "clean_run cfg es s" and "unit_pages cfg s"
  shows "balance (fold (usage_step cfg) es s) = balance s"
  using assms
proof (induction es arbitrary: s)
  case (Cons e es)
  have "balanced_step s (usage_step cfg e s)" using Cons.prems by (intro step_balanced) simp_all
  then show ?case
    using Cons.IH [of "usage_step cfg e s"] Cons.prems unit_pages_step [of cfg s e]
    by (simp add: balanced_step_def)
qed simp

definition demo_profiler_config :: profiler_config where
  "demo_profiler_config = \<lparr>profiler_filter_css = 0, profiler_filter_pid = 0, profiler_filter_threads = False,
     profiler_sampling_prob = 100, profiler_idle_class_addr = 0, profiler_folio_npages = True\<rparr>"

definition demo_env :: profiler_env where
  "demo_env = \<lparr>en_pid_tgid = 7, en_comm = ''app'', en_css = 0, en_sched_class = 0, en_userstack = \<lambda>_. 1,
     en_kernstack = \<lambda>_. 2, en_random = 0, en_cpu = 0, en_now = 5\<rparr>"

definition demo_folio :: folio_kernel where
  "demo_folio = \<lparr>folio_flags = [9 \<mapsto> 64], has_nr_pages = True, folio__nr_pages = [9 \<mapsto> 4],
     has_folio_nr_pages = False, folio__folio_nr_pages = Map.empty, has_flags_1 = False,
     folio__flags_1 = Map.empty\<rparr>"

definition demo_usage :: usage_maps where
  "demo_usage = \<lparr>profiler_state_map = [0 \<mapsto> 0, 1 \<mapsto> 0, 2 \<mapsto> 0], profiler_output = \<lambda>_. [], event_buf = True,
     page_to_stackid = Map.empty\<rparr>"

text \<open>A folio of four pages, unmapped in batches of one and three.\<close>

definition demo_events :: "usage_event list" where
  "demo_events = [Page_alloc demo_folio demo_env Fault_none 9, Page_free demo_env Fault_none 9 1,
     Page_free demo_env Fault_none 9 3]"

lemma demo_usage_clean:
  "clean_run demo_profiler_config demo_events demo_usage"
  "page_to_stackid (fold (usage_step demo_profiler_config) demo_events demo_usage) = Map.empty"
  by (simp_all add: demo_events_def demo_usage_def demo_env_def demo_folio_def demo_profiler_config_def
      usage_trace_page_alloc_def usage_trace_page_free_def profiler_init_state_def profiler_should_trace_def
      profiler_should_sample_def profiler_prepare_event_base_def profiler_fill_event_base_def
      profiler_folio_nr_pages_def profiler_copy_event_base_def zero_event_base_def filtered_css_def
      profiler_emit_event_def SELECT_PROFILER_AB_def sample_count_idx_def core_read_def Let_def)

theorem usage_balanced_witness:
  "reported (fold (usage_step demo_profiler_config) demo_events demo_usage) = 0"
proof -
  have "balance (fold (usage_step demo_profiler_config) demo_events demo_usage) = balance demo_usage"
    by (rule usage_balanced [OF _ demo_usage_clean(1)])
      (simp_all add: demo_usage_def unit_pages_def demo_profiler_config_def)
  then show ?thesis
    by (simp add: balance_def demo_usage_clean(2) tracked_def) (simp add: demo_usage_def reported_def)
qed

end
