(* ===== verification/Bpf_Sched.thy ===== *)
theory Bpf_Sched
  imports Bpf_Prelude
begin

text \<open>
  What the scheduler probes read of a task: \<^verbatim>\<open>bpf/include/bpf_sched.h\<close> over a record of the
  fields of \<^verbatim>\<open>task_struct\<close>. The boolean is the answer of \<^verbatim>\<open>bpf_core_field_exists\<close> for the
  older name of the state field, a long; the newer one is an unsigned int.
\<close>

record task_kernel =
  has_state :: bool
  tk_state :: "u64 \<Rightarrow> int option"
  tk___state :: "u64 \<Rightarrow> u32 option"
  tk_pid :: "u64 \<Rightarrow> u32 option"
  tk_sched_task_group :: "u64 \<Rightarrow> u64 option"

abbreviation (input) "TASK_RUNNING \<equiv> 0 :: int"

definition sched_task_state :: "'a task_kernel_scheme \<Rightarrow> u64 \<Rightarrow> int" where
  "sched_task_state K task =
     (if task = 0 then - 1
      else if has_state K then core_read (tk_state K) task
      else uint (core_read (tk___state K) task))"

end
