(* ===== verification/Offcpu.thy ===== *)
theory Offcpu
  imports Profiler Bpf_Sched
begin

text \<open>
  \<^verbatim>\<open>bpf/native_offcpu_profiler.c\<close>: the time tasks spend blocked and waiting for a CPU. A task
  that leaves its CPU gets a state, a wakeup turns a blocked state into a run queue state,
  and the switch back in ends it. The output is the list of submissions with the result of
  the helper; the per-CPU event buffer only matters through its lookup, as in \<open>Profiler\<close>.
\<close>

section \<open>Model\<close>

datatype profiler_offcpu_event_kind =
    PROFILER_OFFCPU_EVENT_UNKNOWN
  | PROFILER_OFFCPU_EVENT_BLOCKED
  | PROFILER_OFFCPU_EVENT_RUNQUEUE
  | PROFILER_OFFCPU_EVENT_RUNQUEUE_PREEMPTED
  | PROFILER_OFFCPU_EVENT_RUNQUEUE_YIELDED
  | PROFILER_OFFCPU_EVENT_RUNQUEUE_MISSED_WAKEUP

datatype profiler_offcpu_stat =
    PROFILER_OFFCPU_STAT_STACK_FAILURE
  | PROFILER_OFFCPU_STAT_STATE_UPDATE_FAILURE
  | PROFILER_OFFCPU_STAT_OUTPUT_FAILURE
  | PROFILER_OFFCPU_STAT_MISSED_WAKEUP
  | PROFILER_OFFCPU_STAT_STATE_CLEANUP

datatype offcpu_phase_filter =
    OFFCPU_PHASE_FILTER_ALL
  | OFFCPU_PHASE_FILTER_BLOCKED
  | OFFCPU_PHASE_FILTER_RUNQUEUE

record profiler_offcpu_event =
  oe_base :: profiler_event_base
  oe_kind :: profiler_offcpu_event_kind

record offcpu_state =
  os_base :: profiler_event_base
  os_phase_start_ns :: u64
  os_kind :: profiler_offcpu_event_kind

record offcpu_config =
  profiler_offcpu_phase :: offcpu_phase_filter
  profiler_offcpu_min_duration_ns :: u64
  profiler_offcpu_cpu_set_enabled :: bool
  profiler_offcpu_stats_enabled :: bool
  offcpu_profiler :: profiler_config

record offcpu_maps =
  offcpu_states :: "u64 \<rightharpoonup> offcpu_state"
  offcpu_cpu_set :: "u32 \<rightharpoonup> u64"
  offcpu_event_buf :: bool
  offcpu_stats :: "profiler_offcpu_stat \<rightharpoonup> (u32 \<Rightarrow> u64)"
  offcpu_output :: "(profiler_offcpu_event \<times> int) list"

text \<open>A firing adds the result of the perf helper and the failure of its map write to the
  helper results of \<open>profiler_env\<close>.\<close>

record offcpu_env = profiler_env +
  en_output :: int
  en_fault :: map_fault

abbreviation (input) "OFFCPU_CPU_SET_WORD_BITS \<equiv> 64 :: u32"
abbreviation (input) "OFFCPU_CPU_SET_WORDS \<equiv> 128 :: u32"

definition offcpu_stat_inc ::
  "offcpu_config \<Rightarrow> u32 \<Rightarrow> profiler_offcpu_stat \<Rightarrow> offcpu_maps \<Rightarrow> offcpu_maps" where
  "offcpu_stat_inc cfg cpu stat s =
     (if \<not> profiler_offcpu_stats_enabled cfg then s
      else s\<lparr>offcpu_stats := (offcpu_stats s)(stat :=
               map_option (\<lambda>c. c(cpu := c cpu + 1)) (offcpu_stats s stat))\<rparr>)"

definition offcpu_kind_enabled :: "offcpu_config \<Rightarrow> profiler_offcpu_event_kind \<Rightarrow> bool" where
  "offcpu_kind_enabled cfg kind =
     (if profiler_offcpu_phase cfg = OFFCPU_PHASE_FILTER_ALL then True
      else if profiler_offcpu_phase cfg = OFFCPU_PHASE_FILTER_BLOCKED
      then kind = PROFILER_OFFCPU_EVENT_BLOCKED
      else kind \<noteq> PROFILER_OFFCPU_EVENT_BLOCKED)"

definition offcpu_cpu_selected :: "offcpu_config \<Rightarrow> u32 \<Rightarrow> offcpu_maps \<Rightarrow> bool" where
  "offcpu_cpu_selected cfg cpu s =
     (if \<not> profiler_offcpu_cpu_set_enabled cfg then True
      else
        let word = cpu div OFFCPU_CPU_SET_WORD_BITS
        in if OFFCPU_CPU_SET_WORDS \<le> word then False
           else case offcpu_cpu_set s word of None \<Rightarrow> False
                | Some m \<Rightarrow> m AND push_bit (unat (cpu mod OFFCPU_CPU_SET_WORD_BITS)) 1 \<noteq> 0)"

definition offcpu_emit_event ::
  "offcpu_config \<Rightarrow> offcpu_env \<Rightarrow> offcpu_state \<Rightarrow> u64 \<Rightarrow> profiler_offcpu_event_kind \<Rightarrow>
     offcpu_maps \<Rightarrow> offcpu_maps" where
  "offcpu_emit_event cfg env state end_ns kind s =
     (if \<not> offcpu_kind_enabled cfg kind \<or> end_ns \<le> os_phase_start_ns state then s
      else
        let duration = end_ns - os_phase_start_ns state
        in if duration < profiler_offcpu_min_duration_ns cfg then s
           else if \<not> offcpu_event_buf s then s
           else
             let event = \<lparr>oe_base = (profiler_copy_event_base zero_event_base (os_base state))
                                      \<lparr>pe_value := duration\<rparr>, oe_kind = kind\<rparr>;
                 s1 = s\<lparr>offcpu_output := offcpu_output s @ [(event, en_output env)]\<rparr>
             in if en_output env < 0
                then offcpu_stat_inc cfg (en_cpu env) PROFILER_OFFCPU_STAT_OUTPUT_FAILURE s1 else s1)"

definition offcpu_handle_wakeup ::
  "offcpu_config \<Rightarrow> offcpu_env \<Rightarrow> u64 \<Rightarrow> offcpu_maps \<Rightarrow> offcpu_maps" where
  "offcpu_handle_wakeup cfg env key s =
     (if key = 0 then s
      else case offcpu_states s key of None \<Rightarrow> s
      | Some state \<Rightarrow>
          if os_kind state \<noteq> PROFILER_OFFCPU_EVENT_BLOCKED then s
          else
            let now = en_now env;
                s1 = offcpu_emit_event cfg env state now PROFILER_OFFCPU_EVENT_BLOCKED s
            in if profiler_offcpu_phase cfg = OFFCPU_PHASE_FILTER_BLOCKED
               then s1\<lparr>offcpu_states := snd (bpf_map_delete_elem (en_fault env) key (offcpu_states s1))\<rparr>
               else s1\<lparr>offcpu_states := (offcpu_states s1)(key \<mapsto>
                      state\<lparr>os_kind := PROFILER_OFFCPU_EVENT_RUNQUEUE, os_phase_start_ns := now\<rparr>)\<rparr>)"

definition native_offcpu_wakeup :: "offcpu_config \<Rightarrow> offcpu_env \<Rightarrow> (nat \<Rightarrow> u64) \<Rightarrow> offcpu_maps \<Rightarrow> offcpu_maps" where
  "native_offcpu_wakeup cfg env args s = offcpu_handle_wakeup cfg env (args 0) s"

definition native_offcpu_wakeup_new :: "offcpu_config \<Rightarrow> offcpu_env \<Rightarrow> (nat \<Rightarrow> u64) \<Rightarrow> offcpu_maps \<Rightarrow> offcpu_maps" where
  "native_offcpu_wakeup_new cfg env args s = offcpu_handle_wakeup cfg env (args 0) s"

definition offcpu_record_sched_out ::
  "offcpu_config \<Rightarrow> 'a task_kernel_scheme \<Rightarrow> offcpu_env \<Rightarrow> u64 \<Rightarrow> u64 \<Rightarrow> u64 \<Rightarrow> offcpu_maps \<Rightarrow> offcpu_maps" where
  "offcpu_record_sched_out cfg K env arg0 prev now s =
     (let pid_tgid = en_pid_tgid env
      in if prev = 0 \<or> pid_tgid = 0 \<or> \<not> profiler_should_trace (offcpu_profiler cfg) pid_tgid (en_css env)
         then s
         else if \<not> offcpu_cpu_selected cfg (en_cpu env) s then s
         else
           let preempted = (arg0 \<noteq> 0);
               is_runnable = (preempted \<or> sched_task_state K prev = TASK_RUNNING)
           in if is_runnable \<and> profiler_offcpu_phase cfg = OFFCPU_PHASE_FILTER_BLOCKED then s
              else
                case profiler_fill_event_base (profiler_env.truncate env) pid_tgid True 0 of
                  None \<Rightarrow> offcpu_stat_inc cfg (en_cpu env) PROFILER_OFFCPU_STAT_STACK_FAILURE s
                | Some base \<Rightarrow>
                    let state =
                          \<lparr>os_base = base, os_phase_start_ns = now,
                           os_kind = (if is_runnable
                                      then if preempted then PROFILER_OFFCPU_EVENT_RUNQUEUE_PREEMPTED
                                           else PROFILER_OFFCPU_EVENT_RUNQUEUE_YIELDED
                                      else PROFILER_OFFCPU_EVENT_BLOCKED)\<rparr>;
                        (ret, m) = bpf_map_update_elem (en_fault env) BPF_ANY prev state (offcpu_states s);
                        s1 = s\<lparr>offcpu_states := m\<rparr>
                    in if ret < 0
                       then offcpu_stat_inc cfg (en_cpu env) PROFILER_OFFCPU_STAT_STATE_UPDATE_FAILURE s1
                       else s1)"

text \<open>The failure of the deletion made for the task that runs next is a separate argument.\<close>

definition offcpu_finish_sched_in ::
  "offcpu_config \<Rightarrow> offcpu_env \<Rightarrow> map_fault \<Rightarrow> u64 \<Rightarrow> u64 \<Rightarrow> offcpu_maps \<Rightarrow> offcpu_maps" where
  "offcpu_finish_sched_in cfg env f key now s =
     (if key = 0 then s
      else case offcpu_states s key of None \<Rightarrow> s
      | Some state \<Rightarrow>
          let (kind, s1) =
                (if os_kind state = PROFILER_OFFCPU_EVENT_BLOCKED
                 then (PROFILER_OFFCPU_EVENT_RUNQUEUE_MISSED_WAKEUP,
                       offcpu_stat_inc cfg (en_cpu env) PROFILER_OFFCPU_STAT_MISSED_WAKEUP s)
                 else (os_kind state, s));
              s2 = offcpu_emit_event cfg env state now kind s1
          in s2\<lparr>offcpu_states := snd (bpf_map_delete_elem f key (offcpu_states s2))\<rparr>)"

definition native_offcpu_switch ::
  "offcpu_config \<Rightarrow> 'a task_kernel_scheme \<Rightarrow> offcpu_env \<Rightarrow> map_fault \<Rightarrow> (nat \<Rightarrow> u64) \<Rightarrow>
     offcpu_maps \<Rightarrow> offcpu_maps" where
  "native_offcpu_switch cfg K env f args s =
     (let prev = args 1; nxt = args 2; now = en_now env;
          s1 = offcpu_finish_sched_in cfg env f nxt now s
      in offcpu_record_sched_out cfg K env (args 0) prev now s1)"

definition offcpu_cleanup_task_state ::
  "offcpu_config \<Rightarrow> offcpu_env \<Rightarrow> u64 \<Rightarrow> bool \<Rightarrow> offcpu_maps \<Rightarrow> offcpu_maps" where
  "offcpu_cleanup_task_state cfg env key emit_pending s =
     (if key = 0 then s
      else case offcpu_states s key of None \<Rightarrow> s
      | Some state \<Rightarrow>
          let s1 = (if emit_pending
                    then offcpu_emit_event cfg env state (en_now env) (os_kind state) s else s);
              s2 = s1\<lparr>offcpu_states := snd (bpf_map_delete_elem (en_fault env) key (offcpu_states s1))\<rparr>
          in offcpu_stat_inc cfg (en_cpu env) PROFILER_OFFCPU_STAT_STATE_CLEANUP s2)"

definition native_offcpu_exit :: "offcpu_config \<Rightarrow> offcpu_env \<Rightarrow> (nat \<Rightarrow> u64) \<Rightarrow> offcpu_maps \<Rightarrow> offcpu_maps" where
  "native_offcpu_exit cfg env args s = offcpu_cleanup_task_state cfg env (args 0) True s"

definition native_offcpu_free :: "offcpu_config \<Rightarrow> offcpu_env \<Rightarrow> (nat \<Rightarrow> u64) \<Rightarrow> offcpu_maps \<Rightarrow> offcpu_maps" where
  "native_offcpu_free cfg env args s = offcpu_cleanup_task_state cfg env (args 0) False s"

datatype offcpu_event =
    Offcpu_wakeup offcpu_env "nat \<Rightarrow> u64"
  | Offcpu_wakeup_new offcpu_env "nat \<Rightarrow> u64"
  | Offcpu_switch task_kernel offcpu_env map_fault "nat \<Rightarrow> u64"
  | Offcpu_exit offcpu_env "nat \<Rightarrow> u64"
  | Offcpu_free offcpu_env "nat \<Rightarrow> u64"

fun offcpu_step :: "offcpu_config \<Rightarrow> offcpu_event \<Rightarrow> offcpu_maps \<Rightarrow> offcpu_maps" where
  "offcpu_step cfg (Offcpu_wakeup env args) s = native_offcpu_wakeup cfg env args s"
| "offcpu_step cfg (Offcpu_wakeup_new env args) s = native_offcpu_wakeup_new cfg env args s"
| "offcpu_step cfg (Offcpu_switch K env f args) s = native_offcpu_switch cfg K env f args s"
| "offcpu_step cfg (Offcpu_exit env args) s = native_offcpu_exit cfg env args s"
| "offcpu_step cfg (Offcpu_free env args) s = native_offcpu_free cfg env args s"

section \<open>Emissions\<close>

definition out_time :: "(profiler_offcpu_event \<times> int) list \<Rightarrow> nat" where
  "out_time out = (\<Sum>x \<leftarrow> out. unat (pe_value (oe_base (fst x))))"

text \<open>\<open>submits n s s'\<close>: the step appended submissions of at most \<open>n\<close> nanoseconds in total.\<close>

definition submits :: "nat \<Rightarrow> offcpu_maps \<Rightarrow> offcpu_maps \<Rightarrow> bool" where
  "submits n s s' \<longleftrightarrow> (\<exists>out. offcpu_output s' = offcpu_output s @ out \<and> out_time out \<le> n)"

lemma submits_same: "offcpu_output s' = offcpu_output s \<Longrightarrow> submits n s s'"
  by (auto simp: submits_def out_time_def)

lemma stat_inc_simps [simp]:
  "offcpu_states (offcpu_stat_inc cfg cpu st s) = offcpu_states s"
  "offcpu_output (offcpu_stat_inc cfg cpu st s) = offcpu_output s"
  "offcpu_event_buf (offcpu_stat_inc cfg cpu st s) = offcpu_event_buf s"
  "offcpu_cpu_set (offcpu_stat_inc cfg cpu st s) = offcpu_cpu_set s"
  by (simp_all add: offcpu_stat_inc_def)

lemma emit_states [simp]:
  "offcpu_states (offcpu_emit_event cfg env st now kind s) = offcpu_states s"
  by (simp add: offcpu_emit_event_def Let_def)

lemma emit_submits:
  "submits (unat now - unat (os_phase_start_ns st)) s (offcpu_emit_event cfg env st now kind s)"
proof (cases "offcpu_output (offcpu_emit_event cfg env st now kind s) = offcpu_output s")
  case False
  then have "os_phase_start_ns st < now" by (auto simp: offcpu_emit_event_def not_le split: if_splits)
  then have "unat (now - os_phase_start_ns st) = unat now - unat (os_phase_start_ns st)"
    by (simp add: unat_sub less_imp_le)
  then show ?thesis
    using False
    by (auto simp: offcpu_emit_event_def submits_def out_time_def Let_def)
qed (rule submits_same)

fun ev_time :: "offcpu_event \<Rightarrow> u64" where
  "ev_time (Offcpu_wakeup env args) = en_now env"
| "ev_time (Offcpu_wakeup_new env args) = en_now env"
| "ev_time (Offcpu_switch K env f args) = en_now env"
| "ev_time (Offcpu_exit env args) = en_now env"
| "ev_time (Offcpu_free env args) = en_now env"

text \<open>The task whose interval a firing may report.\<close>

fun subject :: "offcpu_event \<Rightarrow> u64" where
  "subject (Offcpu_wakeup env args) = args 0"
| "subject (Offcpu_wakeup_new env args) = args 0"
| "subject (Offcpu_switch K env f args) = args 2"
| "subject (Offcpu_exit env args) = args 0"
| "subject (Offcpu_free env args) = args 0"

text \<open>The deletions of a firing are not refused by a nested writer.\<close>

fun deletes :: "offcpu_event \<Rightarrow> bool" where
  "deletes (Offcpu_wakeup env args) \<longleftrightarrow> en_fault env \<noteq> Fault_EBUSY"
| "deletes (Offcpu_wakeup_new env args) \<longleftrightarrow> en_fault env \<noteq> Fault_EBUSY"
| "deletes (Offcpu_switch K env f args) \<longleftrightarrow> f \<noteq> Fault_EBUSY"
| "deletes (Offcpu_exit env args) \<longleftrightarrow> en_fault env \<noteq> Fault_EBUSY"
| "deletes (Offcpu_free env args) \<longleftrightarrow> en_fault env \<noteq> Fault_EBUSY"

lemma delete_gone: "f \<noteq> Fault_EBUSY \<Longrightarrow> snd (bpf_map_delete_elem f k m) = m(k := None)"
  by (auto simp: bpf_map_delete_elem_def)

text \<open>Up to when the time of a task is accounted for: the start of its open phase, or now.\<close>

definition mark :: "u64 \<Rightarrow> u64 \<Rightarrow> offcpu_maps \<Rightarrow> u64" where
  "mark k now s = (case offcpu_states s k of None \<Rightarrow> now | Some st \<Rightarrow> os_phase_start_ns st)"

text \<open>What a firing may do to a task at a time: leave it alone, end its phase, or start one.\<close>

definition touches :: "u64 \<Rightarrow> u64 \<Rightarrow> offcpu_maps \<Rightarrow> offcpu_maps \<Rightarrow> bool" where
  "touches k now s s' \<longleftrightarrow> offcpu_states s' k = offcpu_states s k \<or>
     offcpu_states s' k = None \<or> (\<exists>st. offcpu_states s' k = Some st \<and> os_phase_start_ns st = now)"

definition ends :: "u64 \<Rightarrow> u64 \<Rightarrow> offcpu_maps \<Rightarrow> offcpu_maps \<Rightarrow> bool" where
  "ends k now s s' \<longleftrightarrow> (offcpu_output s' = offcpu_output s \<and> touches k now s s') \<or>
     submits (unat now - unat (mark k now s)) s s' \<and> mark k now s' = now"

lemma wakeup_ends:
  "en_fault env \<noteq> Fault_EBUSY \<Longrightarrow> ends k (en_now env) s (offcpu_handle_wakeup cfg env k s)"
  using emit_submits [of "en_now env" _ s cfg env PROFILER_OFFCPU_EVENT_BLOCKED]
  by (auto simp: offcpu_handle_wakeup_def ends_def touches_def mark_def delete_gone Let_def submits_def
      split: option.split)

lemma finish_ends:
  assumes "f \<noteq> Fault_EBUSY"
  shows "ends k now s (offcpu_finish_sched_in cfg env f k now s)"
proof (cases "k = 0 \<or> offcpu_states s k = None")
  case False
  then obtain st where st: "k \<noteq> 0" "offcpu_states s k = Some st" by auto
  define kind where "kind = (if os_kind st = PROFILER_OFFCPU_EVENT_BLOCKED
    then PROFILER_OFFCPU_EVENT_RUNQUEUE_MISSED_WAKEUP else os_kind st)"
  define s1 where "s1 = (if os_kind st = PROFILER_OFFCPU_EVENT_BLOCKED
    then offcpu_stat_inc cfg (en_cpu env) PROFILER_OFFCPU_STAT_MISSED_WAKEUP s else s)"
  have "offcpu_output s1 = offcpu_output s" by (simp add: s1_def)
  then have "submits (unat now - unat (os_phase_start_ns st)) s (offcpu_emit_event cfg env st now kind s1)"
    using emit_submits [of now st s1 cfg env kind] by (simp add: submits_def)
  moreover have "offcpu_finish_sched_in cfg env f k now s =
      (offcpu_emit_event cfg env st now kind s1)\<lparr>offcpu_states := (offcpu_states s)(k := None)\<rparr>"
    using st by (simp add: offcpu_finish_sched_in_def kind_def s1_def delete_gone [OF assms])
  ultimately show ?thesis using st by (simp add: ends_def mark_def submits_def)
qed (auto simp: offcpu_finish_sched_in_def ends_def touches_def)

lemma cleanup_ends:
  "en_fault env \<noteq> Fault_EBUSY \<Longrightarrow> ends k (en_now env) s (offcpu_cleanup_task_state cfg env k p s)"
  using emit_submits [of "en_now env" _ s cfg env]
  by (auto simp: offcpu_cleanup_task_state_def ends_def touches_def mark_def delete_gone Let_def submits_def
      split: option.split)

lemma record_output [simp]:
  "offcpu_output (offcpu_record_sched_out cfg K env a prev now s) = offcpu_output s"
  by (simp add: offcpu_record_sched_out_def Let_def split: option.split prod.split)

lemma record_touches: "touches k now s (offcpu_record_sched_out cfg K env a prev now s)"
proof -
  have "touches k now s (s\<lparr>offcpu_states := snd (bpf_map_update_elem f BPF_ANY prev st (offcpu_states s))\<rparr>)"
    if "os_phase_start_ns st = now" for f st
    using that by (rule_tac bmap.update_cases [of f BPF_ANY prev st "offcpu_states s"]) (auto simp: touches_def)
  then show ?thesis
    unfolding offcpu_record_sched_out_def Let_def touches_def case_prod_beta by (simp split: option.split)
qed

lemma record_other:
  "prev \<noteq> k \<Longrightarrow> offcpu_states (offcpu_record_sched_out cfg K env a prev now s) k = offcpu_states s k"
  by (simp add: offcpu_record_sched_out_def case_prod_beta Let_def bmap.update_other split: option.split)

lemma other_untouched:
  "j \<noteq> k \<Longrightarrow> offcpu_states (offcpu_handle_wakeup cfg env j s) k = offcpu_states s k"
  "j \<noteq> k \<Longrightarrow> offcpu_states (offcpu_finish_sched_in cfg env f j now s) k = offcpu_states s k"
  "j \<noteq> k \<Longrightarrow> offcpu_states (offcpu_cleanup_task_state cfg env j p s) k = offcpu_states s k"
  by (auto simp: offcpu_handle_wakeup_def offcpu_finish_sched_in_def offcpu_cleanup_task_state_def Let_def
      bmap.delete_other split: option.split)

text \<open>One firing: the reports of the task and its mark.\<close>

definition step_time :: "offcpu_config \<Rightarrow> u64 \<Rightarrow> offcpu_event \<Rightarrow> offcpu_maps \<Rightarrow> nat" where
  "step_time cfg k e s =
     (if subject e = k then out_time (drop (length (offcpu_output s)) (offcpu_output (offcpu_step cfg e s))) else 0)"

lemma submits_time: "submits n s s' \<Longrightarrow> out_time (drop (length (offcpu_output s)) (offcpu_output s')) \<le> n"
  by (auto simp: submits_def)

lemma mark_le: "mark k t s \<le> t \<Longrightarrow> t \<le> now \<Longrightarrow> mark k now s \<le> now"
  by (auto simp: mark_def split: option.splits)

lemma touches_mark:
  "touches k now s s' \<Longrightarrow> mark k now s \<le> now \<Longrightarrow> mark k now s \<le> mark k now s' \<and> mark k now s' \<le> now"
  by (auto simp: touches_def mark_def split: option.splits)

lemma ends_time:
  assumes "ends k now s s'" "mark k now s \<le> now"
  shows "out_time (drop (length (offcpu_output s)) (offcpu_output s')) + unat (mark k now s) \<le> unat (mark k now s')"
    and "mark k now s' \<le> now"
proof -
  consider "offcpu_output s' = offcpu_output s" "touches k now s s'"
    | "submits (unat now - unat (mark k now s)) s s'" "mark k now s' = now"
    using assms(1) unfolding ends_def by blast
  then have "out_time (drop (length (offcpu_output s)) (offcpu_output s')) + unat (mark k now s) \<le> unat (mark k now s')
      \<and> mark k now s' \<le> now"
  proof cases
    case 1
    then show ?thesis using touches_mark [OF 1(2) assms(2)] by (simp add: out_time_def word_le_nat_alt)
  next
    case 2
    then show ?thesis using submits_time [OF 2(1)] assms(2) by (simp add: word_le_nat_alt)
  qed
  then show "out_time (drop (length (offcpu_output s)) (offcpu_output s')) + unat (mark k now s) \<le> unat (mark k now s')"
    and "mark k now s' \<le> now" by simp_all
qed

lemma step_ends: "deletes e \<Longrightarrow> subject e = k \<Longrightarrow> ends k (ev_time e) s (offcpu_step cfg e s) \<or>
    (\<exists>t. ends k (ev_time e) s t \<and> touches k (ev_time e) t (offcpu_step cfg e s) \<and>
         offcpu_output (offcpu_step cfg e s) = offcpu_output t)"
proof (cases e)
  case (Offcpu_switch K env f args)
  assume "deletes e" "subject e = k"
  then show ?thesis
    using Offcpu_switch finish_ends [of f k "en_now env" s cfg env]
      record_touches [of k "en_now env" "offcpu_finish_sched_in cfg env f k (en_now env) s"]
    by (intro disjI2 exI [of _ "offcpu_finish_sched_in cfg env f k (en_now env) s"])
      (simp add: native_offcpu_switch_def Let_def)
qed (use wakeup_ends cleanup_ends in \<open>auto simp: native_offcpu_wakeup_def native_offcpu_wakeup_new_def
      native_offcpu_exit_def native_offcpu_free_def\<close>)

lemma step_other:
  assumes "subject e \<noteq> k" shows "touches k (ev_time e) s (offcpu_step cfg e s)"
proof (cases e)
  case (Offcpu_switch K env f args)
  have "offcpu_states (offcpu_finish_sched_in cfg env f (args 2) (en_now env) s) k = offcpu_states s k"
    using assms Offcpu_switch by (intro other_untouched) simp
  then show ?thesis
    using record_touches [of k "en_now env" "offcpu_finish_sched_in cfg env f (args 2) (en_now env) s"
        cfg K env "args 0" "args 1"] Offcpu_switch
    by (simp add: touches_def native_offcpu_switch_def Let_def)
qed (use assms in \<open>auto simp: touches_def other_untouched native_offcpu_wakeup_def native_offcpu_wakeup_new_def
      native_offcpu_exit_def native_offcpu_free_def\<close>)

lemma step_time_mark:
  assumes "deletes e" "mark k (ev_time e) s \<le> ev_time e"
  shows "step_time cfg k e s + unat (mark k (ev_time e) s) \<le> unat (mark k (ev_time e) (offcpu_step cfg e s)) \<and>
     mark k (ev_time e) (offcpu_step cfg e s) \<le> ev_time e"
proof (cases "subject e = k")
  case True
  from step_ends [OF assms(1) True, of s cfg] show ?thesis
  proof (elim disjE exE conjE)
    assume "ends k (ev_time e) s (offcpu_step cfg e s)"
    from ends_time [OF this assms(2)] show ?thesis using True by (simp add: step_time_def)
  next
    fix t assume t: "ends k (ev_time e) s t" "touches k (ev_time e) t (offcpu_step cfg e s)"
      "offcpu_output (offcpu_step cfg e s) = offcpu_output t"
    from ends_time [OF t(1) assms(2)] touches_mark [OF t(2)] show ?thesis
      using True t(3) by (auto simp: step_time_def word_le_nat_alt)
  qed
next
  case False
  then show ?thesis
    using touches_mark [OF step_other [OF False] assms(2)] by (simp add: step_time_def word_le_nat_alt)
qed

fun task_time :: "offcpu_config \<Rightarrow> u64 \<Rightarrow> offcpu_event list \<Rightarrow> offcpu_maps \<Rightarrow> nat" where
  "task_time cfg k [] s = 0"
| "task_time cfg k (e # es) s = step_time cfg k e s + task_time cfg k es (offcpu_step cfg e s)"

fun clock_run :: "u64 \<Rightarrow> offcpu_event list \<Rightarrow> bool" where
  "clock_run t [] \<longleftrightarrow> True"
| "clock_run t (e # es) \<longleftrightarrow> t \<le> ev_time e \<and> clock_run (ev_time e) es"

fun last_time :: "u64 \<Rightarrow> offcpu_event list \<Rightarrow> u64" where
  "last_time t [] = t"
| "last_time t (e # es) = last_time (ev_time e) es"

lemma mark_later: "t \<le> now \<Longrightarrow> unat (mark k t s) \<le> unat (mark k now s)"
  by (auto simp: mark_def word_le_nat_alt split: option.split)

lemma task_time_mark:
  "clock_run t es \<Longrightarrow> list_all deletes es \<Longrightarrow> mark k t s \<le> t \<Longrightarrow>
   task_time cfg k es s + unat (mark k t s) \<le> unat (last_time t es)"
proof (induction es arbitrary: t s)
  case (Cons e es)
  have le: "t \<le> ev_time e" using Cons.prems by simp
  have m: "mark k (ev_time e) s \<le> ev_time e" by (rule mark_le [OF Cons.prems(3) le])
  from step_time_mark [of e k s cfg] Cons.prems m
  have 1: "step_time cfg k e s + unat (mark k (ev_time e) s) \<le> unat (mark k (ev_time e) (offcpu_step cfg e s))"
    and 2: "mark k (ev_time e) (offcpu_step cfg e s) \<le> ev_time e" by simp_all
  have "task_time cfg k es (offcpu_step cfg e s) + unat (mark k (ev_time e) (offcpu_step cfg e s))
      \<le> unat (last_time (ev_time e) es)"
    using Cons.IH [OF _ _ 2] Cons.prems by simp
  then show ?case using 1 mark_later [OF le, of k s] by simp
qed (simp add: word_le_nat_alt)

text \<open>C15. No task is charged twice for the same time: over any run with a clock that does not go
  back, the off-CPU time reported for a task, over all its blocked, run queue and missed wakeup
  intervals, is at most the time that passed since its open interval began, or since the
  start of the run if it had none. No deletion of a state row fails in the run.\<close>

theorem offcpu_time_bounded:
  assumes "clock_run t es" and "list_all deletes es"
    and "mark k t s \<le> t"
  shows "task_time cfg k es s \<le> unat (last_time t es) - unat (mark k t s)"
  using task_time_mark [OF assms, of cfg] by simp

section \<open>A complete wait\<close>

definition interval_event ::
  "profiler_event_base \<Rightarrow> profiler_offcpu_event_kind \<Rightarrow> u64 \<Rightarrow> profiler_offcpu_event" where
  "interval_event base kind d = \<lparr>oe_base = base\<lparr>pe_value := d\<rparr>, oe_kind = kind\<rparr>"

text \<open>What should be reported of a phase: nothing if its kind is filtered out or it is shorter than
  configured, else its length.\<close>

definition phase_wanted :: "offcpu_config \<Rightarrow> profiler_offcpu_event_kind \<Rightarrow> bool" where
  "phase_wanted cfg kind =
     (case profiler_offcpu_phase cfg of
        OFFCPU_PHASE_FILTER_ALL \<Rightarrow> True
      | OFFCPU_PHASE_FILTER_BLOCKED \<Rightarrow> kind = PROFILER_OFFCPU_EVENT_BLOCKED
      | OFFCPU_PHASE_FILTER_RUNQUEUE \<Rightarrow> kind \<noteq> PROFILER_OFFCPU_EVENT_BLOCKED)"

definition phase_report ::
  "offcpu_config \<Rightarrow> profiler_event_base \<Rightarrow> profiler_offcpu_event_kind \<Rightarrow> u64 \<Rightarrow> u64 \<Rightarrow> int \<Rightarrow>
     (profiler_offcpu_event \<times> int) list" where
  "phase_report cfg base kind start end_ns res =
     (if phase_wanted cfg kind \<and> start < end_ns \<and>
         unat (profiler_offcpu_min_duration_ns cfg) \<le> unat end_ns - unat start
      then [(interval_event base kind (end_ns - start), res)] else [])"

lemma emit_output:
  assumes "offcpu_event_buf s"
  shows "offcpu_output (offcpu_emit_event cfg env st now kind s) =
    offcpu_output s @ phase_report cfg (os_base st) kind (os_phase_start_ns st) now (en_output env)"
proof -
  have copy: "(profiler_copy_event_base zero_event_base b)\<lparr>pe_value := v\<rparr> = b\<lparr>pe_value := v\<rparr>" for b v
    by (cases b) (simp add: profiler_copy_event_base_def zero_event_base_def)
  have wanted: "offcpu_kind_enabled cfg kind = phase_wanted cfg kind"
    by (simp add: offcpu_kind_enabled_def phase_wanted_def split: offcpu_phase_filter.split)
  show ?thesis
  proof (cases "os_phase_start_ns st < now")
    case True
    then have "unat (now - os_phase_start_ns st) = unat now - unat (os_phase_start_ns st)"
      by (simp add: unat_sub less_imp_le)
    then show ?thesis using assms True
      by (auto simp: offcpu_emit_event_def phase_report_def wanted copy interval_event_def Let_def word_less_nat_alt word_le_nat_alt)
  next
    case False
    then show ?thesis by (simp add: offcpu_emit_event_def phase_report_def not_less)
  qed
qed

text \<open>A firing that concerns a task: as its subject, or as the task that leaves its CPU. Others do
  not change the state of the task.\<close>

fun concerns :: "offcpu_event \<Rightarrow> u64 \<Rightarrow> bool" where
  "concerns (Offcpu_switch K env f args) k \<longleftrightarrow> args 1 = k \<or> args 2 = k"
| "concerns e k \<longleftrightarrow> subject e = k"

lemma emit_buf [simp]: "offcpu_event_buf (offcpu_emit_event cfg env st now kind s) = offcpu_event_buf s"
  by (simp add: offcpu_emit_event_def Let_def)

lemma finish_frame [simp]:
  "offcpu_event_buf (offcpu_finish_sched_in cfg env f k now s) = offcpu_event_buf s"
  "offcpu_cpu_selected cfg c (offcpu_finish_sched_in cfg env f k now s) = offcpu_cpu_selected cfg c s"
  by (auto simp: offcpu_finish_sched_in_def offcpu_cpu_selected_def offcpu_emit_event_def Let_def split: option.split)

lemma record_buf [simp]:
  "offcpu_event_buf (offcpu_record_sched_out cfg K env a prev now s) = offcpu_event_buf s"
  by (simp add: offcpu_record_sched_out_def Let_def split: option.split prod.split)

lemma step_buf: "offcpu_event_buf (offcpu_step cfg e s) = offcpu_event_buf s"
  by (cases e) (auto simp: native_offcpu_wakeup_def native_offcpu_wakeup_new_def native_offcpu_exit_def
      native_offcpu_free_def native_offcpu_switch_def offcpu_handle_wakeup_def offcpu_cleanup_task_state_def
      Let_def split: option.split)

lemma run_buf: "offcpu_event_buf (fold (offcpu_step cfg) es s) = offcpu_event_buf s"
  by (induction es arbitrary: s) (simp_all add: step_buf)

interpretation tasks: touched_rows "offcpu_step cfg" offcpu_states concerns "\<lambda>_. True" for cfg
proof unfold_locales
  show "offcpu_states (offcpu_step cfg e s) k = offcpu_states s k" if "\<not> concerns e k" for e s k
    using that
    by (cases e) (auto simp: native_offcpu_wakeup_def native_offcpu_wakeup_new_def native_offcpu_exit_def
        native_offcpu_free_def native_offcpu_switch_def other_untouched record_other Let_def)
qed simp

text \<open>The three firings of a wait.\<close>

lemma block_recorded:
  assumes "en_fault env = Fault_none" "k \<noteq> 0" "en_pid_tgid env \<noteq> 0"
    and "profiler_should_trace (offcpu_profiler cfg) (en_pid_tgid env) (en_css env)"
    and "profiler_fill_event_base (profiler_env.truncate env) (en_pid_tgid env) True 0 = Some base"
    and "offcpu_cpu_selected cfg (en_cpu env) s" "args 0 = 0" "args 1 = k" "sched_task_state K k \<noteq> TASK_RUNNING"
  shows "offcpu_states (native_offcpu_switch cfg K env f args s) k =
    Some \<lparr>os_base = base, os_phase_start_ns = en_now env, os_kind = PROFILER_OFFCPU_EVENT_BLOCKED\<rparr>"
  using assms by (simp add: native_offcpu_switch_def offcpu_record_sched_out_def Let_def)

lemma wake_reports:
  assumes "offcpu_states s k = Some \<lparr>os_base = base, os_phase_start_ns = start, os_kind = PROFILER_OFFCPU_EVENT_BLOCKED\<rparr>"
    and "offcpu_event_buf s" "k \<noteq> 0" "args 0 = k" "en_fault env \<noteq> Fault_EBUSY"
    and s': "s' = native_offcpu_wakeup cfg env args s"
  shows "offcpu_output s' = offcpu_output s @
      phase_report cfg base PROFILER_OFFCPU_EVENT_BLOCKED start (en_now env) (en_output env) \<and>
    offcpu_states s' k = (if profiler_offcpu_phase cfg = OFFCPU_PHASE_FILTER_BLOCKED then None
      else Some \<lparr>os_base = base, os_phase_start_ns = en_now env, os_kind = PROFILER_OFFCPU_EVENT_RUNQUEUE\<rparr>)"
  using assms
  by (simp add: native_offcpu_wakeup_def offcpu_handle_wakeup_def emit_output delete_gone Let_def)

lemma resume_reports:
  assumes "offcpu_states s k = (if profiler_offcpu_phase cfg = OFFCPU_PHASE_FILTER_BLOCKED then None
      else Some \<lparr>os_base = base, os_phase_start_ns = start, os_kind = PROFILER_OFFCPU_EVENT_RUNQUEUE\<rparr>)"
    and "offcpu_event_buf s" "k \<noteq> 0" "args 2 = k" "args 1 \<noteq> k" "f \<noteq> Fault_EBUSY"
    and s': "s' = native_offcpu_switch cfg K env f args s"
  shows "offcpu_output s' = offcpu_output s @
      phase_report cfg base PROFILER_OFFCPU_EVENT_RUNQUEUE start (en_now env) (en_output env) \<and>
    offcpu_states s' k = None"
  using assms
  by (simp add: native_offcpu_switch_def offcpu_finish_sched_in_def record_other emit_output delete_gone Let_def
      phase_report_def phase_wanted_def)

text \<open>C16. Every wait of a traced task is reported phase by phase, whatever other tasks do meanwhile: when
  the task blocks on a selected CPU, is woken later and runs again still later, the wakeup
  submits the time it was blocked and the switch submits the time it then waited for a CPU, each
  with the stack captured when it blocked, and each exactly if the phase filter wants it and
  it is at least as long as configured. Neither firing submits anything else, and no state of the task
  stays behind.\<close>

theorem offcpu_wait_reported:
  assumes buf: "offcpu_event_buf s"
    and faults: "en_fault e1 = Fault_none" "en_fault e2 \<noteq> Fault_EBUSY" "f3 \<noteq> Fault_EBUSY"
    and task: "k \<noteq> 0" "en_pid_tgid e1 \<noteq> 0"
      "profiler_should_trace (offcpu_profiler cfg) (en_pid_tgid e1) (en_css e1)"
      "profiler_fill_event_base (profiler_env.truncate e1) (en_pid_tgid e1) True 0 = Some base"
      "offcpu_cpu_selected cfg (en_cpu e1) s"
    and block: "a1 0 = 0" "a1 1 = k" "sched_task_state K1 k \<noteq> TASK_RUNNING"
    and wake: "a2 0 = k" and resume: "a3 2 = k" "a3 1 \<noteq> k"
    and others: "list_all (\<lambda>e. \<not> concerns e k) es" "list_all (\<lambda>e. \<not> concerns e k) es'"
    and r1: "r1 = fold (offcpu_step cfg) (Offcpu_switch K1 e1 f1 a1 # es) s"
    and r2: "r2 = offcpu_step cfg (Offcpu_wakeup e2 a2) r1"
    and r3: "r3 = fold (offcpu_step cfg) es' r2"
    and r4: "r4 = offcpu_step cfg (Offcpu_switch K3 e3 f3 a3) r3"
  shows "offcpu_output r2 = offcpu_output r1 @
      phase_report cfg base PROFILER_OFFCPU_EVENT_BLOCKED (en_now e1) (en_now e2) (en_output e2) \<and>
    offcpu_output r4 = offcpu_output r3 @
      phase_report cfg base PROFILER_OFFCPU_EVENT_RUNQUEUE (en_now e2) (en_now e3) (en_output e3) \<and>
    offcpu_states r4 k = None"
proof -
  have b: "offcpu_event_buf r1" "offcpu_event_buf r3"
    unfolding r3 r2 r1 by (simp_all only: run_buf step_buf buf)
  have "offcpu_states r1 k =
      Some \<lparr>os_base = base, os_phase_start_ns = en_now e1, os_kind = PROFILER_OFFCPU_EVENT_BLOCKED\<rparr>"
    using tasks.row_kept [OF _ others(1), of cfg "native_offcpu_switch cfg K1 e1 f1 a1 s"]
      block_recorded [where args = a1, OF faults(1) task block, of f1] by (simp add: r1)
  note w = wake_reports [where args = a2, OF this b(1) task(1) wake faults(2), of r2 cfg]
  have "offcpu_states r3 k = offcpu_states r2 k"
    unfolding r3 by (simp add: tasks.row_kept [OF _ others(2)])
  then show ?thesis
    using w resume_reports [where args = a3, OF _ b(2) task(1) resume faults(3), of cfg base "en_now e2" r4 K3 e3]
    by (simp add: r2 r4)
qed

section \<open>Concrete runs\<close>

definition demo_offcpu_config :: offcpu_config where
  "demo_offcpu_config = \<lparr>profiler_offcpu_phase = OFFCPU_PHASE_FILTER_ALL, profiler_offcpu_min_duration_ns = 10,
     profiler_offcpu_cpu_set_enabled = False, profiler_offcpu_stats_enabled = False,
     offcpu_profiler = demo_profiler_config\<rparr>"

definition demo_offcpu_env :: "u64 \<Rightarrow> offcpu_env" where
  "demo_offcpu_env t = profiler_env.extend (demo_env\<lparr>en_now := t\<rparr>) \<lparr>en_output = 0, en_fault = Fault_none\<rparr>"

definition demo_tasks :: task_kernel where
  "demo_tasks = \<lparr>has_state = True, tk_state = [5 \<mapsto> 1], tk___state = Map.empty, tk_pid = Map.empty,
     tk_sched_task_group = Map.empty\<rparr>"

definition demo_offcpu :: offcpu_maps where
  "demo_offcpu = \<lparr>offcpu_states = Map.empty, offcpu_cpu_set = Map.empty, offcpu_event_buf = True,
     offcpu_stats = Map.empty, offcpu_output = []\<rparr>"

definition demo_block :: "nat \<Rightarrow> u64" where "demo_block = (\<lambda>_. 0)(1 := 5)"
definition demo_wake :: "nat \<Rightarrow> u64" where "demo_wake = (\<lambda>_. 0)(0 := 5)"
definition demo_resume :: "nat \<Rightarrow> u64" where "demo_resume = (\<lambda>_. 0)(2 := 5)"

definition demo_base :: profiler_event_base where
  "demo_base = \<lparr>pe_pid_tgid = 7, pe_comm = ''app'', pe_kernstack = 2, pe_userstack = 1, pe_value = 0\<rparr>"

lemmas demo_offcpu_defs = demo_offcpu_config_def demo_offcpu_env_def demo_tasks_def demo_offcpu_def
  demo_block_def demo_wake_def demo_resume_def demo_base_def demo_env_def demo_profiler_config_def
  profiler_env.defs

text \<open>Task 5 blocks at 100, is woken at 150 and runs at 170; meanwhile task 6 is woken.\<close>

theorem offcpu_wait_reported_witness:
  "let r1 = fold (offcpu_step demo_offcpu_config) (Offcpu_switch demo_tasks (demo_offcpu_env 100) Fault_none demo_block #
              [Offcpu_wakeup (demo_offcpu_env 120) ((\<lambda>_. 0)(0 := 6))]) demo_offcpu;
       r2 = offcpu_step demo_offcpu_config (Offcpu_wakeup (demo_offcpu_env 150) demo_wake) r1
   in drop (length (offcpu_output r1)) (offcpu_output r2) = [(interval_event demo_base PROFILER_OFFCPU_EVENT_BLOCKED 50, 0)] \<and>
      drop (length (offcpu_output r2)) (offcpu_output
        (offcpu_step demo_offcpu_config (Offcpu_switch demo_tasks (demo_offcpu_env 170) Fault_none demo_resume) r2)) =
        [(interval_event demo_base PROFILER_OFFCPU_EVENT_RUNQUEUE 20, 0)]"
proof -
  let ?e = demo_offcpu_env and ?cfg = demo_offcpu_config
  have now: "en_now (?e x) = x" "en_output (?e x) = 0" for x by (simp_all add: demo_offcpu_defs)
  have hyps: "offcpu_event_buf demo_offcpu" "en_fault (?e 100) = Fault_none" "en_fault (?e 150) \<noteq> Fault_EBUSY"
    "Fault_none \<noteq> Fault_EBUSY" "(5 :: u64) \<noteq> 0" "en_pid_tgid (?e 100) \<noteq> 0"
    "profiler_should_trace (offcpu_profiler ?cfg) (en_pid_tgid (?e 100)) (en_css (?e 100))"
    "profiler_fill_event_base (profiler_env.truncate (?e 100)) (en_pid_tgid (?e 100)) True 0 = Some demo_base"
    "offcpu_cpu_selected ?cfg (en_cpu (?e 100)) demo_offcpu"
    "demo_block 0 = 0" "demo_block 1 = 5" "sched_task_state demo_tasks 5 \<noteq> TASK_RUNNING"
    "demo_wake 0 = 5" "demo_resume 2 = 5" "demo_resume 1 \<noteq> 5"
    "list_all (\<lambda>e. \<not> concerns e 5) [Offcpu_wakeup (?e 120) ((\<lambda>_. 0)(0 := 6))]" "list_all (\<lambda>e. \<not> concerns e 5) []"
    by (simp_all add: demo_offcpu_defs profiler_should_trace_def profiler_fill_event_base_def sched_task_state_def
        offcpu_cpu_selected_def)
  have "phase_report ?cfg demo_base PROFILER_OFFCPU_EVENT_BLOCKED 100 150 0 =
      [(interval_event demo_base PROFILER_OFFCPU_EVENT_BLOCKED 50, 0)]"
    "phase_report ?cfg demo_base PROFILER_OFFCPU_EVENT_RUNQUEUE 150 170 0 =
      [(interval_event demo_base PROFILER_OFFCPU_EVENT_RUNQUEUE 20, 0)]"
    by (simp_all add: phase_report_def phase_wanted_def demo_offcpu_config_def)
  then show ?thesis
    using offcpu_wait_reported [where ?a1.0 = demo_block and ?a2.0 = demo_wake and ?a3.0 = demo_resume, OF hyps refl refl refl refl, of Fault_none demo_tasks "?e 170"]
    by (simp add: Let_def now del: fold.simps fold_simps offcpu_step.simps) simp
qed

theorem offcpu_time_bounded_witness:
  "task_time demo_offcpu_config 5
     [Offcpu_switch demo_tasks (demo_offcpu_env 100) Fault_none demo_block,
      Offcpu_wakeup (demo_offcpu_env 150) demo_wake,
      Offcpu_switch demo_tasks (demo_offcpu_env 170) Fault_none demo_resume] demo_offcpu \<le> 80"
  using offcpu_time_bounded [of 90 "[Offcpu_switch demo_tasks (demo_offcpu_env 100) Fault_none demo_block,
      Offcpu_wakeup (demo_offcpu_env 150) demo_wake,
      Offcpu_switch demo_tasks (demo_offcpu_env 170) Fault_none demo_resume]" 5 demo_offcpu demo_offcpu_config]
  by (simp add: demo_offcpu_env_def mark_def profiler_env.defs demo_env_def demo_offcpu_def
      del: task_time.simps)

end
