(* ===== verification/Runqlat.thy ===== *)
theory Runqlat
  imports Bpf_Sched
begin

text \<open>
  \<^verbatim>\<open>bpf/cpu_runqlat_tracing.c\<close> as it is built, with the address of the task group as the key
  (\<^verbatim>\<open>TG_ADDR_KEY\<close>): context switches and run queue latencies, per task group and for the
  host. A per-CPU map holds a function of the CPU; the host metric is a one-element array.
\<close>

section \<open>Model\<close>

record stat_t =
  nvcsw :: u64
  nivcsw :: u64
  nlat_01 :: u64
  nlat_02 :: u64
  nlat_03 :: u64
  nlat_04 :: u64

record g_stat_t =
  g_nvcsw :: u64
  g_nivcsw :: u64
  g_nlat_01 :: u64
  g_nlat_02 :: u64
  g_nlat_03 :: u64
  g_nlat_04 :: u64

record runqlat_state =
  latency :: "u32 \<rightharpoonup> u64"
  cpu_tg_metric :: "u64 \<rightharpoonup> (u32 \<Rightarrow> stat_t)"
  cpu_host_metric :: "(u32 \<Rightarrow> g_stat_t) option"

definition zero_stat :: stat_t where
  "zero_stat = \<lparr>nvcsw = 0, nivcsw = 0, nlat_01 = 0, nlat_02 = 0, nlat_03 = 0, nlat_04 = 0\<rparr>"

abbreviation (input) "NSEC_PER_MSEC \<equiv> 1000000 :: u64"

definition trace_enqueue :: "map_fault \<Rightarrow> u64 \<Rightarrow> u32 \<Rightarrow> runqlat_state \<Rightarrow> runqlat_state" where
  "trace_enqueue f ts pid s =
     (if pid = 0 then s
      else s\<lparr>latency := snd (bpf_map_update_elem f BPF_ANY pid ts (latency s))\<rparr>)"

definition sched_wakeup_new_entry :: "map_fault \<Rightarrow> u64 \<Rightarrow> u32 \<Rightarrow> runqlat_state \<Rightarrow> runqlat_state" where
  "sched_wakeup_new_entry f ts pid s = trace_enqueue f ts pid s"

definition sched_wakeup_entry :: "map_fault \<Rightarrow> u64 \<Rightarrow> u32 \<Rightarrow> runqlat_state \<Rightarrow> runqlat_state" where
  "sched_wakeup_entry f ts pid s = trace_enqueue f ts pid s"

text \<open>Find or create the entry of a task group; false is a NULL entry. A new element of a
  per-CPU map is zero on every CPU.\<close>

definition tg_entry :: "map_fault \<Rightarrow> u64 \<Rightarrow> runqlat_state \<Rightarrow> bool \<times> runqlat_state" where
  "tg_entry f key s =
     (if cpu_tg_metric s key \<noteq> None then (True, s)
      else
        let s1 = s\<lparr>cpu_tg_metric := snd (bpf_map_update_elem f BPF_NOEXIST key (\<lambda>_. zero_stat) (cpu_tg_metric s))\<rparr>
        in (cpu_tg_metric s1 key \<noteq> None, s1))"

text \<open>Writes through the two entry pointers of one CPU.\<close>

definition at_entries ::
  "u32 \<Rightarrow> u64 \<Rightarrow> (stat_t \<Rightarrow> stat_t) \<Rightarrow> (g_stat_t \<Rightarrow> g_stat_t) \<Rightarrow> runqlat_state \<Rightarrow> runqlat_state" where
  "at_entries cpu key g h s =
     s\<lparr>cpu_tg_metric := (cpu_tg_metric s)(key := map_option (\<lambda>row. row(cpu := g (row cpu))) (cpu_tg_metric s key)),
       cpu_host_metric := map_option (\<lambda>row. row(cpu := h (row cpu))) (cpu_host_metric s)\<rparr>"

definition count_switch :: "u32 \<Rightarrow> u64 \<Rightarrow> bool \<Rightarrow> runqlat_state \<Rightarrow> runqlat_state" where
  "count_switch cpu key is_voluntary s =
     (if is_voluntary
      then at_entries cpu key (\<lambda>x. x\<lparr>nvcsw := nvcsw x + 1\<rparr>) (\<lambda>x. x\<lparr>g_nvcsw := g_nvcsw x + 1\<rparr>) s
      else at_entries cpu key (\<lambda>x. x\<lparr>nivcsw := nivcsw x + 1\<rparr>) (\<lambda>x. x\<lparr>g_nivcsw := g_nivcsw x + 1\<rparr>) s)"

definition count_latency :: "u32 \<Rightarrow> u64 \<Rightarrow> u64 \<Rightarrow> runqlat_state \<Rightarrow> runqlat_state" where
  "count_latency cpu key delta s =
     (if delta < 10 * NSEC_PER_MSEC
      then at_entries cpu key (\<lambda>x. x\<lparr>nlat_01 := nlat_01 x + 1\<rparr>) (\<lambda>x. x\<lparr>g_nlat_01 := g_nlat_01 x + 1\<rparr>) s
      else if delta < 20 * NSEC_PER_MSEC
      then at_entries cpu key (\<lambda>x. x\<lparr>nlat_02 := nlat_02 x + 1\<rparr>) (\<lambda>x. x\<lparr>g_nlat_02 := g_nlat_02 x + 1\<rparr>) s
      else if delta < 50 * NSEC_PER_MSEC
      then at_entries cpu key (\<lambda>x. x\<lparr>nlat_03 := nlat_03 x + 1\<rparr>) (\<lambda>x. x\<lparr>g_nlat_03 := g_nlat_03 x + 1\<rparr>) s
      else at_entries cpu key (\<lambda>x. x\<lparr>nlat_04 := nlat_04 x + 1\<rparr>) (\<lambda>x. x\<lparr>g_nlat_04 := g_nlat_04 x + 1\<rparr>) s)"

text \<open>The part of the switch probe for the task that runs next.\<close>

definition switch_in ::
  "'a task_kernel_scheme \<Rightarrow> map_fault \<Rightarrow> map_fault \<Rightarrow> u32 \<Rightarrow> u64 \<Rightarrow> u64 \<Rightarrow> runqlat_state \<Rightarrow> runqlat_state" where
  "switch_in K f1 f2 cpu now nxt s =
     (let next_pid = core_read (tk_pid K) nxt
      in if next_pid = 0 then s
         else case latency s next_pid of None \<Rightarrow> s
         | Some ts \<Rightarrow>
             if ts = 0 then s
             else
               let delta = now - ts;
                   s1 = s\<lparr>latency := snd (bpf_map_delete_elem f1 next_pid (latency s))\<rparr>;
                   key = core_read (tk_sched_task_group K) nxt
               in if key = 0 then s1
                  else let (ok, s2) = tg_entry f2 key s1
                       in if ok then count_latency cpu key delta s2 else s2)"

record switch_faults =
  sf_enqueue :: map_fault
  sf_prev :: map_fault
  sf_delete :: map_fault
  sf_next :: map_fault

definition sched_switch_entry ::
  "'a task_kernel_scheme \<Rightarrow> switch_faults \<Rightarrow> u32 \<Rightarrow> u64 \<Rightarrow> (nat \<Rightarrow> u64) \<Rightarrow> runqlat_state \<Rightarrow> runqlat_state" where
  "sched_switch_entry K f cpu now args s =
     (let prev = args 1; nxt = args 2;
          key = core_read (tk_sched_task_group K) prev;
          state = sched_task_state K prev;
          prev_pid = core_read (tk_pid K) prev;
          is_voluntary = (state \<noteq> TASK_RUNNING);
          s1 = (if state = TASK_RUNNING \<and> prev_pid \<noteq> 0
                then s\<lparr>latency := snd (bpf_map_update_elem (sf_enqueue f) BPF_ANY prev_pid now (latency s))\<rparr>
                else s)
      in if cpu_host_metric s1 = None then s1
         else if key \<noteq> 0 \<and> prev_pid \<noteq> 0
         then
           let (ok, s2) = tg_entry (sf_prev f) key s1
           in if \<not> ok then s2
              else switch_in K (sf_delete f) (sf_next f) cpu now nxt (count_switch cpu key is_voluntary s2)
         else switch_in K (sf_delete f) (sf_next f) cpu now nxt s1)"

definition sched_process_exit_entry ::
  "'a task_kernel_scheme \<Rightarrow> map_fault \<Rightarrow> u64 \<Rightarrow> runqlat_state \<Rightarrow> runqlat_state" where
  "sched_process_exit_entry K f p s =
     (let pid = core_read (tk_pid K) p
      in if latency s pid \<noteq> None
         then s\<lparr>latency := snd (bpf_map_delete_elem f pid (latency s))\<rparr> else s)"

definition free_fair_sched_group_entry :: "map_fault \<Rightarrow> u64 \<Rightarrow> runqlat_state \<Rightarrow> runqlat_state" where
  "free_fair_sched_group_entry f tg s =
     (if cpu_tg_metric s tg \<noteq> None
      then s\<lparr>cpu_tg_metric := snd (bpf_map_delete_elem f tg (cpu_tg_metric s))\<rparr> else s)"

datatype runqlat_event =
    Rq_wakeup_new map_fault u64 u32
  | Rq_wakeup map_fault u64 u32
  | Rq_switch task_kernel switch_faults u32 u64 "nat \<Rightarrow> u64"
  | Rq_exit task_kernel map_fault u64
  | Rq_group_free map_fault u64

fun runqlat_step :: "runqlat_event \<Rightarrow> runqlat_state \<Rightarrow> runqlat_state" where
  "runqlat_step (Rq_wakeup_new f ts pid) s = sched_wakeup_new_entry f ts pid s"
| "runqlat_step (Rq_wakeup f ts pid) s = sched_wakeup_entry f ts pid s"
| "runqlat_step (Rq_switch K f cpu now args) s = sched_switch_entry K f cpu now args s"
| "runqlat_step (Rq_exit K f p) s = sched_process_exit_entry K f p s"
| "runqlat_step (Rq_group_free f tg) s = free_fair_sched_group_entry f tg s"

section \<open>Host and group metrics agree\<close>

text \<open>The pairs of a host counter and the group counter it aggregates.\<close>

definition metrics :: "((g_stat_t \<Rightarrow> u64) \<times> (stat_t \<Rightarrow> u64)) list" where
  "metrics = [(g_nvcsw, nvcsw), (g_nivcsw, nivcsw), (g_nlat_01, nlat_01), (g_nlat_02, nlat_02),
     (g_nlat_03, nlat_03), (g_nlat_04, nlat_04)]"

definition group_total :: "(stat_t \<Rightarrow> u64) \<Rightarrow> u32 \<Rightarrow> (u64 \<rightharpoonup> (u32 \<Rightarrow> stat_t)) \<Rightarrow> u64" where
  "group_total sel cpu m = (\<Sum>key \<in> dom m. sel (the (m key) cpu))"

text \<open>\<open>lost host sel cpu s\<close>: what the host counter has on top of the groups, modulo \<open>2^64\<close>.\<close>

definition lost :: "(g_stat_t \<Rightarrow> u64) \<Rightarrow> (stat_t \<Rightarrow> u64) \<Rightarrow> u32 \<Rightarrow> runqlat_state \<Rightarrow> u64" where
  "lost host sel cpu s =
     (case cpu_host_metric s of None \<Rightarrow> 0 | Some row \<Rightarrow> host (row cpu)) - group_total sel cpu (cpu_tg_metric s)"

definition agrees :: "runqlat_state \<Rightarrow> runqlat_state \<Rightarrow> bool" where
  "agrees s s' \<longleftrightarrow> (finite (dom (cpu_tg_metric s)) \<longrightarrow> cpu_host_metric s \<noteq> None \<longrightarrow>
     finite (dom (cpu_tg_metric s')) \<and> cpu_host_metric s' \<noteq> None \<and>
     (\<forall>(host, sel) \<in> set metrics. \<forall>cpu. lost host sel cpu s' = lost host sel cpu s))"

lemma agrees_refl [simp]: "agrees s s" by (simp add: agrees_def)

lemma agrees_trans: "agrees a b \<Longrightarrow> agrees b c \<Longrightarrow> agrees a c"
  unfolding agrees_def by fastforce

lemma agrees_same:
  "cpu_tg_metric s' = cpu_tg_metric s \<Longrightarrow> cpu_host_metric s' = cpu_host_metric s \<Longrightarrow> agrees s s'"
  by (auto simp: agrees_def lost_def)

lemma group_total_insert:
  "finite (dom m) \<Longrightarrow> m key = None \<Longrightarrow> group_total sel cpu (m(key \<mapsto> row)) = sel (row cpu) + group_total sel cpu m"
  unfolding group_total_def
  by (subst sum.cong [OF refl, of "dom m" "\<lambda>k. sel (the (m k) cpu)" "\<lambda>k. sel (the ((m(key \<mapsto> row)) k) cpu)"])
    (auto simp: domIff)

lemma group_total_update:
  assumes "finite (dom m)" "m key = Some row"
  shows "group_total sel cpu (m(key \<mapsto> row')) = group_total sel cpu m - sel (row cpu) + sel (row' cpu)"
proof -
  let ?m = "m(key := None)"
  have "group_total sel cpu m = sel (row cpu) + group_total sel cpu ?m"
    using group_total_insert [of ?m key sel cpu row] assms by (simp add: map_upd_triv)
  moreover have "group_total sel cpu (m(key \<mapsto> row')) = sel (row' cpu) + group_total sel cpu ?m"
    using group_total_insert [of ?m key sel cpu row'] assms(1) by simp
  ultimately show ?thesis by simp
qed

lemma metrics_zero: "(host, sel) \<in> set metrics \<Longrightarrow> sel zero_stat = 0"
  by (auto simp: metrics_def zero_stat_def)

lemma agrees_entry: "agrees s (snd (tg_entry f key s))"
proof (cases "cpu_tg_metric s key")
  case None
  show ?thesis
    by (rule bmap.update_cases [of f BPF_NOEXIST key "\<lambda>_. zero_stat" "cpu_tg_metric s"])
      (use None in \<open>auto simp: tg_entry_def agrees_def lost_def group_total_insert Let_def dest: metrics_zero\<close>)
qed (simp add: tg_entry_def)

text \<open>Two updates that advance every pair of counters together.\<close>

definition paired :: "(stat_t \<Rightarrow> stat_t) \<Rightarrow> (g_stat_t \<Rightarrow> g_stat_t) \<Rightarrow> bool" where
  "paired g h \<longleftrightarrow> (\<forall>(host, sel) \<in> set metrics. \<forall>x y. sel (g x) - sel x = host (h y) - host y)"

lemma agrees_entries:
  assumes "paired g h" and row: "cpu_tg_metric s key \<noteq> None"
  shows "agrees s (at_entries cpu key g h s)"
proof -
  obtain row where r: "cpu_tg_metric s key = Some row" using row by blast
  have "lost host sel c (at_entries cpu key g h s) = lost host sel c s"
    if "(host, sel) \<in> set metrics" "finite (dom (cpu_tg_metric s))" "cpu_host_metric s = Some hs" for host sel c hs
  proof -
    have "sel (g x) - sel x = host (h y) - host y" for x y
      using assms(1) that(1) unfolding paired_def by blast
    then have "host (h y) = host y + (sel (g x) - sel x)" for x y by (metis add.commute diff_add_cancel)
    from this [of "hs cpu" "row cpu"] show ?thesis
      using that(2,3) r by (auto simp: at_entries_def lost_def group_total_update)
  qed
  moreover have "dom (cpu_tg_metric (at_entries cpu key g h s)) = dom (cpu_tg_metric s)"
    using r by (auto simp: at_entries_def)
  ultimately show ?thesis
    unfolding agrees_def by (auto simp: at_entries_def)
qed

lemma tg_entry_ok: "fst (tg_entry f key s) \<Longrightarrow> cpu_tg_metric (snd (tg_entry f key s)) key \<noteq> None"
  by (auto simp: tg_entry_def Let_def split: if_splits)

lemma agrees_count_switch:
  "cpu_tg_metric s key \<noteq> None \<Longrightarrow> agrees s (count_switch cpu key v s)"
  unfolding count_switch_def by (auto intro!: agrees_entries simp: paired_def metrics_def)

lemma agrees_count_latency:
  "cpu_tg_metric s key \<noteq> None \<Longrightarrow> agrees s (count_latency cpu key delta s)"
  unfolding count_latency_def by (auto intro!: agrees_entries simp: paired_def metrics_def)

text \<open>An entry is looked up and, if there is one, counted into.\<close>

lemma agrees_entry_then:
  assumes "\<And>t. cpu_tg_metric t key \<noteq> None \<Longrightarrow> agrees t (g t)"
  shows "agrees s (let (ok, s2) = tg_entry f key s in if ok then g s2 else s2)"
proof -
  obtain ok s2 where e: "tg_entry f key s = (ok, s2)" by fastforce
  have "agrees s s2" using agrees_entry [of s f key] by (simp add: e)
  moreover have "agrees s2 (g s2)" if ok using assms tg_entry_ok [of f key s] that by (simp add: e)
  ultimately show ?thesis by (auto simp: e intro: agrees_trans)
qed

lemma agrees_switch_in: "agrees s (switch_in K f1 f2 cpu now nxt s)"
proof (cases "latency s (core_read (tk_pid K) nxt)")
  case (Some ts)
  let ?s1 = "s\<lparr>latency := snd (bpf_map_delete_elem f1 (core_read (tk_pid K) nxt) (latency s))\<rparr>"
  let ?key = "core_read (tk_sched_task_group K) nxt"
  have "agrees s ?s1" by (rule agrees_same) simp_all
  moreover have "agrees ?s1 (let (ok, s2) = tg_entry f2 ?key ?s1 in if ok then count_latency cpu ?key (now - ts) s2 else s2)"
    by (rule agrees_entry_then) (rule agrees_count_latency)
  ultimately show ?thesis using Some by (auto simp: switch_in_def Let_def intro: agrees_trans)
qed (simp add: switch_in_def Let_def)

lemma agrees_switch: "agrees s (sched_switch_entry K f cpu now args s)"
proof -
  let ?key = "core_read (tk_sched_task_group K) (args 1)" and ?pid = "core_read (tk_pid K) (args 1)"
  let ?v = "sched_task_state K (args 1) \<noteq> TASK_RUNNING"
  let ?in = "switch_in K (sf_delete f) (sf_next f) cpu now (args 2)"
  define s1 where "s1 = (if sched_task_state K (args 1) = TASK_RUNNING \<and> ?pid \<noteq> 0
      then s\<lparr>latency := snd (bpf_map_update_elem (sf_enqueue f) BPF_ANY ?pid now (latency s))\<rparr> else s)"
  have 1: "agrees s s1" by (rule agrees_same) (simp_all add: s1_def)
  have "agrees s1 (let (ok, s2) = tg_entry (sf_prev f) ?key s1 in if ok then ?in (count_switch cpu ?key ?v s2) else s2)"
    by (rule agrees_entry_then) (blast intro: agrees_trans agrees_count_switch agrees_switch_in)
  moreover have "(let (ok, s2) = tg_entry (sf_prev f) ?key s1 in if \<not> ok then s2 else ?in (count_switch cpu ?key ?v s2)) =
      (let (ok, s2) = tg_entry (sf_prev f) ?key s1 in if ok then ?in (count_switch cpu ?key ?v s2) else s2)"
    by (simp add: Let_def split: prod.split)
  moreover have "agrees s1 (?in s1)" by (rule agrees_switch_in)
  ultimately have "agrees s1 (sched_switch_entry K f cpu now args s)"
    unfolding sched_switch_entry_def Let_def s1_def [symmetric] by simp
  with 1 show ?thesis by (rule agrees_trans)
qed

fun group_kept :: "runqlat_event \<Rightarrow> bool" where
  "group_kept (Rq_group_free f tg) \<longleftrightarrow> False"
| "group_kept _ \<longleftrightarrow> True"

lemma agrees_step: "group_kept e \<Longrightarrow> agrees s (runqlat_step e s)"
  by (cases e)
    (auto simp: agrees_switch sched_wakeup_new_entry_def sched_wakeup_entry_def trace_enqueue_def
      sched_process_exit_entry_def Let_def intro: agrees_same)

lemma agrees_run: "list_all group_kept es \<Longrightarrow> agrees s (fold runqlat_step es s)"
proof (induction es arbitrary: s)
  case (Cons e es)
  then show ?case using agrees_trans [OF agrees_step [of e s] Cons.IH] by simp
qed simp

text \<open>C18. The host metric is the sum of its groups: while no task group is released, every run of
  wakeups, switches and exits, with any helper failures, keeps each host counter of each CPU
  equal to the sum of that counter over all task groups, modulo 2^64, if it was so at the
  start. Each switch and each latency sample is counted in both or in neither.\<close>

theorem host_is_group_sum:
  assumes "finite (dom (cpu_tg_metric s))" and "cpu_host_metric s = Some row"
    and "\<forall>(host, sel) \<in> set metrics. \<forall>cpu. host (row cpu) = group_total sel cpu (cpu_tg_metric s)"
    and "list_all group_kept es" and "s' = fold runqlat_step es s"
  shows "\<exists>row'. cpu_host_metric s' = Some row' \<and>
    (\<forall>(host, sel) \<in> set metrics. \<forall>cpu. host (row' cpu) = group_total sel cpu (cpu_tg_metric s'))"
proof -
  have a: "agrees s s'" using agrees_run [OF assms(4)] assms(5) by simp
  then obtain row' where r: "cpu_host_metric s' = Some row'"
    using assms(1,2) by (auto simp: agrees_def)
  have "host (row' cpu) = group_total sel cpu (cpu_tg_metric s')" if "(host, sel) \<in> set metrics" for host sel cpu
  proof -
    have "lost host sel cpu s' = lost host sel cpu s" using a assms(1,2) that unfolding agrees_def by blast
    moreover have "lost host sel cpu s = 0" using assms(2,3) that by (auto simp: lost_def)
    ultimately show ?thesis by (simp add: lost_def r)
  qed
  then show ?thesis using r by blast
qed

definition demo_run_tasks :: task_kernel where
  "demo_run_tasks = \<lparr>has_state = True, tk_state = [5 \<mapsto> 1, 6 \<mapsto> 0], tk___state = Map.empty,
     tk_pid = [5 \<mapsto> 50, 6 \<mapsto> 60], tk_sched_task_group = [5 \<mapsto> 500, 6 \<mapsto> 600]\<rparr>"

definition demo_runqlat :: runqlat_state where
  "demo_runqlat = \<lparr>latency = Map.empty, cpu_tg_metric = Map.empty,
     cpu_host_metric = Some (\<lambda>_. \<lparr>g_nvcsw = 0, g_nivcsw = 0, g_nlat_01 = 0, g_nlat_02 = 0, g_nlat_03 = 0, g_nlat_04 = 0\<rparr>)\<rparr>"

definition demo_run :: "runqlat_event list" where
  "demo_run = [Rq_wakeup Fault_none 10 60,
     Rq_switch demo_run_tasks \<lparr>sf_enqueue = Fault_none, sf_prev = Fault_none, sf_delete = Fault_none, sf_next = Fault_none\<rparr>
       0 100 ((\<lambda>_. 0)(1 := 5, 2 := 6))]"

theorem host_is_group_sum_witness:
  "\<exists>row. cpu_host_metric (fold runqlat_step demo_run demo_runqlat) = Some row \<and>
     g_nlat_01 (row 0) = group_total nlat_01 0 (cpu_tg_metric (fold runqlat_step demo_run demo_runqlat))"
  using host_is_group_sum [of demo_runqlat _ demo_run, OF _ _ _ _ refl]
  by (fastforce simp: demo_runqlat_def demo_run_def metrics_def group_total_def)

end
