(* ===== verification/Sched_Blame.thy ===== *)
theory Sched_Blame
  imports Bpf_Prelude
begin

text \<open>
  \<^verbatim>\<open>bpf/sched_blame.c\<close> with \<^verbatim>\<open>abi/sched_blame_types.h\<close>: which target cgroups wait on a CPU while
  another cgroup runs there. The arrays of the object are functions of the masked index the
  code uses. \<open>X\<close> is the compile-time \<^verbatim>\<open>EXTRA_BITMAP_U64_COUNT\<close>, at most three. The results
  of \<^verbatim>\<open>bpf_perf_event_output\<close> are arguments, and every submission is logged in \<open>perf_log\<close>
  with its result.
\<close>

section \<open>Model\<close>

record waiting_target_bitmap =
  bitmap_base :: u32
  bitmap_extra :: "u64 list"

record sched_blame_packed_slice =
  packed_base :: u64
  slice_extra :: "u64 list"

record sched_blame_slice_batch_event =
  b_magic :: u16
  extra_bitmap_u64_count :: u16
  b_count :: u32
  packed_slices :: "sched_blame_packed_slice list"

record sched_blame_identity_event =
  i_magic :: u16
  i_css_id :: u16
  i_cgid :: u64

record sched_blame_throttle_event =
  t_magic :: u16
  t_dense_id :: u16
  t_duration_ns :: u32

datatype perf_record =
    Identity sched_blame_identity_event
  | Throttle sched_blame_throttle_event
  | Batch nat sched_blame_slice_batch_event

datatype sb_counter =
    N_perf_submission_failures | N_perf_submission_failed_slices
  | N_throttle_event_submission_failures | N_slice_probability_drops | N_idle_drops
  | N_sampled_slices | N_cpu_overflow | N_css_overflow | N_duration_overflow
  | N_throttle_duration_overflow | N_invalid_throttle_duration | N_invalid_runnable_nr
  | N_invalid_target_dense_id

record sched_blame_state =
  target_css_id_epoch :: u32
  target_cgid_to_dense :: "u64 \<rightharpoonup> u8"
  slice_batches_percpu :: "u32 \<Rightarrow> sched_blame_slice_batch_event option"
  counters :: "sb_counter \<Rightarrow> u32 \<Rightarrow> u64 option"
  css_id_to_dense_id :: "u64 \<Rightarrow> u64"
  waiting_target_bitmap_by_cpu :: "u64 \<Rightarrow> waiting_target_bitmap"
  waiting_epoch_by_cpu :: "u64 \<Rightarrow> u32"
  observed_identity :: "u64 \<Rightarrow> u64"
  previous_switch_ns_by_cpu :: "u64 \<Rightarrow> u64"
  batch_first_ts_ns_by_cpu :: "u64 \<Rightarrow> u64"
  running_css_id_by_cpu :: "u64 \<Rightarrow> u32"
  unthrottle_entry_cfs_rq_by_cpu :: "u64 \<Rightarrow> u64"
  perf_log :: "(u64 \<times> perf_record \<times> int) list"

record sched_blame_config =
  SLICE_KEEP_THRESHOLD :: u32
  KEEP_ALL_SLICES :: u32
  SLICE_BATCH_SIZE :: u32

record sched_kernel =
  has_task_state :: bool
  has_task_cpu :: bool
  has_thread_info_cpu :: bool
  k_sched_task_group :: "u64 \<Rightarrow> u64 option"
  k_css_id :: "u64 \<Rightarrow> u32 option"
  k_pid :: "u64 \<Rightarrow> u32 option"
  k_state :: "u64 \<Rightarrow> u64 option"
  k_state_514 :: "u64 \<Rightarrow> u32 option"
  k_task_cpu :: "u64 \<Rightarrow> u32 option"
  k_thread_info_cpu :: "u64 \<Rightarrow> u32 option"
  k_se_cfs_rq :: "u64 \<Rightarrow> u64 option"
  k_h_nr_running :: "u64 \<Rightarrow> u32 option"
  k_throttled :: "u64 \<Rightarrow> u32 option"
  k_cfs_rq_rq :: "u64 \<Rightarrow> u64 option"
  k_cfs_rq_tg :: "u64 \<Rightarrow> u64 option"
  k_rq_cpu :: "u64 \<Rightarrow> u32 option"
  k_rq_clock :: "u64 \<Rightarrow> u64 option"
  k_throttled_clock :: "u64 \<Rightarrow> u64 option"

abbreviation (input) "MAX_CPUS \<equiv> 512 :: u32"
abbreviation (input) "MAX_CSS_IDS \<equiv> 4096 :: u32"
abbreviation (input) "BASE_BITMAP_BITS \<equiv> 20 :: u32"
abbreviation (input) "NON_TARGET \<equiv> 0xff :: u32"
abbreviation (input) "MAX_DURATION_NS \<equiv> 0xffffffff :: u64"
abbreviation (input) "MAX_SLICES_PER_BATCH \<equiv> 128 :: u32"
abbreviation (input) "SLICE_BATCH_MAX_AGE_NS \<equiv> 10000000 :: u64"

definition MAX_TARGETS :: "nat \<Rightarrow> u32" where
  "MAX_TARGETS X = BASE_BITMAP_BITS + 64 * of_nat X"

text \<open>The \<^verbatim>\<open>asm volatile\<close> masks that bound the array indexes.\<close>

definition cpu_mask :: "u64 \<Rightarrow> u64" where "cpu_mask i = i AND 511"
definition css_mask :: "u64 \<Rightarrow> u64" where "css_mask i = i AND 4095"

definition count_add :: "sb_counter \<Rightarrow> u32 \<Rightarrow> u64 \<Rightarrow> sched_blame_state \<Rightarrow> sched_blame_state" where
  "count_add n cpu delta s =
     s\<lparr>counters := (counters s)(n := (counters s n)(cpu := map_option (\<lambda>v. v + delta) (counters s n cpu)))\<rparr>"

definition count :: "sb_counter \<Rightarrow> u32 \<Rightarrow> sched_blame_state \<Rightarrow> sched_blame_state" where
  "count n cpu s = count_add n cpu 1 s"

definition pack_slice ::
  "u32 \<Rightarrow> u64 \<Rightarrow> waiting_target_bitmap \<Rightarrow> u64 \<Rightarrow> sched_blame_state \<Rightarrow>
     sched_blame_packed_slice \<times> sched_blame_state" where
  "pack_slice cpu duration_ns snapshot css_index s =
     (let (duration, s1) = (if duration_ns > MAX_DURATION_NS
                            then (MAX_DURATION_NS, count N_duration_overflow cpu s)
                            else (duration_ns, s))
      in (\<lparr>packed_base = push_bit 32 duration OR
             push_bit 12 (ucast (bitmap_base snapshot AND (push_bit 20 1 - 1))) OR css_index,
           slice_extra = bitmap_extra snapshot\<rparr>, s1))"

definition snapshot_waiting_targets :: "u64 \<Rightarrow> sched_blame_state \<Rightarrow> waiting_target_bitmap" where
  "snapshot_waiting_targets cpu_index s = waiting_target_bitmap_by_cpu s (cpu_mask cpu_index)"

definition task_group_of :: "sched_kernel \<Rightarrow> u64 \<Rightarrow> u64" where
  "task_group_of K task = core_read (k_sched_task_group K) task"

definition task_group_css_id :: "sched_kernel \<Rightarrow> u64 \<Rightarrow> u32" where
  "task_group_css_id K tg = core_read (k_css_id K) tg"

definition task_pid :: "sched_kernel \<Rightarrow> u64 \<Rightarrow> u32" where
  "task_pid K task = core_read (k_pid K) task"

definition task_state :: "sched_kernel \<Rightarrow> u64 \<Rightarrow> u64" where
  "task_state K task =
     (if has_task_state K then core_read (k_state K) task else ucast (core_read (k_state_514 K) task))"

definition task_is_runnable :: "sched_kernel \<Rightarrow> u64 \<Rightarrow> bool" where
  "task_is_runnable K task \<longleftrightarrow> task_state K task = 0"

definition task_cpu :: "sched_kernel \<Rightarrow> u32 \<Rightarrow> u64 \<Rightarrow> u32" where
  "task_cpu K this_cpu task =
     (if has_task_cpu K then core_read (k_task_cpu K) task
      else if has_thread_info_cpu K then core_read (k_thread_info_cpu K) task
      else this_cpu)"

definition task_cfs_h_nr_running :: "sched_kernel \<Rightarrow> u64 \<Rightarrow> u32" where
  "task_cfs_h_nr_running K task =
     (let cfs_rq = core_read (k_se_cfs_rq K) task
      in if cfs_rq = 0 then 0 else core_read (k_h_nr_running K) cfs_rq)"

definition task_cfs_rq_is_throttled :: "sched_kernel \<Rightarrow> u64 \<Rightarrow> bool" where
  "task_cfs_rq_is_throttled K task =
     (let cfs_rq = core_read (k_se_cfs_rq K) task
      in if cfs_rq = 0 then False else core_read (k_throttled K) cfs_rq \<noteq> 0)"

definition pack_dense_id_cache :: "u32 \<Rightarrow> u8 \<Rightarrow> u64" where
  "pack_dense_id_cache epoch dense_id = push_bit 32 (ucast epoch) OR ucast dense_id"

definition cache_epoch :: "u64 \<Rightarrow> u32" where
  "cache_epoch cached = ucast (drop_bit 32 cached)"

definition cache_dense_id :: "u64 \<Rightarrow> u8" where
  "cache_dense_id cached = ucast (cached AND 0xff)"

definition ensure_waiting_bitmap_epoch ::
  "nat \<Rightarrow> u64 \<Rightarrow> u32 \<Rightarrow> sched_blame_state \<Rightarrow> sched_blame_state" where
  "ensure_waiting_bitmap_epoch X cpu_index epoch s =
     (let c = cpu_mask cpu_index
      in if waiting_epoch_by_cpu s c = epoch then s
         else s\<lparr>waiting_target_bitmap_by_cpu := (waiting_target_bitmap_by_cpu s)
                  (c := \<lparr>bitmap_base = 0, bitmap_extra = replicate X 0\<rparr>),
                waiting_epoch_by_cpu := (waiting_epoch_by_cpu s)(c := epoch)\<rparr>)"

definition resolve_target_dense_id ::
  "nat \<Rightarrow> u32 \<Rightarrow> u64 \<Rightarrow> u64 \<Rightarrow> u32 \<Rightarrow> sched_blame_state \<Rightarrow> u32 \<times> sched_blame_state" where
  "resolve_target_dense_id X cpu cgid css_index epoch s =
     (let i = css_mask css_index; cached = css_id_to_dense_id s i
      in if cache_epoch cached = epoch then (ucast (cache_dense_id cached), s)
         else
           let (dense_id, s1) =
             (case target_cgid_to_dense s cgid of
                None \<Rightarrow> (ucast NON_TARGET, s)
              | Some mapped \<Rightarrow>
                  if ucast mapped \<ge> MAX_TARGETS X
                  then (ucast NON_TARGET, count N_invalid_target_dense_id cpu s)
                  else (mapped, s))
           in (ucast dense_id, s1\<lparr>css_id_to_dense_id :=
                 (css_id_to_dense_id s1)(i := pack_dense_id_cache epoch dense_id)\<rparr>))"

definition put_bit :: "bool \<Rightarrow> 'a::len word \<Rightarrow> 'a word \<Rightarrow> 'a word" where
  "put_bit waiting m w = (if waiting then w OR m else w AND NOT m)"

definition put_extra ::
  "u64 \<Rightarrow> nat \<Rightarrow> bool \<Rightarrow> u32 \<Rightarrow> sched_blame_state \<Rightarrow> sched_blame_state" where
  "put_extra c i waiting d s =
     (let w = waiting_target_bitmap_by_cpu s c
      in s\<lparr>waiting_target_bitmap_by_cpu := (waiting_target_bitmap_by_cpu s)
           (c := w\<lparr>bitmap_extra := (bitmap_extra w)
                     [i := put_bit waiting (push_bit (unat d) 1) (bitmap_extra w ! i)]\<rparr>)\<rparr>)"

definition set_waiting ::
  "nat \<Rightarrow> u32 \<Rightarrow> u64 \<Rightarrow> u32 \<Rightarrow> bool \<Rightarrow> bool \<Rightarrow> sched_blame_state \<Rightarrow> sched_blame_state" where
  "set_waiting X cpu cpu_index dense_id waiting0 cfs_rq_is_throttled s =
     (if dense_id \<ge> MAX_TARGETS X then count N_invalid_target_dense_id cpu s
      else
        let c = cpu_mask cpu_index;
            waiting = (if cfs_rq_is_throttled then False else waiting0)
        in if dense_id < BASE_BITMAP_BITS
           then
             let w = waiting_target_bitmap_by_cpu s c
             in s\<lparr>waiting_target_bitmap_by_cpu := (waiting_target_bitmap_by_cpu s)
                  (c := w\<lparr>bitmap_base := put_bit waiting (push_bit (unat dense_id) 1) (bitmap_base w)\<rparr>)\<rparr>
           else if X > 0
           then
             let d = dense_id - BASE_BITMAP_BITS
             in if d < 64 then put_extra c 0 waiting d s
                else if X > 1
                then
                  let d1 = d - 64
                  in if d1 < 64 then put_extra c 1 waiting d1 s
                     else if X > 2 then put_extra c 2 waiting (d1 - 64) s
                     else s
                else s
           else s)"

definition set_running_css_id :: "u64 \<Rightarrow> u64 \<Rightarrow> sched_blame_state \<Rightarrow> sched_blame_state" where
  "set_running_css_id cpu_index css_index s =
     s\<lparr>running_css_id_by_cpu := (running_css_id_by_cpu s)
        (cpu_mask cpu_index := ucast (css_mask css_index) + 1)\<rparr>"

definition clear_running_css_id :: "u64 \<Rightarrow> sched_blame_state \<Rightarrow> sched_blame_state" where
  "clear_running_css_id cpu_index s =
     s\<lparr>running_css_id_by_cpu := (running_css_id_by_cpu s)(cpu_mask cpu_index := 0)\<rparr>"

definition cpu_is_running_css_id :: "u64 \<Rightarrow> u64 \<Rightarrow> sched_blame_state \<Rightarrow> bool" where
  "cpu_is_running_css_id cpu_index css_index s \<longleftrightarrow>
     running_css_id_by_cpu s (cpu_mask cpu_index) = ucast (css_mask css_index) + 1"

definition perf_output :: "u64 \<Rightarrow> perf_record \<Rightarrow> int \<Rightarrow> sched_blame_state \<Rightarrow> sched_blame_state" where
  "perf_output cpu_index r res s = s\<lparr>perf_log := perf_log s @ [(cpu_index, r, res)]\<rparr>"

definition maybe_emit_identity ::
  "u64 \<Rightarrow> u64 \<Rightarrow> u64 \<Rightarrow> int \<Rightarrow> sched_blame_state \<Rightarrow> sched_blame_state" where
  "maybe_emit_identity event_cpu_index tg css_index0 res s =
     (if tg = 0 then s
      else
        let css_index = css_mask css_index0
        in if observed_identity s css_index = tg then s
           else
             let s1 = perf_output (cpu_mask event_cpu_index)
                        (Identity \<lparr>i_magic = 0x1111, i_css_id = ucast css_index, i_cgid = tg\<rparr>) res s
             in if res < 0 then s1
                else s1\<lparr>observed_identity := (observed_identity s1)(css_index := tg)\<rparr>)"

definition emit_throttle_event ::
  "u32 \<Rightarrow> u64 \<Rightarrow> u32 \<Rightarrow> u64 \<Rightarrow> int \<Rightarrow> sched_blame_state \<Rightarrow> sched_blame_state" where
  "emit_throttle_event cpu event_cpu_index dense_id duration_ns res s =
     (let (duration, s1) = (if duration_ns > MAX_DURATION_NS
                            then (MAX_DURATION_NS, count N_throttle_duration_overflow cpu s)
                            else (duration_ns, s));
          s2 = perf_output (cpu_mask event_cpu_index)
                 (Throttle \<lparr>t_magic = 0x2222, t_dense_id = ucast dense_id, t_duration_ns = ucast duration\<rparr>) res s1
      in if res < 0 then count N_throttle_event_submission_failures cpu s2 else s2)"

definition slice_batch_capacity :: "u32 \<Rightarrow> nat" where
  "slice_batch_capacity n =
     (if n \<le> 1 then 1 else if n \<le> 2 then 2 else if n \<le> 4 then 4 else if n \<le> 8 then 8
      else if n \<le> 16 then 16 else if n \<le> 32 then 32 else if n \<le> 64 then 64 else 128)"

definition SLICE_BATCH_OUTPUT_SIZE :: "nat \<Rightarrow> nat \<Rightarrow> nat" where
  "SLICE_BATCH_OUTPUT_SIZE X capacity = 2 * 2 + 4 + 8 * (1 + X) * capacity"

definition output_slice_batch ::
  "nat \<Rightarrow> u64 \<Rightarrow> sched_blame_slice_batch_event \<Rightarrow> u32 \<Rightarrow> int \<Rightarrow> sched_blame_state \<Rightarrow> sched_blame_state" where
  "output_slice_batch X cpu_index batch n res s =
     perf_output cpu_index (Batch (SLICE_BATCH_OUTPUT_SIZE X (slice_batch_capacity n)) batch) res s"

definition put_batch :: "u32 \<Rightarrow> sched_blame_slice_batch_event \<Rightarrow> sched_blame_state \<Rightarrow> sched_blame_state" where
  "put_batch cpu b s = s\<lparr>slice_batches_percpu := (slice_batches_percpu s)(cpu := Some b)\<rparr>"

definition emit_slice_batch ::
  "nat \<Rightarrow> u32 \<Rightarrow> u64 \<Rightarrow> sched_blame_slice_batch_event \<Rightarrow> int \<Rightarrow> sched_blame_state \<Rightarrow> sched_blame_state" where
  "emit_slice_batch X cpu cpu_index batch res s =
     (let submitted = b_count batch
      in if submitted = 0 \<or> submitted > MAX_SLICES_PER_BATCH then s
         else
           let c = cpu_mask cpu_index;
               s1 = output_slice_batch X c batch submitted res s;
               s2 = put_batch cpu (batch\<lparr>b_count := 0\<rparr>) s1;
               s3 = s2\<lparr>batch_first_ts_ns_by_cpu := (batch_first_ts_ns_by_cpu s2)(c := 0)\<rparr>
           in if res < 0
              then count_add N_perf_submission_failed_slices cpu (ucast submitted)
                     (count N_perf_submission_failures cpu s3)
              else s3)"

definition flush_slice_batch_if_aged ::
  "nat \<Rightarrow> u32 \<Rightarrow> u64 \<Rightarrow> u64 \<Rightarrow> int \<Rightarrow> sched_blame_state \<Rightarrow> sched_blame_state" where
  "flush_slice_batch_if_aged X cpu cpu_index now res s =
     (let first = batch_first_ts_ns_by_cpu s (cpu_mask cpu_index)
      in if first = 0 \<or> now - first < SLICE_BATCH_MAX_AGE_NS then s
         else case slice_batches_percpu s cpu of
                None \<Rightarrow> s
              | Some batch \<Rightarrow> emit_slice_batch X cpu cpu_index batch res s)"

definition slice_batch_size :: "sched_blame_config \<Rightarrow> u32" where
  "slice_batch_size cfg =
     (let n = SLICE_BATCH_SIZE cfg; n1 = (if n < 1 then 1 else n)
      in if n1 > MAX_SLICES_PER_BATCH then MAX_SLICES_PER_BATCH else n1)"

definition append_sampled_slice ::
  "sched_blame_config \<Rightarrow> nat \<Rightarrow> u32 \<Rightarrow> u64 \<Rightarrow> u64 \<Rightarrow> sched_blame_packed_slice \<Rightarrow> int \<Rightarrow> int \<Rightarrow>
     sched_blame_state \<Rightarrow> sched_blame_state" where
  "append_sampled_slice cfg X cpu cpu_index now packed res_over res_full s =
     (case slice_batches_percpu s cpu of
        None \<Rightarrow> s
      | Some batch0 \<Rightarrow>
          let (batch, index0, s1) =
                (if b_count batch0 \<ge> MAX_SLICES_PER_BATCH
                 then let s1 = emit_slice_batch X cpu cpu_index batch0 res_over s
                      in (case slice_batches_percpu s1 cpu of Some b \<Rightarrow> b | None \<Rightarrow> batch0, 0, s1)
                 else (batch0, b_count batch0, s));
              index = index0 AND 127;
              (batch1, s2) =
                (if index = 0
                 then (batch\<lparr>b_magic := 0x3333, extra_bitmap_u64_count := of_nat X\<rparr>,
                       s1\<lparr>batch_first_ts_ns_by_cpu :=
                            (batch_first_ts_ns_by_cpu s1)(cpu_mask cpu_index := now)\<rparr>)
                 else (batch, s1));
              batch2 = batch1\<lparr>packed_slices := (packed_slices batch1)[unat index := packed],
                              b_count := index + 1\<rparr>;
              s3 = put_batch cpu batch2 s2
          in if b_count batch2 \<ge> slice_batch_size cfg
             then emit_slice_batch X cpu cpu_index batch2 res_full s3
             else s3)"

definition keep_slice :: "sched_blame_config \<Rightarrow> u32 \<Rightarrow> bool" where
  "keep_slice cfg random = (if KEEP_ALL_SLICES cfg \<noteq> 0 then True else random < SLICE_KEEP_THRESHOLD cfg)"

section \<open>Probes\<close>

record switch_results =
  r_flush :: int
  r_prev_identity :: int
  r_next_identity :: int
  r_batch_over :: int
  r_batch_full :: int

text \<open>The identity part of a switch for one of its tasks: its css id (zero without a group) and
  the state after a possible identity event.\<close>

definition switch_identity ::
  "sched_kernel \<Rightarrow> u32 \<Rightarrow> u64 \<Rightarrow> u64 \<Rightarrow> int \<Rightarrow> sched_blame_state \<Rightarrow> u32 \<times> sched_blame_state" where
  "switch_identity K cpu cpu_index tg res s =
     (if tg = 0 then (0, s)
      else
        let css_id = task_group_css_id K tg
        in if css_id \<ge> MAX_CSS_IDS then (css_id, count N_css_overflow cpu s)
           else (css_id, maybe_emit_identity cpu_index tg (css_mask (ucast css_id)) res s))"

text \<open>The slice of the interval in which the previous task ran.\<close>

definition switch_slice ::
  "sched_blame_config \<Rightarrow> nat \<Rightarrow> u32 \<Rightarrow> u64 \<Rightarrow> u64 \<Rightarrow> u64 \<Rightarrow> u32 \<Rightarrow> u64 \<Rightarrow> u32 \<Rightarrow> u32 \<Rightarrow>
     switch_results \<Rightarrow> sched_blame_state \<Rightarrow> sched_blame_state" where
  "switch_slice cfg X cpu cpu_index now prev_start_ns prev_pid prev_tg prev_css_id random rs s =
     (if prev_start_ns = 0 then s
      else if prev_pid = 0 then count N_idle_drops cpu s
      else if prev_tg \<noteq> 0 \<and> prev_css_id < MAX_CSS_IDS
      then if \<not> keep_slice cfg random then count N_slice_probability_drops cpu s
           else
             let (packed, s1) = pack_slice cpu (now - prev_start_ns)
                   (snapshot_waiting_targets cpu_index s) (css_mask (ucast prev_css_id)) s
             in append_sampled_slice cfg X cpu cpu_index now packed (r_batch_over rs) (r_batch_full rs)
                  (count N_sampled_slices cpu s1)
      else s)"

text \<open>The waiting state for the interval in which the next task runs.\<close>

definition switch_waiting_prev ::
  "sched_kernel \<Rightarrow> nat \<Rightarrow> u32 \<Rightarrow> u64 \<Rightarrow> u32 \<Rightarrow> u64 \<Rightarrow> u64 \<Rightarrow> u32 \<Rightarrow> sched_blame_state \<Rightarrow> sched_blame_state" where
  "switch_waiting_prev K X cpu cpu_index epoch prev prev_tg prev_css_id s =
     (if prev_tg \<noteq> 0 \<and> prev_css_id < MAX_CSS_IDS
      then
        let (dense_id, s1) = resolve_target_dense_id X cpu prev_tg (css_mask (ucast prev_css_id)) epoch s
        in if dense_id \<noteq> NON_TARGET
           then set_waiting X cpu cpu_index dense_id (task_cfs_h_nr_running K prev \<ge> 1)
                  (task_cfs_rq_is_throttled K prev) s1
           else s1
      else s)"

definition switch_waiting_next ::
  "sched_kernel \<Rightarrow> nat \<Rightarrow> u32 \<Rightarrow> u64 \<Rightarrow> u32 \<Rightarrow> u64 \<Rightarrow> u64 \<Rightarrow> u32 \<Rightarrow> sched_blame_state \<Rightarrow> sched_blame_state" where
  "switch_waiting_next K X cpu cpu_index epoch task next_tg next_css_id s =
     (if next_tg \<noteq> 0 \<and> next_css_id < MAX_CSS_IDS
      then
        let (dense_id, s1) = resolve_target_dense_id X cpu next_tg (css_mask (ucast next_css_id)) epoch s;
            s2 = (if dense_id \<noteq> NON_TARGET
                  then set_waiting X cpu cpu_index dense_id (task_cfs_h_nr_running K task \<ge> 2) False s1
                  else s1)
        in set_running_css_id cpu_index (css_mask (ucast next_css_id)) s2
      else s)"

definition on_sched_switch ::
  "sched_blame_config \<Rightarrow> nat \<Rightarrow> sched_kernel \<Rightarrow> u32 \<Rightarrow> u64 \<Rightarrow> u64 \<Rightarrow> u64 \<Rightarrow> u32 \<Rightarrow> switch_results \<Rightarrow>
     sched_blame_state \<Rightarrow> sched_blame_state" where
  "on_sched_switch cfg X K cpu now prev task random rs s =
     (if cpu \<ge> MAX_CPUS then count N_cpu_overflow cpu s
      else
        let cpu_index = cpu_mask (ucast cpu);
            epoch = target_css_id_epoch s;
            s1 = ensure_waiting_bitmap_epoch X cpu_index epoch s;
            prev_start_ns = previous_switch_ns_by_cpu s1 cpu_index;
            s2 = s1\<lparr>previous_switch_ns_by_cpu := (previous_switch_ns_by_cpu s1)(cpu_index := now)\<rparr>;
            s3 = flush_slice_batch_if_aged X cpu cpu_index now (r_flush rs) s2;
            prev_pid = task_pid K prev;
            next_pid = task_pid K task;
            prev_tg = (if prev_pid = 0 then 0 else task_group_of K prev);
            next_tg = (if next_pid = 0 then 0 else task_group_of K task);
            (prev_css_id, s4) = switch_identity K cpu cpu_index prev_tg (r_prev_identity rs) s3;
            (next_css_id, s5) = switch_identity K cpu cpu_index next_tg (r_next_identity rs) s4;
            s6 = switch_slice cfg X cpu cpu_index now prev_start_ns prev_pid prev_tg prev_css_id random rs s5;
            s7 = switch_waiting_prev K X cpu cpu_index epoch prev prev_tg prev_css_id s6;
            s8 = clear_running_css_id cpu_index s7
        in switch_waiting_next K X cpu cpu_index epoch task next_tg next_css_id s8)"

definition update_wakeup_waiting ::
  "nat \<Rightarrow> sched_kernel \<Rightarrow> u32 \<Rightarrow> u64 \<Rightarrow> u64 \<Rightarrow> int \<Rightarrow> sched_blame_state \<Rightarrow> sched_blame_state" where
  "update_wakeup_waiting X K event_cpu current_task task res s =
     (let dst_cpu = task_cpu K event_cpu task
      in if event_cpu \<ge> MAX_CPUS \<or> dst_cpu \<ge> MAX_CPUS then count N_cpu_overflow event_cpu s
         else if \<not> task_is_runnable K task then s
         else if task = current_task then s
         else
           let tg = task_group_of K task
           in if tg = 0 then s
              else
                let css_id = task_group_css_id K tg
                in if css_id \<ge> MAX_CSS_IDS then count N_css_overflow event_cpu s
                   else
                     let event_cpu_index = cpu_mask (ucast event_cpu);
                         dst_cpu_index = cpu_mask (ucast dst_cpu);
                         css_index = css_mask (ucast css_id);
                         epoch = target_css_id_epoch s;
                         s1 = ensure_waiting_bitmap_epoch X dst_cpu_index epoch s;
                         s2 = maybe_emit_identity event_cpu_index tg css_index res s1;
                         (dense_id, s3) = resolve_target_dense_id X event_cpu tg css_index epoch s2
                     in if dense_id = NON_TARGET then s3
                        else
                          let runnable_nr = task_cfs_h_nr_running K task
                          in if runnable_nr = 0 then count N_invalid_runnable_nr event_cpu s3
                             else
                               let waiting_nr = (if cpu_is_running_css_id dst_cpu_index css_index s3
                                                 then runnable_nr - 1 else runnable_nr)
                               in set_waiting X event_cpu dst_cpu_index dense_id (waiting_nr \<ge> 1)
                                    (task_cfs_rq_is_throttled K task) s3)"

definition on_sched_wakeup ::
  "nat \<Rightarrow> sched_kernel \<Rightarrow> u32 \<Rightarrow> u64 \<Rightarrow> u64 \<Rightarrow> int \<Rightarrow> sched_blame_state \<Rightarrow> sched_blame_state" where
  "on_sched_wakeup X K event_cpu current_task task res s =
     update_wakeup_waiting X K event_cpu current_task task res s"

definition on_sched_wakeup_new ::
  "nat \<Rightarrow> sched_kernel \<Rightarrow> u32 \<Rightarrow> u64 \<Rightarrow> u64 \<Rightarrow> int \<Rightarrow> sched_blame_state \<Rightarrow> sched_blame_state" where
  "on_sched_wakeup_new X K event_cpu current_task task res s =
     update_wakeup_waiting X K event_cpu current_task task res s"

definition on_sched_migrate_task ::
  "nat \<Rightarrow> sched_kernel \<Rightarrow> u32 \<Rightarrow> u64 \<Rightarrow> u32 \<Rightarrow> sched_blame_state \<Rightarrow> sched_blame_state" where
  "on_sched_migrate_task X K this_cpu task dst_cpu s =
     (if \<not> task_is_runnable K task then s
      else
        let src_cpu = task_cpu K this_cpu task
        in if src_cpu \<ge> MAX_CPUS \<or> dst_cpu \<ge> MAX_CPUS then count N_cpu_overflow this_cpu s
           else
             let tg = task_group_of K task
             in if tg = 0 then s
                else
                  let css_id = task_group_css_id K tg
                  in if css_id \<ge> MAX_CSS_IDS then count N_css_overflow this_cpu s
                     else
                       let src_cpu_index = cpu_mask (ucast src_cpu);
                           css_index = css_mask (ucast css_id);
                           epoch = target_css_id_epoch s;
                           s1 = ensure_waiting_bitmap_epoch X src_cpu_index epoch s;
                           (dense_id, s2) = resolve_target_dense_id X this_cpu tg css_index epoch s1
                       in if dense_id = NON_TARGET then s2
                          else
                            let runnable_nr = task_cfs_h_nr_running K task;
                                waiting_nr = (if cpu_is_running_css_id src_cpu_index css_index s2
                                              then runnable_nr - 1 else runnable_nr)
                            in set_waiting X this_cpu src_cpu_index dense_id (waiting_nr \<ge> 1)
                                 (task_cfs_rq_is_throttled K task) s2)"

definition on_unthrottle_cfs_rq_entry :: "u32 \<Rightarrow> u64 \<Rightarrow> sched_blame_state \<Rightarrow> sched_blame_state" where
  "on_unthrottle_cfs_rq_entry event_cpu cfs_rq s =
     (if event_cpu \<ge> MAX_CPUS then count N_cpu_overflow event_cpu s
      else s\<lparr>unthrottle_entry_cfs_rq_by_cpu :=
             (unthrottle_entry_cfs_rq_by_cpu s)(cpu_mask (ucast event_cpu) := cfs_rq)\<rparr>)"

definition on_unthrottle_cfs_rq_return ::
  "nat \<Rightarrow> sched_kernel \<Rightarrow> u32 \<Rightarrow> int \<Rightarrow> sched_blame_state \<Rightarrow> sched_blame_state" where
  "on_unthrottle_cfs_rq_return X K event_cpu res s =
     (if event_cpu \<ge> MAX_CPUS then count N_cpu_overflow event_cpu s
      else
        let event_cpu_index = cpu_mask (ucast event_cpu);
            cfs_rq = unthrottle_entry_cfs_rq_by_cpu s event_cpu_index;
            s0 = s\<lparr>unthrottle_entry_cfs_rq_by_cpu :=
                   (unthrottle_entry_cfs_rq_by_cpu s)(event_cpu_index := 0)\<rparr>
        in if cfs_rq = 0 \<or> core_read (k_throttled K) cfs_rq \<noteq> 0 then s0
           else
             let rq = core_read (k_cfs_rq_rq K) cfs_rq; tg = core_read (k_cfs_rq_tg K) cfs_rq
             in if rq = 0 \<or> tg = 0 then s0
                else
                  let target_cpu = core_read (k_rq_cpu K) rq
                  in if target_cpu \<ge> MAX_CPUS then count N_cpu_overflow event_cpu s0
                     else
                       let css_id = task_group_css_id K tg
                       in if css_id \<ge> MAX_CSS_IDS then count N_css_overflow event_cpu s0
                          else
                            let target_cpu_index = cpu_mask (ucast target_cpu);
                                css_index = css_mask (ucast css_id);
                                epoch = target_css_id_epoch s0;
                                s1 = ensure_waiting_bitmap_epoch X target_cpu_index epoch s0;
                                (dense_id, s2) = resolve_target_dense_id X event_cpu tg css_index epoch s1
                            in if dense_id = NON_TARGET then s2
                               else
                                 let s3 = set_waiting X event_cpu target_cpu_index dense_id
                                            (core_read (k_h_nr_running K) cfs_rq \<ge> 1) False s2;
                                     end_clock = core_read (k_rq_clock K) rq;
                                     start_clock = core_read (k_throttled_clock K) cfs_rq
                                 in if end_clock < start_clock
                                    then count N_invalid_throttle_duration event_cpu s3
                                    else emit_throttle_event event_cpu event_cpu_index dense_id
                                           (end_clock - start_clock) res s3)"

text \<open>One firing of a probe, or user space publishing a new set of targets.\<close>

datatype sched_event =
    Switch sched_kernel u32 u64 u64 u64 u32 switch_results
  | Wakeup sched_kernel u32 u64 u64 int
  | Wakeup_new sched_kernel u32 u64 u64 int
  | Migrate sched_kernel u32 u64 u32
  | Unthrottle_entry u32 u64
  | Unthrottle_return sched_kernel u32 int
  | Publish "u64 \<rightharpoonup> u8" u32

fun sched_step :: "sched_blame_config \<Rightarrow> nat \<Rightarrow> sched_event \<Rightarrow> sched_blame_state \<Rightarrow> sched_blame_state" where
  "sched_step cfg X (Switch K cpu now prev task random rs) s =
     on_sched_switch cfg X K cpu now prev task random rs s"
| "sched_step cfg X (Wakeup K cpu cur task res) s = on_sched_wakeup X K cpu cur task res s"
| "sched_step cfg X (Wakeup_new K cpu cur task res) s = on_sched_wakeup_new X K cpu cur task res s"
| "sched_step cfg X (Migrate K cpu task dst) s = on_sched_migrate_task X K cpu task dst s"
| "sched_step cfg X (Unthrottle_entry cpu cfs_rq) s = on_unthrottle_cfs_rq_entry cpu cfs_rq s"
| "sched_step cfg X (Unthrottle_return K cpu res) s = on_unthrottle_cfs_rq_return X K cpu res s"
| "sched_step cfg X (Publish targets epoch) s =
     s\<lparr>target_cgid_to_dense := targets, target_css_id_epoch := epoch\<rparr>"

end
