(* ===== verification/Sched_Blame_Facts.thy ===== *)
theory Sched_Blame_Facts
  imports Sched_Blame
begin

text \<open>
  Properties of the scheduler probe of \<open>Sched_Blame\<close>: packed slices can be read back, the waiting
  bitmap of a CPU is a set of dense target ids, the per-CPU batches are a first-in first-out
  stream whose counters account for every slice and whose buffered end is less than 10ms old after
  a switch, the target cache is coherent within an epoch,
  and a context switch establishes the waiting truth of the task switched to.
\<close>

section \<open>Masked indexes and packed words\<close>

lemma take_bit_small: "unat w < 2 ^ n \<Longrightarrow> take_bit n w = w" for w :: "'a::len word"
  by (simp add: word_unat_eq_iff unat_take_bit_mod)

lemma unat_ucast_u32 [simp]: "unat (ucast (w :: u32) :: u64) = unat w"
  by (simp add: unsigned_ucast_eq take_bit_nat_eq_self unat_bound32 order_less_trans [OF unat_bound32])

lemma ucast_u64_inj [simp]: "(ucast (a :: u32) :: u64) = ucast b \<longleftrightarrow> a = b"
  by (metis unat_ucast_u32 word_unat_eq_iff)

lemma cpu_mask_take: "cpu_mask i = take_bit 9 i"
  by (simp add: cpu_mask_def take_bit_eq_mask mask_eq_exp_minus_1)

lemma css_mask_take: "css_mask i = take_bit 12 i"
  by (simp add: css_mask_def take_bit_eq_mask mask_eq_exp_minus_1)

lemma cpu_mask_small [simp]: "cpu < 512 \<Longrightarrow> cpu_mask (ucast (cpu :: u32)) = ucast cpu"
  unfolding cpu_mask_take by (rule take_bit_small) (simp add: word_less_nat_alt)

lemma css_mask_small [simp]: "css < 4096 \<Longrightarrow> css_mask (ucast (css :: u32)) = ucast css"
  unfolding css_mask_take by (rule take_bit_small) (simp add: word_less_nat_alt)

lemma cpu_mask_idem [simp]: "cpu_mask (cpu_mask i) = cpu_mask i"
  by (simp add: cpu_mask_take)

lemma css_mask_idem [simp]: "css_mask (css_mask i) = css_mask i"
  by (simp add: css_mask_take)

lemma unat_css_mask: "unat (css_mask i) < 4096"
  by (simp add: css_mask_take unat_take_bit_mod)

lemma pack_dense_id_epoch [simp]: "cache_epoch (pack_dense_id_cache epoch d) = epoch"
  unfolding cache_epoch_def pack_dense_id_cache_def
  by (rule bit_word_eqI) (auto simp: bit_simps dest: bit_imp_le_length)

lemma pack_dense_id_dense [simp]: "cache_dense_id (pack_dense_id_cache epoch d) = d"
  unfolding cache_dense_id_def pack_dense_id_cache_def
proof (rule bit_word_eqI)
  have ff: "(0xff :: u64) = mask 8" by (simp add: mask_eq_exp_minus_1)
  fix n assume "n < LENGTH(8)"
  then show "bit (ucast ((push_bit 32 (ucast epoch) OR ucast d) AND 0xff :: u64) :: u8) n = bit d n"
    unfolding ff by (auto simp: bit_simps)
qed

text \<open>Reading a packed slice back.\<close>

definition slice_duration :: "sched_blame_packed_slice \<Rightarrow> nat" where
  "slice_duration p = unat (drop_bit 32 (packed_base p))"

definition slice_css :: "sched_blame_packed_slice \<Rightarrow> u64" where
  "slice_css p = take_bit 12 (packed_base p)"

definition slice_waits :: "sched_blame_packed_slice \<Rightarrow> nat \<Rightarrow> bool" where
  "slice_waits p d = (if d < 20 then bit (packed_base p) (12 + d)
     else (d - 20) div 64 < length (slice_extra p) \<and> bit (slice_extra p ! ((d - 20) div 64)) ((d - 20) mod 64))"

definition waits :: "waiting_target_bitmap \<Rightarrow> nat \<Rightarrow> bool" where
  "waits w d = (if d < 20 then bit (bitmap_base w) d
     else (d - 20) div 64 < length (bitmap_extra w) \<and> bit (bitmap_extra w ! ((d - 20) div 64)) ((d - 20) mod 64))"

lemma base_mask_take: "(w :: u32) AND (push_bit 20 1 - 1) = take_bit 20 w"
  by (simp add: take_bit_eq_mask mask_eq_exp_minus_1 push_bit_of_1)

lemma packed_word:
  fixes d css p :: u64 and b :: u32
  assumes css: "unat css < 4096"
    and p_def: "p = push_bit 32 d OR push_bit 12 (ucast (take_bit 20 b)) OR css"
  shows "take_bit 12 p = css" and "i < 20 \<Longrightarrow> bit p (12 + i) = bit b i"
    and "unat d < 2 ^ 32 \<Longrightarrow> drop_bit 32 p = d"
proof -
  have "take_bit 12 css = css" using css by (intro take_bit_small) simp
  then have c: "\<not> bit css n" if "12 \<le> n" for n
    using that by (metis bit_take_bit_iff not_le)
  show "take_bit 12 p = css"
    by (rule bit_word_eqI) (use c in \<open>auto simp: p_def bit_simps not_less\<close>)
  show "i < 20 \<Longrightarrow> bit p (12 + i) = bit b i"
    using c by (auto simp: p_def bit_simps)
  assume "unat d < 2 ^ 32"
  then have dd: "\<not> bit d n" if "32 \<le> n" for n
    using take_bit_small [of d 32] that by (metis bit_take_bit_iff not_le)
  show "drop_bit 32 p = d"
    by (rule bit_word_eqI) (use c dd in \<open>auto simp: p_def bit_simps not_less; meson not_le\<close>)
qed

text \<open>C39. A packed slice carries its interval faithfully: the duration saturated at 32 bits, the
  css index and, for every dense target id, whether that target was waiting in the snapshot.\<close>

theorem pack_slice_roundtrip:
  assumes "unat css_index < 4096" and "pack_slice cpu duration snapshot css_index s = (p, s')"
  shows "slice_duration p = min (unat duration) (2 ^ 32 - 1) \<and> slice_css p = css_index \<and>
         slice_waits p = waits snapshot"
proof -
  define d where "d = (if duration > MAX_DURATION_NS then MAX_DURATION_NS else duration)"
  have p: "p = \<lparr>packed_base = push_bit 32 d OR push_bit 12 (ucast (take_bit 20 (bitmap_base snapshot))) OR css_index,
      slice_extra = bitmap_extra snapshot\<rparr>"
    using assms(2) unfolding pack_slice_def base_mask_take by (auto simp: d_def split: if_splits)
  have d: "unat d = min (unat duration) (2 ^ 32 - 1)"
    by (auto simp: d_def word_less_nat_alt min_def)
  then have "unat d < 2 ^ 32" by simp
  note w = packed_word [OF assms(1), of "packed_base p" d "bitmap_base snapshot"]
  have b: "packed_base p = push_bit 32 d OR push_bit 12 (ucast (take_bit 20 (bitmap_base snapshot))) OR css_index"
    by (simp only: p sched_blame_packed_slice.select_convs)
  have x: "slice_extra p = bitmap_extra snapshot"
    by (simp only: p sched_blame_packed_slice.select_convs)
  have "slice_waits p e = waits snapshot e" for e
  proof (cases "e < 20")
    case True
    then show ?thesis using w(2) [OF b True] by (simp only: slice_waits_def waits_def if_True)
  next
    case False
    then show ?thesis by (simp only: slice_waits_def waits_def if_False x)
  qed
  then show ?thesis
    using w(1) [OF b] w(3) [OF b \<open>unat d < 2 ^ 32\<close>] d
    by (auto simp only: slice_duration_def slice_css_def fun_eq_iff)
qed

section \<open>The waiting bitmap is a set\<close>

definition well_sized :: "nat \<Rightarrow> sched_blame_state \<Rightarrow> bool" where
  "well_sized X s \<longleftrightarrow> (\<forall>c. length (bitmap_extra (waiting_target_bitmap_by_cpu s c)) = X)"

definition waiting_set :: "nat \<Rightarrow> sched_blame_state \<Rightarrow> u64 \<Rightarrow> nat set" where
  "waiting_set X s cpu_index =
     {d. d < 20 + 64 * X \<and> waits (waiting_target_bitmap_by_cpu s (cpu_mask cpu_index)) d}"

lemma unat_MAX_TARGETS: "X \<le> 3 \<Longrightarrow> unat (MAX_TARGETS X) = 20 + 64 * X"
proof -
  assume "X \<le> 3"
  then have "X = 0 \<or> X = 1 \<or> X = 2 \<or> X = 3" by auto
  then show ?thesis by (auto simp: MAX_TARGETS_def)
qed

lemma bit_put_bit:
  "n < LENGTH('a) \<Longrightarrow> bit (put_bit v (2 ^ k) w) n = (if n = k then v else bit w n)"
  for w :: "'a::len word"
  by (auto simp: put_bit_def bit_simps)

lemma waits_base:
  assumes "k < 20"
  shows "waits (w\<lparr>bitmap_base := put_bit v (2 ^ k) (bitmap_base w)\<rparr>) d = (if d = k then v else waits w d)"
  using assms bit_put_bit [of d v k "bitmap_base w"] by (auto simp: waits_def)

lemma waits_extra:
  assumes "i < length (bitmap_extra w)" and "k < 64"
  shows "waits (w\<lparr>bitmap_extra := (bitmap_extra w)[i := put_bit v (2 ^ k) (bitmap_extra w ! i)]\<rparr>) d =
    (if d = 20 + 64 * i + k then v else waits w d)"
proof (cases "d < 20")
  case True
  then show ?thesis by (auto simp: waits_def)
next
  case False
  define q where "q = (d - 20) div 64"
  define r where "r = (d - 20) mod 64"
  have r: "r < 64" by (simp add: r_def)
  have eq: "(d = 20 + 64 * i + k) = (q = i \<and> r = k)"
  proof
    assume "d = 20 + 64 * i + k"
    then show "q = i \<and> r = k" using assms(2) by (simp add: q_def r_def)
  next
    assume "q = i \<and> r = k"
    moreover have "d - 20 = 64 * q + r" by (simp add: q_def r_def)
    ultimately show "d = 20 + 64 * i + k" using False by linarith
  qed
  have b: "bit (put_bit v (2 ^ k) (bitmap_extra w ! i)) r = (if r = k then v else bit (bitmap_extra w ! i) r)"
    using r by (intro bit_put_bit) simp
  show ?thesis
  proof (cases "q = i")
    case True
    then show ?thesis
      using False assms(1) b unfolding eq waits_def q_def [symmetric] r_def [symmetric] by simp
  next
    case ne: False
    then show ?thesis
      using False unfolding eq waits_def q_def [symmetric] r_def [symmetric] by simp
  qed
qed

lemma well_sized_upd:
  "well_sized X s \<Longrightarrow> length (bitmap_extra w) = X \<Longrightarrow>
   well_sized X (s\<lparr>waiting_target_bitmap_by_cpu := (waiting_target_bitmap_by_cpu s)(c := w)\<rparr>)"
  by (simp add: well_sized_def)

text \<open>What \<open>set_waiting\<close> does to the bitmap of its CPU: it is the bit of the dense id that
  changes, wherever the id falls in the base or the extra words.\<close>

lemma set_waiting_bitmap:
  assumes X: "X \<le> 3" and ws: "well_sized X s" and d: "unat dense_id < 20 + 64 * X"
  obtains w where "set_waiting X cpu cpu_index dense_id waiting throttled s =
      s\<lparr>waiting_target_bitmap_by_cpu := (waiting_target_bitmap_by_cpu s)(cpu_mask cpu_index := w)\<rparr>"
    "length (bitmap_extra w) = X"
    "\<And>e. waits w e = (if e = unat dense_id then waiting \<and> \<not> throttled
        else waits (waiting_target_bitmap_by_cpu s (cpu_mask cpu_index)) e)"
proof -
  define c where "c = cpu_mask cpu_index"
  define w0 where "w0 = waiting_target_bitmap_by_cpu s c"
  define v where "v = (waiting \<and> \<not> throttled)"
  have len: "length (bitmap_extra w0) = X" using ws by (simp add: well_sized_def w0_def)
  have ok: "\<not> dense_id \<ge> MAX_TARGETS X"
    using d unat_MAX_TARGETS [OF X] by (simp add: word_le_nat_alt)
  have v: "(if throttled then False else waiting) = v" by (simp add: v_def)
  note unf = set_waiting_def Let_def c_def [symmetric] v
  show ?thesis
  proof (cases "unat dense_id < 20")
    case True
    then have lt: "dense_id < 20" by (simp add: word_less_nat_alt)
    show ?thesis
    proof (rule that)
      show "set_waiting X cpu cpu_index dense_id waiting throttled s =
          s\<lparr>waiting_target_bitmap_by_cpu := (waiting_target_bitmap_by_cpu s)(cpu_mask cpu_index :=
            w0\<lparr>bitmap_base := put_bit v (2 ^ unat dense_id) (bitmap_base w0)\<rparr>)\<rparr>"
        using ok lt unfolding unf w0_def [symmetric] by (simp only: if_False if_True push_bit_of_1)
      show "length (bitmap_extra (w0\<lparr>bitmap_base := put_bit v (2 ^ unat dense_id) (bitmap_base w0)\<rparr>)) = X"
        using len by simp
      show "waits (w0\<lparr>bitmap_base := put_bit v (2 ^ unat dense_id) (bitmap_base w0)\<rparr>) e =
          (if e = unat dense_id then waiting \<and> \<not> throttled
           else waits (waiting_target_bitmap_by_cpu s (cpu_mask cpu_index)) e)" for e
        unfolding waits_base [OF True] c_def [symmetric] w0_def [symmetric] v_def [symmetric] ..
    qed
  next
    case False
    define k where "k = (unat dense_id - 20) mod 64"
    define i where "i = (unat dense_id - 20) div 64"
    have ik: "unat dense_id = 20 + 64 * i + k" "k < 64" "i < X"
      using False d by (auto simp: i_def k_def)
    have s20: "unat (dense_id - 20) = unat dense_id - 20"
      using False by (simp add: unat_sub word_le_nat_alt)
    have nlt: "\<not> dense_id < 20" using False by (simp add: word_less_nat_alt)
    have kk: "unat (of_nat k :: u32) = k" using ik(2) by (simp add: unat_of_nat take_bit_nat_eq_self)
    have sw: "set_waiting X cpu cpu_index dense_id waiting throttled s = put_extra c i v (of_nat k) s"
    proof -
      consider "i = 0" | "i = 1" | "i = 2" using ik(3) X by linarith
      then show ?thesis
      proof cases
        case 1
        then have "dense_id - 20 = of_nat k" "dense_id - 20 < 64"
          using ik s20 kk by (simp_all add: word_unat_eq_iff word_less_nat_alt)
        then show ?thesis using ok nlt ik(3) 1 unfolding unf by simp
      next
        case 2
        then have u: "unat (dense_id - 84) = k"
          using ik by (simp add: unat_sub word_le_nat_alt)
        have a: "\<not> dense_id - 20 < 64" using 2 ik s20 by (simp add: word_less_nat_alt)
        from u have "dense_id - 84 = of_nat k" "dense_id - 84 < 64"
          using ik(2) kk by (simp_all add: word_unat_eq_iff word_less_nat_alt)
        then show ?thesis using ok nlt ik(3) 2 a unfolding unf by simp
      next
        case 3
        then have u: "unat (dense_id - 84) = 64 + k" "unat (dense_id - 148) = k"
          using ik by (simp_all add: unat_sub word_le_nat_alt)
        have a: "\<not> dense_id - 20 < 64" using 3 ik s20 by (simp add: word_less_nat_alt)
        from u have "\<not> dense_id - 84 < 64" "dense_id - 148 = of_nat k"
          using kk by (simp_all add: word_unat_eq_iff word_less_nat_alt)
        then show ?thesis using ok nlt ik(3) 3 a unfolding unf by simp
      qed
    qed
    show ?thesis
    proof (rule that)
      show "set_waiting X cpu cpu_index dense_id waiting throttled s =
          s\<lparr>waiting_target_bitmap_by_cpu := (waiting_target_bitmap_by_cpu s)(cpu_mask cpu_index :=
            w0\<lparr>bitmap_extra := (bitmap_extra w0)[i := put_bit v (2 ^ k) (bitmap_extra w0 ! i)]\<rparr>)\<rparr>"
        unfolding sw put_extra_def Let_def kk w0_def [symmetric] c_def [symmetric] by (simp only: push_bit_of_1)
      show "length (bitmap_extra (w0\<lparr>bitmap_extra := (bitmap_extra w0)[i := put_bit v (2 ^ k) (bitmap_extra w0 ! i)]\<rparr>)) = X"
        using len by simp
      show "waits (w0\<lparr>bitmap_extra := (bitmap_extra w0)[i := put_bit v (2 ^ k) (bitmap_extra w0 ! i)]\<rparr>) e =
          (if e = unat dense_id then waiting \<and> \<not> throttled
           else waits (waiting_target_bitmap_by_cpu s (cpu_mask cpu_index)) e)" for e
        using waits_extra [of i w0 k v e] ik len
        unfolding c_def [symmetric] w0_def [symmetric] v_def [symmetric] ik(1) by simp
    qed
  qed
qed

lemma set_waiting_refines_aux:
  assumes "X \<le> 3" and "well_sized X s" and "unat dense_id < 20 + 64 * X"
    and s': "s' = set_waiting X cpu cpu_index dense_id waiting throttled s"
  shows "waiting_set X s' c =
      (if cpu_mask c \<noteq> cpu_mask cpu_index then waiting_set X s c
       else if waiting \<and> \<not> throttled then insert (unat dense_id) (waiting_set X s c)
       else waiting_set X s c - {unat dense_id})
    \<and> well_sized X s' \<and> counters s' = counters s"
proof (rule set_waiting_bitmap [OF assms(1-3), of cpu cpu_index waiting throttled])
  fix w
  assume w1: "set_waiting X cpu cpu_index dense_id waiting throttled s =
      s\<lparr>waiting_target_bitmap_by_cpu := (waiting_target_bitmap_by_cpu s)(cpu_mask cpu_index := w)\<rparr>"
    and w2: "length (bitmap_extra w) = X"
    and w3: "\<And>e. waits w e = (if e = unat dense_id then waiting \<and> \<not> throttled
        else waits (waiting_target_bitmap_by_cpu s (cpu_mask cpu_index)) e)"
  have "waiting_set X s' c = {e. e < 20 + 64 * X \<and>
      (if cpu_mask c = cpu_mask cpu_index then waits w e else waits (waiting_target_bitmap_by_cpu s (cpu_mask c)) e)}"
    by (simp add: s' w1 waiting_set_def)
  moreover have "well_sized X s'" using well_sized_upd [OF assms(2) w2] by (simp add: s' w1)
  moreover have "counters s' = counters s" by (simp add: s' w1)
  ultimately show ?thesis
    using assms(3) by (simp add: w3 waiting_set_def) (auto split: if_splits)
qed

text \<open>Marking a target is set update: for a valid dense id, \<open>set_waiting\<close> inserts it into or
  removes it from the set of waiting targets of its CPU (a throttled target never waits), leaves
  every other target and CPU alone, and touches no counter. This holds for every compiled
  bitmap width.\<close>

theorem set_waiting_refines:
  assumes "X \<le> 3" and "well_sized X s" and "unat dense_id < 20 + 64 * X"
    and s': "s' = set_waiting X cpu cpu_index dense_id waiting throttled s"
  shows "waiting_set X s' c =
      (if cpu_mask c \<noteq> cpu_mask cpu_index then waiting_set X s c
       else if waiting \<and> \<not> throttled then insert (unat dense_id) (waiting_set X s c)
       else waiting_set X s c - {unat dense_id})
    \<and> well_sized X s' \<and> counters s' = counters s"
  using assms by (rule set_waiting_refines_aux)

text \<open>A newly published set of targets starts from a clean slate: the first probe that touches a
  CPU in a new epoch sees no target waiting there, later ones in the same epoch change nothing,
  and other CPUs keep their bitmaps.\<close>

theorem epoch_clears_waiting:
  assumes "s' = ensure_waiting_bitmap_epoch X cpu_index epoch s"
  shows "(waiting_epoch_by_cpu s (cpu_mask cpu_index) \<noteq> epoch \<longrightarrow> waiting_set X s' cpu_index = {}) \<and>
    (waiting_epoch_by_cpu s (cpu_mask cpu_index) = epoch \<longrightarrow> s' = s) \<and>
    (cpu_mask c \<noteq> cpu_mask cpu_index \<longrightarrow> waiting_set X s' c = waiting_set X s c) \<and>
    ensure_waiting_bitmap_epoch X cpu_index epoch s' = s' \<and>
    (well_sized X s \<longrightarrow> well_sized X s')"
  unfolding assms
  by (auto simp: ensure_waiting_bitmap_epoch_def Let_def waiting_set_def waits_def well_sized_def)

section \<open>Batches\<close>

fun batch_entry :: "u64 \<Rightarrow> u64 \<times> perf_record \<times> int \<Rightarrow> (sched_blame_slice_batch_event \<times> int) list" where
  "batch_entry c (c', Batch n b, res) = (if c' = c then [(b, res)] else [])"
| "batch_entry c _ = []"

text \<open>The batches a CPU has submitted, with the result of each submission, and the slices in them.\<close>

definition batch_log :: "u32 \<Rightarrow> sched_blame_state \<Rightarrow> (sched_blame_slice_batch_event \<times> int) list" where
  "batch_log cpu s = concat (map (batch_entry (ucast cpu)) (perf_log s))"

definition slices_of :: "sched_blame_slice_batch_event \<Rightarrow> sched_blame_packed_slice list" where
  "slices_of b = take (unat (b_count b)) (packed_slices b)"

definition submitted :: "(int \<Rightarrow> bool) \<Rightarrow> u32 \<Rightarrow> sched_blame_state \<Rightarrow> sched_blame_packed_slice list" where
  "submitted P cpu s = concat (map (\<lambda>(b, res). slices_of b) (filter (\<lambda>(b, res). P res) (batch_log cpu s)))"

abbreviation (input) "delivered \<equiv> submitted (\<lambda>res. 0 \<le> res)"
abbreviation (input) "failed \<equiv> submitted (\<lambda>res. res < 0)"

definition buffered :: "u32 \<Rightarrow> sched_blame_state \<Rightarrow> sched_blame_packed_slice list" where
  "buffered cpu s = (case slice_batches_percpu s cpu of None \<Rightarrow> [] | Some b \<Rightarrow> slices_of b)"

text \<open>All slices of a CPU in the order they were sampled: submitted, then buffered.\<close>

definition stream :: "u32 \<Rightarrow> sched_blame_state \<Rightarrow> sched_blame_packed_slice list" where
  "stream cpu s = submitted (\<lambda>_. True) cpu s @ buffered cpu s"

text \<open>The part of the state that batching is about, for one CPU.\<close>

definition batch_view where
  "batch_view cpu s = (slice_batches_percpu s cpu, batch_log cpu s, counters s N_sampled_slices cpu,
     counters s N_perf_submission_failed_slices cpu, batch_first_ts_ns_by_cpu s (ucast cpu))"

lemma batch_view_cong:
  "batch_view cpu s' = batch_view cpu s \<Longrightarrow>
     slice_batches_percpu s' cpu = slice_batches_percpu s cpu \<and> submitted P cpu s' = submitted P cpu s \<and>
     buffered cpu s' = buffered cpu s \<and> stream cpu s' = stream cpu s \<and>
     counters s' N_sampled_slices cpu = counters s N_sampled_slices cpu \<and>
     counters s' N_perf_submission_failed_slices cpu = counters s N_perf_submission_failed_slices cpu \<and>
     batch_first_ts_ns_by_cpu s' (ucast cpu) = batch_first_ts_ns_by_cpu s (ucast cpu)"
  by (simp add: batch_view_def submitted_def buffered_def stream_def)

lemma view_count_add [simp]:
  "n \<noteq> N_sampled_slices \<Longrightarrow> n \<noteq> N_perf_submission_failed_slices \<Longrightarrow>
   batch_view cpu (count_add n c d s) = batch_view cpu s"
  by (simp add: batch_view_def count_add_def batch_log_def)

lemma view_count [simp]:
  "n \<noteq> N_sampled_slices \<Longrightarrow> n \<noteq> N_perf_submission_failed_slices \<Longrightarrow>
   batch_view cpu (count n c s) = batch_view cpu s"
  by (simp add: count_def)

lemma view_fields [simp]:
  "batch_view cpu (waiting_target_bitmap_by_cpu_update a s) = batch_view cpu s"
  "batch_view cpu (waiting_epoch_by_cpu_update b s) = batch_view cpu s"
  "batch_view cpu (css_id_to_dense_id_update d s) = batch_view cpu s"
  "batch_view cpu (observed_identity_update e s) = batch_view cpu s"
  "batch_view cpu (running_css_id_by_cpu_update f s) = batch_view cpu s"
  "batch_view cpu (previous_switch_ns_by_cpu_update g s) = batch_view cpu s"
  "batch_view cpu (unthrottle_entry_cfs_rq_by_cpu_update h s) = batch_view cpu s"
  "batch_view cpu (target_cgid_to_dense_update i s) = batch_view cpu s"
  "batch_view cpu (target_css_id_epoch_update j s) = batch_view cpu s"
  by (simp_all add: batch_view_def batch_log_def)

lemma view_perf [simp]:
  "batch_view cpu (perf_output c (Identity x) res s) = batch_view cpu s"
  "batch_view cpu (perf_output c (Throttle y) res s) = batch_view cpu s"
  by (simp_all add: batch_view_def batch_log_def perf_output_def)

lemma view_helpers [simp]:
  "batch_view cpu (ensure_waiting_bitmap_epoch X c ep s) = batch_view cpu s"
  "batch_view cpu (set_waiting X cp c d w t s) = batch_view cpu s"
  "batch_view cpu (snd (resolve_target_dense_id X cp cg c ep s)) = batch_view cpu s"
  "batch_view cpu (maybe_emit_identity c tg ci res s) = batch_view cpu s"
  "batch_view cpu (emit_throttle_event cp c dd dur res s) = batch_view cpu s"
  "batch_view cpu (snd (pack_slice cp dur sn ci s)) = batch_view cpu s"
  "batch_view cpu (set_running_css_id c ci s) = batch_view cpu s"
  "batch_view cpu (clear_running_css_id c s) = batch_view cpu s"
  by (auto simp: ensure_waiting_bitmap_epoch_def set_waiting_def put_extra_def resolve_target_dense_id_def
      maybe_emit_identity_def emit_throttle_event_def pack_slice_def set_running_css_id_def
      clear_running_css_id_def Let_def split: option.splits)

lemma view_probes:
  "batch_view cpu (update_wakeup_waiting X K cp cur t res s) = batch_view cpu s"
  "batch_view cpu (on_sched_migrate_task X K cp t dst s) = batch_view cpu s"
  "batch_view cpu (on_unthrottle_cfs_rq_entry cp q s) = batch_view cpu s"
  "batch_view cpu (on_unthrottle_cfs_rq_return X K cp res s) = batch_view cpu s"
  by (simp_all add: update_wakeup_waiting_def on_sched_migrate_task_def on_unthrottle_cfs_rq_entry_def
      on_unthrottle_cfs_rq_return_def Let_def case_prod_beta)

lemma view_switch_parts:
  "batch_view cpu (snd (switch_identity K cp c tg res s)) = batch_view cpu s"
  "batch_view cpu (switch_waiting_prev K X cp c ep t tg ci s) = batch_view cpu s"
  "batch_view cpu (switch_waiting_next K X cp c ep t tg ci s) = batch_view cpu s"
  by (simp_all add: switch_identity_def switch_waiting_prev_def switch_waiting_next_def Let_def case_prod_beta)

section \<open>Emitting a batch\<close>

lemma emit_view_other:
  assumes "cpu' \<noteq> cpu" and "cpu < 512"
  shows "batch_view cpu' (emit_slice_batch X cpu (ucast cpu) b res s) = batch_view cpu' s"
  using assms
  by (auto simp: emit_slice_batch_def Let_def batch_view_def batch_log_def output_slice_batch_def
      perf_output_def put_batch_def count_def count_add_def)

lemma emit_view:
  assumes "cpu < 512" and "b_count b \<noteq> 0" and "\<not> b_count b > MAX_SLICES_PER_BATCH"
  shows "batch_view cpu (emit_slice_batch X cpu (ucast cpu) b res s) =
    (Some (b\<lparr>b_count := 0\<rparr>), batch_log cpu s @ [(b, res)], counters s N_sampled_slices cpu,
     (if res < 0 then map_option (\<lambda>v. v + ucast (b_count b)) (counters s N_perf_submission_failed_slices cpu)
      else counters s N_perf_submission_failed_slices cpu), 0)"
  using assms
  by (simp add: emit_slice_batch_def Let_def batch_view_def batch_log_def output_slice_batch_def
      perf_output_def put_batch_def count_def count_add_def)

lemma slice_batch_size_bounds: "1 \<le> unat (slice_batch_size cfg) \<and> unat (slice_batch_size cfg) \<le> 128"
  by (auto simp: slice_batch_size_def Let_def word_less_nat_alt Suc_le_eq unat_gt_0)

definition buffer_ok :: "sched_blame_config \<Rightarrow> u32 \<Rightarrow> sched_blame_state \<Rightarrow> bool" where
  "buffer_ok cfg cpu s \<longleftrightarrow> (\<exists>b. slice_batches_percpu s cpu = Some b \<and> length (packed_slices b) = 128 \<and>
     unat (b_count b) < unat (slice_batch_size cfg) \<and>
     (b_count b = 0 \<longrightarrow> batch_first_ts_ns_by_cpu s (ucast cpu) = 0))"

definition failures_ok :: "u32 \<Rightarrow> sched_blame_state \<Rightarrow> bool" where
  "failures_ok cpu s \<longleftrightarrow>
     counters s N_perf_submission_failed_slices cpu = Some (of_nat (length (failed cpu s)))"

lemma ok_cong:
  assumes "batch_view cpu s' = batch_view cpu s"
  shows "buffer_ok cfg cpu s' = buffer_ok cfg cpu s" "failures_ok cpu s' = failures_ok cpu s"
  using batch_view_cong [OF assms] by (simp_all add: buffer_ok_def failures_ok_def)

lemma emit_batch:
  assumes cpu: "cpu < 512" and b: "slice_batches_percpu s cpu = Some b" "length (packed_slices b) = 128"
    "b_count b \<noteq> 0" "unat (b_count b) \<le> 128"
    and s': "s' = emit_slice_batch X cpu (ucast cpu) b res s"
  shows "stream cpu s' = stream cpu s \<and> buffer_ok cfg cpu s' \<and> (failures_ok cpu s \<longrightarrow> failures_ok cpu s') \<and>
    counters s' N_sampled_slices cpu = counters s N_sampled_slices cpu \<and>
    batch_first_ts_ns_by_cpu s' (ucast cpu) = 0 \<and> buffered cpu s' = []"
proof -
  have n: "\<not> b_count b > MAX_SLICES_PER_BATCH" using b(4) by (simp add: word_less_nat_alt)
  have v: "slice_batches_percpu s' cpu = Some (b\<lparr>b_count := 0\<rparr>)" "batch_log cpu s' = batch_log cpu s @ [(b, res)]"
      "counters s' N_sampled_slices cpu = counters s N_sampled_slices cpu"
      "counters s' N_perf_submission_failed_slices cpu =
        (if res < 0 then map_option (\<lambda>v. v + ucast (b_count b)) (counters s N_perf_submission_failed_slices cpu)
         else counters s N_perf_submission_failed_slices cpu)"
      "batch_first_ts_ns_by_cpu s' (ucast cpu) = 0"
    using emit_view [OF cpu b(3) n, of X res s] unfolding s' [symmetric] batch_view_def by simp_all
  have len: "length (slices_of b) = unat (b_count b)" using b by (simp add: slices_of_def)
  have "(ucast (b_count b) :: u64) = of_nat (length (slices_of b))"
    unfolding len by (simp add: word_unat_eq_iff unat_of_nat take_bit_nat_eq_self
        order_less_trans [OF unat_bound32])
  moreover have "stream cpu s' = stream cpu s"
    using v b(1) by (simp add: stream_def submitted_def buffered_def slices_of_def)
  moreover have "buffer_ok cfg cpu s'"
    using v b(2) slice_batch_size_bounds [of cfg] by (simp add: buffer_ok_def Suc_le_eq)
  moreover have "buffered cpu s' = []" using v(1) by (simp add: buffered_def slices_of_def)
  ultimately show ?thesis
    using v by (auto simp: failures_ok_def submitted_def)
qed

lemma append_slice:
  assumes cpu: "cpu < 512" and ok: "buffer_ok cfg cpu s"
    and s': "s' = append_sampled_slice cfg X cpu (ucast cpu) now packed res_over res_full s"
  shows "stream cpu s' = stream cpu s @ [packed] \<and> buffer_ok cfg cpu s' \<and>
    (failures_ok cpu s \<longrightarrow> failures_ok cpu s') \<and>
    counters s' N_sampled_slices cpu = counters s N_sampled_slices cpu \<and>
    (buffered cpu s' = [] \<or> buffered cpu s' = buffered cpu s @ [packed] \<and>
       batch_first_ts_ns_by_cpu s' (ucast cpu) = (if buffered cpu s = [] then now else batch_first_ts_ns_by_cpu s (ucast cpu)))"
proof -
  obtain b where b: "slice_batches_percpu s cpu = Some b" "length (packed_slices b) = 128"
      "unat (b_count b) < unat (slice_batch_size cfg)"
    using ok by (auto simp: buffer_ok_def)
  have lt: "unat (b_count b) < 128" using b(3) slice_batch_size_bounds [of cfg] by linarith
  have idx: "b_count b AND 127 = b_count b"
    using take_bit_small [of "b_count b" 7] lt by (simp add: take_bit_eq_mask mask_eq_exp_minus_1)
  have nge: "\<not> b_count b \<ge> MAX_SLICES_PER_BATCH" using lt by (simp add: word_le_nat_alt)
  define b1 where "b1 = (if b_count b = 0 then b\<lparr>b_magic := 0x3333, extra_bitmap_u64_count := of_nat X\<rparr> else b)"
  define s1 where "s1 = (if b_count b = 0 then s\<lparr>batch_first_ts_ns_by_cpu :=
      (batch_first_ts_ns_by_cpu s)(ucast cpu := now)\<rparr> else s)"
  define b2 where "b2 = b1\<lparr>packed_slices := (packed_slices b1)[unat (b_count b) := packed], b_count := b_count b + 1\<rparr>"
  define s3 where "s3 = put_batch cpu b2 s1"
  have eq: "s' = (if b_count b2 \<ge> slice_batch_size cfg then emit_slice_batch X cpu (ucast cpu) b2 res_full s3 else s3)"
    using cpu b(1) nge idx
    by (simp add: s' append_sampled_slice_def b1_def s1_def b2_def s3_def Let_def)
  have cnt: "unat (b_count b2) = Suc (unat (b_count b))"
    using lt by (simp add: b2_def unat_word_ariths)
  have len: "length (packed_slices b2) = 128" using b(2) by (simp add: b2_def b1_def)
  have sl: "slices_of b2 = slices_of b @ [packed]"
    using cnt lt b(2) by (simp add: slices_of_def b2_def b1_def take_Suc_conv_app_nth)
  have s3: "slice_batches_percpu s3 cpu = Some b2" "batch_log cpu s3 = batch_log cpu s"
      "counters s3 = counters s"
    by (simp_all add: s3_def s1_def put_batch_def batch_log_def)
  have st3: "stream cpu s3 = stream cpu s @ [packed]" "failures_ok cpu s3 = failures_ok cpu s"
    using s3 b(1) sl by (simp_all add: stream_def submitted_def buffered_def failures_ok_def)
  have nz: "b_count b2 \<noteq> 0" using cnt by (metis nat.distinct(1) unat_0)
  have "buffered cpu s = [] \<longleftrightarrow> b_count b = 0"
    using b by (auto simp: buffered_def slices_of_def unat_eq_zero)
  then have bf: "buffered cpu s3 = buffered cpu s @ [packed]"
      "batch_first_ts_ns_by_cpu s3 (ucast cpu) = (if buffered cpu s = [] then now else batch_first_ts_ns_by_cpu s (ucast cpu))"
    using s3(1) b(1) sl by (simp_all add: buffered_def s3_def s1_def put_batch_def)
  show ?thesis
  proof (cases "b_count b2 \<ge> slice_batch_size cfg")
    case True
    have "unat (b_count b2) \<le> 128" using cnt lt by simp
    from emit_batch [OF cpu s3(1) len nz this, of s' X res_full cfg] eq True st3 s3(3) show ?thesis by simp
  next
    case False
    then have "s' = s3" using eq by simp
    then show ?thesis
      using False s3 st3 len nz bf by (auto simp: buffer_ok_def word_le_nat_alt)
  qed
qed

lemma append_view_other:
  assumes "cpu' \<noteq> cpu" and "cpu < 512"
  shows "batch_view cpu' (append_sampled_slice cfg X cpu (ucast cpu) now packed r1 r2 s) = batch_view cpu' s"
proof -
  have p: "batch_view cpu' (put_batch cpu b t) = batch_view cpu' t" for b t
    using assms by (simp add: batch_view_def put_batch_def batch_log_def)
  have f: "batch_view cpu' (t\<lparr>batch_first_ts_ns_by_cpu := (batch_first_ts_ns_by_cpu t)(ucast cpu := now)\<rparr>) =
      batch_view cpu' t" for t
    using assms by (simp add: batch_view_def batch_log_def)
  show ?thesis
    using assms by (simp add: append_sampled_slice_def Let_def case_prod_beta p f emit_view_other split: option.splits)
qed

section \<open>Switches\<close>

definition cpu_inv :: "sched_blame_config \<Rightarrow> u32 \<Rightarrow> sched_blame_state \<Rightarrow> bool" where
  "cpu_inv cfg cpu s \<longleftrightarrow> buffer_ok cfg cpu s \<and> failures_ok cpu s \<and>
     counters s N_sampled_slices cpu = Some (of_nat (length (stream cpu s)))"

lemma cpu_inv_cong: "batch_view cpu s' = batch_view cpu s \<Longrightarrow> cpu_inv cfg cpu s' = cpu_inv cfg cpu s"
  using batch_view_cong [of cpu s' s] ok_cong(1) [of cpu s' s cfg] ok_cong(2) [of cpu s' s] by (simp add: cpu_inv_def)

text \<open>What a switch at \<open>now\<close> does to the batch of its CPU: first it submits the batch if it is aged,
  then it may append one slice.\<close>

definition flushes :: "u64 \<Rightarrow> u32 \<Rightarrow> sched_blame_state \<Rightarrow> sched_blame_state \<Rightarrow> bool" where
  "flushes now cpu s s' \<longleftrightarrow> stream cpu s' = stream cpu s \<and> (buffered cpu s' = [] \<or>
     buffered cpu s' = buffered cpu s \<and> batch_first_ts_ns_by_cpu s' (ucast cpu) = batch_first_ts_ns_by_cpu s (ucast cpu) \<and>
     (batch_first_ts_ns_by_cpu s (ucast cpu) = 0 \<or>
      now - batch_first_ts_ns_by_cpu s (ucast cpu) < SLICE_BATCH_MAX_AGE_NS))"

definition extends :: "u64 \<Rightarrow> u32 \<Rightarrow> sched_blame_state \<Rightarrow> sched_blame_state \<Rightarrow> bool" where
  "extends now cpu s s' \<longleftrightarrow>
     stream cpu s' = stream cpu s \<and> buffered cpu s' = buffered cpu s \<and>
       batch_first_ts_ns_by_cpu s' (ucast cpu) = batch_first_ts_ns_by_cpu s (ucast cpu) \<or>
     (\<exists>packed. stream cpu s' = stream cpu s @ [packed] \<and>
       (buffered cpu s' = [] \<or> buffered cpu s' = buffered cpu s @ [packed] \<and>
          batch_first_ts_ns_by_cpu s' (ucast cpu) = (if buffered cpu s = [] then now else batch_first_ts_ns_by_cpu s (ucast cpu))))"

lemma extends_cong:
  assumes "batch_view cpu r = batch_view cpu s" "batch_view cpu r' = batch_view cpu s'"
  shows "extends now cpu r r' = extends now cpu s s'" "flushes now cpu r r' = flushes now cpu s s'"
  using batch_view_cong [OF assms(1)] batch_view_cong [OF assms(2)] by (simp_all add: extends_def flushes_def)

lemma flush_batch:
  assumes cpu: "cpu < 512" and inv: "cpu_inv cfg cpu s"
    and s': "s' = flush_slice_batch_if_aged X cpu (ucast cpu) now res s"
  shows "cpu_inv cfg cpu s' \<and> flushes now cpu s s'"
proof (cases "batch_first_ts_ns_by_cpu s (ucast cpu) = 0 \<or>
    now - batch_first_ts_ns_by_cpu s (ucast cpu) < SLICE_BATCH_MAX_AGE_NS")
  case True
  then have "s' = s" using cpu by (simp add: s' flush_slice_batch_if_aged_def Let_def)
  then show ?thesis using True inv by (simp add: flushes_def)
next
  case False
  obtain b where b: "slice_batches_percpu s cpu = Some b" "length (packed_slices b) = 128"
      "unat (b_count b) < unat (slice_batch_size cfg)" "b_count b = 0 \<longrightarrow> batch_first_ts_ns_by_cpu s (ucast cpu) = 0"
    using inv by (auto simp: cpu_inv_def buffer_ok_def)
  have "b_count b \<noteq> 0" "unat (b_count b) \<le> 128"
    using b False slice_batch_size_bounds [of cfg] by auto
  moreover have "s' = emit_slice_batch X cpu (ucast cpu) b res s"
    using False b(1) cpu by (simp add: s' flush_slice_batch_if_aged_def Let_def)
  ultimately show ?thesis
    using emit_batch [OF cpu b(1,2), of s' X res cfg] inv by (simp add: cpu_inv_def flushes_def)
qed

lemma flush_view_other:
  "cpu' \<noteq> cpu \<Longrightarrow> cpu < 512 \<Longrightarrow>
   batch_view cpu' (flush_slice_batch_if_aged X cpu (ucast cpu) now res s) = batch_view cpu' s"
  by (simp add: flush_slice_batch_if_aged_def Let_def emit_view_other split: option.splits)

lemma sampled_count:
  "batch_view cpu' (count N_sampled_slices cpu s) = (if cpu' = cpu then
     (slice_batches_percpu s cpu, batch_log cpu s, map_option (\<lambda>v. v + 1) (counters s N_sampled_slices cpu),
      counters s N_perf_submission_failed_slices cpu, batch_first_ts_ns_by_cpu s (ucast cpu))
    else batch_view cpu' s)"
  by (simp add: batch_view_def count_def count_add_def batch_log_def)

lemma switch_slice_inv:
  assumes cpu: "cpu < 512" and inv: "cpu_inv cfg cpu s"
    and s': "s' = switch_slice cfg X cpu (ucast cpu) now start pid tg css random rs s"
  shows "cpu_inv cfg cpu s' \<and> extends now cpu s s'"
proof (cases "start \<noteq> 0 \<and> pid \<noteq> 0 \<and> tg \<noteq> 0 \<and> css < MAX_CSS_IDS \<and> keep_slice cfg random")
  case False
  then have v: "batch_view cpu s' = batch_view cpu s"
    by (auto simp: s' switch_slice_def)
  then show ?thesis using inv cpu_inv_cong [OF v] batch_view_cong [OF v] by (simp add: extends_def)
next
  case True
  obtain packed s1 where p: "pack_slice cpu (now - start) (snapshot_waiting_targets (ucast cpu) s)
      (css_mask (ucast css)) s = (packed, s1)"
    by (meson surj_pair)
  then have v1: "batch_view cpu s1 = batch_view cpu s"
    using view_helpers(6) [of cpu cpu "now - start" "snapshot_waiting_targets (ucast cpu) s" "css_mask (ucast css)" s] by simp
  define s2 where "s2 = count N_sampled_slices cpu s1"
  have inv1: "cpu_inv cfg cpu s1" using inv cpu_inv_cong [OF v1] by simp
  have v2: "slice_batches_percpu s2 cpu = slice_batches_percpu s1 cpu" "batch_log cpu s2 = batch_log cpu s1"
      "counters s2 N_sampled_slices cpu = map_option (\<lambda>v. v + 1) (counters s1 N_sampled_slices cpu)"
      "counters s2 N_perf_submission_failed_slices cpu = counters s1 N_perf_submission_failed_slices cpu"
      "batch_first_ts_ns_by_cpu s2 (ucast cpu) = batch_first_ts_ns_by_cpu s1 (ucast cpu)"
    using sampled_count [of cpu cpu s1] by (simp_all add: s2_def [symmetric] batch_view_def)
  have st: "stream cpu s2 = stream cpu s1" "buffer_ok cfg cpu s2 = buffer_ok cfg cpu s1"
      "failures_ok cpu s2 = failures_ok cpu s1"
    using v2 by (simp_all add: stream_def submitted_def buffered_def buffer_ok_def failures_ok_def)
  have eq: "s' = append_sampled_slice cfg X cpu (ucast cpu) now packed (r_batch_over rs) (r_batch_full rs) s2"
    using True p by (simp add: s' switch_slice_def s2_def)
  have "buffer_ok cfg cpu s2" using inv1 st by (simp add: cpu_inv_def)
  note a = append_slice [OF cpu this eq]
  have "counters s1 N_sampled_slices cpu = Some (of_nat (length (stream cpu s1)))"
    using inv1 by (simp only: cpu_inv_def)
  then have "counters s' N_sampled_slices cpu = Some (of_nat (length (stream cpu s')))"
    using a v2(3) st(1) by simp
  moreover have "failures_ok cpu s'" using a inv1 st(3) by (simp only: cpu_inv_def)
  moreover have "batch_first_ts_ns_by_cpu s2 (ucast cpu) = batch_first_ts_ns_by_cpu s (ucast cpu)"
      "stream cpu s2 = stream cpu s" "buffered cpu s2 = buffered cpu s"
    using v2(1,5) st(1) batch_view_cong [OF v1] by (simp_all add: buffered_def)
  then have "extends now cpu s s'" unfolding extends_def using a by metis
  ultimately show ?thesis using a by (simp only: cpu_inv_def)
qed

lemma switch_slice_other:
  assumes "cpu' \<noteq> cpu" and "cpu < 512"
  shows "batch_view cpu' (switch_slice cfg X cpu (ucast cpu) now start pid tg css random rs s) = batch_view cpu' s"
  using assms by (simp add: switch_slice_def case_prod_beta append_view_other sampled_count)

lemma switch_inv:
  assumes inv: "cpu_inv cfg cpu' s" and s': "s' = on_sched_switch cfg X K cpu now prev task random rs s"
  shows "cpu_inv cfg cpu' s' \<and> (if cpu' = cpu \<and> cpu < 512
    then \<exists>m. flushes now cpu s m \<and> extends now cpu m s' else batch_view cpu' s' = batch_view cpu' s)"
proof (cases "cpu < 512")
  case False
  then have "batch_view cpu' s' = batch_view cpu' s" by (simp add: s' on_sched_switch_def not_less)
  with cpu_inv_cong [OF this] show ?thesis using inv False by simp
next
  case cpu: True
  let ?ep = "target_css_id_epoch s"
  define s1 where "s1 = ensure_waiting_bitmap_epoch X (ucast cpu) ?ep s"
  define s2 where "s2 = s1\<lparr>previous_switch_ns_by_cpu := (previous_switch_ns_by_cpu s1)(ucast cpu := now)\<rparr>"
  define s3 where "s3 = flush_slice_batch_if_aged X cpu (ucast cpu) now (r_flush rs) s2"
  define ptg where "ptg = (if task_pid K prev = 0 then 0 else task_group_of K prev)"
  define ntg where "ntg = (if task_pid K task = 0 then 0 else task_group_of K task)"
  define pi where "pi = switch_identity K cpu (ucast cpu) ptg (r_prev_identity rs) s3"
  define ni where "ni = switch_identity K cpu (ucast cpu) ntg (r_next_identity rs) (snd pi)"
  define s6 where "s6 = switch_slice cfg X cpu (ucast cpu) now (previous_switch_ns_by_cpu s1 (ucast cpu))
      (task_pid K prev) ptg (fst pi) random rs (snd ni)"
  have eq: "s' = switch_waiting_next K X cpu (ucast cpu) ?ep task ntg (fst ni)
      (clear_running_css_id (ucast cpu) (switch_waiting_prev K X cpu (ucast cpu) ?ep prev ptg (fst pi) s6))"
    using cpu unfolding s' on_sched_switch_def
    by (simp add: not_le Let_def case_prod_beta s1_def s2_def s3_def ptg_def ntg_def pi_def ni_def s6_def)
  have v2: "batch_view c s2 = batch_view c s" for c by (simp add: s2_def s1_def)
  have v5: "batch_view c (snd ni) = batch_view c s3" for c by (simp add: ni_def pi_def view_switch_parts)
  have v': "batch_view c s' = batch_view c s6" for c by (simp add: eq view_switch_parts)
  show ?thesis
  proof (cases "cpu' = cpu")
    case True
    have i2: "cpu_inv cfg cpu s2" using inv True cpu_inv_cong [OF v2] by simp
    note f = flush_batch [OF cpu i2 s3_def]
    have i5: "cpu_inv cfg cpu (snd ni)" using f cpu_inv_cong [OF v5] by simp
    note w = switch_slice_inv [OF cpu i5 s6_def]
    have "cpu_inv cfg cpu s'" using w cpu_inv_cong [OF v'] by simp
    moreover have "flushes now cpu s s3" using f extends_cong(2) [OF v2 [symmetric] refl] by blast
    moreover have "extends now cpu s3 s'" using w extends_cong(1) [OF v5 v' [symmetric]] by blast
    ultimately show ?thesis using True cpu by auto
  next
    case False
    then have "batch_view cpu' s' = batch_view cpu' s"
      using cpu by (simp add: v' s6_def switch_slice_other v5 s3_def flush_view_other v2)
    with cpu_inv_cong [OF this] show ?thesis using inv False by simp
  qed
qed

lemma sched_inv_step:
  assumes inv: "cpu_inv cfg cpu s"
  shows "cpu_inv cfg cpu (sched_step cfg X e s)"
proof (cases "\<exists>K c now prev task random rs. e = Switch K c now prev task random rs")
  case True
  then show ?thesis using switch_inv [OF inv refl, THEN conjunct1] by auto
next
  case False
  then have "batch_view cpu (sched_step cfg X e s) = batch_view cpu s"
    by (cases e) (simp_all add: on_sched_wakeup_def on_sched_wakeup_new_def view_probes)
  from cpu_inv_cong [OF this] show ?thesis using inv by simp
qed

definition sched_init :: "nat \<Rightarrow> sched_blame_state" where
  "sched_init X =
     \<lparr>target_css_id_epoch = 0, target_cgid_to_dense = Map.empty,
      slice_batches_percpu = (\<lambda>_. Some \<lparr>b_magic = 0, extra_bitmap_u64_count = 0, b_count = 0,
        packed_slices = replicate 128 \<lparr>packed_base = 0, slice_extra = replicate X 0\<rparr>\<rparr>),
      counters = (\<lambda>_ _. Some 0), css_id_to_dense_id = (\<lambda>_. 0),
      waiting_target_bitmap_by_cpu = (\<lambda>_. \<lparr>bitmap_base = 0, bitmap_extra = replicate X 0\<rparr>),
      waiting_epoch_by_cpu = (\<lambda>_. 0), observed_identity = (\<lambda>_. 0), previous_switch_ns_by_cpu = (\<lambda>_. 0),
      batch_first_ts_ns_by_cpu = (\<lambda>_. 0), running_css_id_by_cpu = (\<lambda>_. 0),
      unthrottle_entry_cfs_rq_by_cpu = (\<lambda>_. 0), perf_log = []\<rparr>"

lemma sched_init_inv: "cpu_inv cfg cpu (sched_init X)"
  using slice_batch_size_bounds [of cfg]
  by (simp add: cpu_inv_def buffer_ok_def failures_ok_def stream_def submitted_def buffered_def slices_of_def
      batch_log_def sched_init_def Suc_le_eq)

lemma sched_inv_run: "cpu_inv cfg cpu s \<Longrightarrow> cpu_inv cfg cpu (fold (sched_step cfg X) es s)"
proof (induction es arbitrary: s)
  case (Cons e es)
  from Cons.IH [OF sched_inv_step [OF Cons.prems]] show ?case by (simp only: fold_simps)
qed simp

lemma submitted_split:
  "length (submitted (\<lambda>_. True) cpu s) = length (delivered cpu s) + length (failed cpu s)"
proof -
  have "length (concat (map f (filter (\<lambda>(b, res). True) l))) =
      length (concat (map f (filter (\<lambda>(b, res). 0 \<le> res) l))) +
      length (concat (map f (filter (\<lambda>(b, res). res < 0) l)))"
    for l :: "(sched_blame_slice_batch_event \<times> int) list" and f :: "_ \<Rightarrow> sched_blame_packed_slice list"
    by (induction l) auto
  then show ?thesis unfolding submitted_def .
qed

text \<open>C33. No sampled slice is lost track of: in every run of the probes, whatever the interleaving and
  whichever perf submissions fail, each CPU's count of sampled slices is the slices delivered plus
  those in failed submissions plus those still buffered, the failure counter counts exactly the
  failed ones, and fewer slices are buffered than the configured batch size.\<close>

theorem slices_conserved:
  assumes "s = fold (sched_step cfg X) es (sched_init X)"
  shows "counters s N_sampled_slices cpu =
      Some (of_nat (length (delivered cpu s) + length (failed cpu s) + length (buffered cpu s))) \<and>
    counters s N_perf_submission_failed_slices cpu = Some (of_nat (length (failed cpu s))) \<and>
    length (buffered cpu s) < unat (slice_batch_size cfg)"
proof -
  have inv: "cpu_inv cfg cpu s" unfolding assms by (rule sched_inv_run [OF sched_init_inv])
  then have "length (buffered cpu s) < unat (slice_batch_size cfg)"
    by (auto simp: cpu_inv_def buffer_ok_def buffered_def slices_of_def)
  then show ?thesis using inv submitted_split [of cpu s] by (simp add: cpu_inv_def failures_ok_def stream_def)
qed

text \<open>C34. Batching is a first-in first-out stream: appending a sampled slice in any reachable state
  puts it at the end of the CPU's slices, submitted and buffered together, without losing,
  repeating or reordering one, also when the append fills a batch and submits it; other CPUs'
  slices are untouched.\<close>

theorem slice_stream_fifo:
  assumes "cpu < 512" and "s = fold (sched_step cfg X) es (sched_init X)"
    and s': "s' = append_sampled_slice cfg X cpu (ucast cpu) now packed res_over res_full s"
  shows "stream cpu s' = stream cpu s @ [packed] \<and> (cpu' \<noteq> cpu \<longrightarrow> stream cpu' s' = stream cpu' s)"
proof -
  have "cpu_inv cfg cpu s" unfolding assms(2) by (rule sched_inv_run [OF sched_init_inv])
  then have "buffer_ok cfg cpu s" by (simp only: cpu_inv_def)
  from append_slice [OF assms(1) this s'] show ?thesis
    using batch_view_cong [OF append_view_other [of cpu' cpu, OF _ assms(1)]] unfolding s' by blast
qed

text \<open>A submission is large enough and not wasteful: the records copied to the perf buffer are at
  least the batched slices, fewer than twice as many, and never more than the batch holds.\<close>

theorem batch_capacity_fits:
  assumes "1 \<le> unat n" and "unat n \<le> 128"
  shows "unat n \<le> slice_batch_capacity n \<and> slice_batch_capacity n < 2 * unat n \<and>
         slice_batch_capacity n \<le> 128"
  using assms by (auto simp: slice_batch_capacity_def word_le_nat_alt)

section \<open>The age of a buffered slice\<close>

text \<open>The clock readings of a CPU's switches, and for each slice of the CPU, in the order of its
  \<open>stream\<close>, the reading of the switch that sampled it.\<close>

fun switch_times :: "u32 \<Rightarrow> sched_event list \<Rightarrow> u64 list" where
  "switch_times cpu [] = []"
| "switch_times cpu (Switch K c now prev task random rs # es) = (if c = cpu then [now] else []) @ switch_times cpu es"
| "switch_times cpu (_ # es) = switch_times cpu es"

fun slice_times :: "sched_blame_config \<Rightarrow> nat \<Rightarrow> u32 \<Rightarrow> sched_event list \<Rightarrow> sched_blame_state \<Rightarrow> u64 list" where
  "slice_times cfg X cpu [] s = []"
| "slice_times cfg X cpu (e # es) s =
     (let s' = sched_step cfg X e s; t = (case e of Switch K c now prev task random rs \<Rightarrow> now | _ \<Rightarrow> 0)
      in replicate (length (stream cpu s') - length (stream cpu s)) t @ slice_times cfg X cpu es s')"

definition buffered_times :: "u32 \<Rightarrow> u64 list \<Rightarrow> sched_blame_state \<Rightarrow> u64 list" where
  "buffered_times cpu ts s = drop (length ts - length (buffered cpu s)) ts"

definition dated :: "u64 \<Rightarrow> u32 \<Rightarrow> u64 list \<Rightarrow> sched_blame_state \<Rightarrow> bool" where
  "dated T cpu ts s \<longleftrightarrow> length ts = length (stream cpu s) \<and>
     list_all (\<lambda>t. batch_first_ts_ns_by_cpu s (ucast cpu) \<noteq> 0 \<and> batch_first_ts_ns_by_cpu s (ucast cpu) \<le> t \<and> t \<le> T)
       (buffered_times cpu ts s)"

abbreviation (input) "young now \<equiv> list_all (\<lambda>t. unat now - unat t < 10000000)"

lemma dated_cong: "batch_view cpu s' = batch_view cpu s \<Longrightarrow> dated T cpu ts s' = dated T cpu ts s"
  using batch_view_cong [of cpu s' s] by (simp add: dated_def buffered_times_def)

lemma dated_flush:
  assumes d: "dated T cpu ts s" and f: "flushes now cpu s m" and T: "T \<le> now"
  shows "dated now cpu ts m \<and> young now (buffered_times cpu ts m)"
proof (cases "buffered cpu m = []")
  case True
  then show ?thesis using d f by (simp add: dated_def flushes_def buffered_times_def)
next
  case False
  let ?first = "batch_first_ts_ns_by_cpu s (ucast cpu)"
  have m: "stream cpu m = stream cpu s" "buffered cpu m = buffered cpu s" "batch_first_ts_ns_by_cpu m (ucast cpu) = ?first"
      "?first = 0 \<or> now - ?first < SLICE_BATCH_MAX_AGE_NS"
    using f False by (auto simp: flushes_def)
  have "unat now - unat t < 10000000" if "?first \<noteq> 0" "?first \<le> t" "t \<le> T" for t
  proof -
    have "unat (now - ?first) = unat now - unat ?first" using that T by (intro unat_sub) auto
    then show ?thesis using that m(4) by (simp add: word_less_nat_alt word_le_nat_alt)
  qed
  then show ?thesis
    using d T m by (fastforce simp: dated_def buffered_times_def list_all_iff intro: order_trans)
qed

lemma dated_extend:
  assumes d: "dated now cpu ts m" and y: "young now (buffered_times cpu ts m)" and e: "extends now cpu m s'"
    and now: "now \<noteq> 0" and ts': "ts' = ts @ replicate (length (stream cpu s') - length (stream cpu m)) now"
  shows "dated now cpu ts' s' \<and> young now (buffered_times cpu ts' s')"
  using e unfolding extends_def
proof (elim disjE exE conjE)
  assume "stream cpu s' = stream cpu m" "buffered cpu s' = buffered cpu m"
    "batch_first_ts_ns_by_cpu s' (ucast cpu) = batch_first_ts_ns_by_cpu m (ucast cpu)"
  moreover from this have "ts' = ts" "buffered_times cpu ts s' = buffered_times cpu ts m" by (simp_all add: ts' buffered_times_def)
  ultimately show ?thesis using d y by (simp add: dated_def)
next
  fix packed assume "stream cpu s' = stream cpu m @ [packed]" "buffered cpu s' = []"
  then show ?thesis using d by (simp add: ts' dated_def buffered_times_def)
next
  fix packed assume s: "stream cpu s' = stream cpu m @ [packed]" "buffered cpu s' = buffered cpu m @ [packed]"
    "batch_first_ts_ns_by_cpu s' (ucast cpu) = (if buffered cpu m = [] then now else batch_first_ts_ns_by_cpu m (ucast cpu))"
  have "length (buffered cpu m) \<le> length ts" using d by (simp add: dated_def stream_def)
  then have b: "buffered_times cpu ts' s' = buffered_times cpu ts m @ [now]"
    using s(1,2) by (simp add: ts' buffered_times_def)
  have "batch_first_ts_ns_by_cpu s' (ucast cpu) \<noteq> 0 \<and> batch_first_ts_ns_by_cpu s' (ucast cpu) \<le> now"
  proof (cases "buffered_times cpu ts m")
    case Nil
    then have "length (buffered cpu m) = 0"
      using \<open>length (buffered cpu m) \<le> length ts\<close> by (simp add: buffered_times_def del: length_0_conv)
    then have "buffered cpu m = []" by simp
    then show ?thesis using s(3) now by simp
  next
    case (Cons t tb)
    then show ?thesis using d s(3) now by (auto simp: dated_def intro: order_trans)
  qed
  moreover have "buffered_times cpu ts m = [] \<or> batch_first_ts_ns_by_cpu s' (ucast cpu) = batch_first_ts_ns_by_cpu m (ucast cpu)"
    using s(3) by (auto simp: buffered_times_def split: if_splits)
  ultimately show ?thesis
    using d y s(1) unfolding b dated_def by (auto simp: b ts' list_all_iff)
qed

lemma dated_switch:
  assumes d: "dated T cpu ts s" and inv: "cpu_inv cfg cpu s" and cpu: "cpu < 512" and t: "T \<le> now" "now \<noteq> 0"
    and s': "s' = sched_step cfg X (Switch K cpu now prev task random rs) s"
    and ts': "ts' = ts @ replicate (length (stream cpu s') - length (stream cpu s)) now"
  shows "dated now cpu ts' s' \<and> young now (buffered_times cpu ts' s')"
proof -
  obtain m where m: "flushes now cpu s m" "extends now cpu m s'"
    using switch_inv [OF inv, of s' X K cpu now prev task random rs] cpu s' by auto
  note dated_flush [OF d m(1) t(1)]
  moreover have "ts' = ts @ replicate (length (stream cpu s') - length (stream cpu m)) now"
    using m(1) ts' by (simp add: flushes_def)
  ultimately show ?thesis using dated_extend [OF _ _ m(2) t(2)] by blast
qed

lemma other_view:
  assumes "switch_times cpu [e] = []" and inv: "cpu_inv cfg cpu s"
  shows "batch_view cpu (sched_step cfg X e s) = batch_view cpu s"
proof (cases "\<exists>K c now prev task random rs. e = Switch K c now prev task random rs")
  case True
  then show ?thesis using switch_inv [OF inv refl, THEN conjunct2] assms(1) by (fastforce split: if_splits)
next
  case False
  then show ?thesis by (cases e) (simp_all add: on_sched_wakeup_def on_sched_wakeup_new_def view_probes)
qed

lemma switch_times_Cons: "switch_times cpu (e # es) = switch_times cpu [e] @ switch_times cpu es"
  by (cases e) simp_all

lemma slice_times_append:
  "slice_times cfg X cpu (es @ fs) s = slice_times cfg X cpu es s @ slice_times cfg X cpu fs (fold (sched_step cfg X) es s)"
  by (induction es arbitrary: s) (simp_all add: Let_def)

lemma switch_times_append: "switch_times cpu (es @ fs) = switch_times cpu es @ switch_times cpu fs"
proof (induction es)
  case (Cons e es)
  then show ?case by (cases e) simp_all
qed simp

lemma dated_run:
  assumes "dated T cpu ts s" "cpu_inv cfg cpu s" "cpu < 512" "sorted (T # switch_times cpu es)" "0 \<notin> set (switch_times cpu es)"
  shows "dated (last (T # switch_times cpu es)) cpu (ts @ slice_times cfg X cpu es s) (fold (sched_step cfg X) es s)"
  using assms
proof (induction es arbitrary: T ts s)
  case (Cons e es)
  define s' where "s' = sched_step cfg X e s"
  have inv: "cpu_inv cfg cpu s'" unfolding s'_def by (rule sched_inv_step [OF Cons.prems(2)])
  show ?case
  proof (cases "switch_times cpu [e] = []")
    case True
    note v = other_view [OF True Cons.prems(2), of X, folded s'_def]
    have "dated T cpu ts s'" using Cons.prems(1) dated_cong [OF v] by simp
    moreover have "switch_times cpu (e # es) = switch_times cpu es" using True by (simp add: switch_times_Cons [of cpu e es])
    ultimately show ?thesis using Cons.IH [OF _ inv Cons.prems(3)] Cons.prems(4,5) batch_view_cong [OF v] by (simp add: s'_def [symmetric])
  next
    case False
    then obtain K now prev task random rs where e: "e = Switch K cpu now prev task random rs"
      by (cases e) (auto split: if_splits)
    let ?ts = "ts @ replicate (length (stream cpu s') - length (stream cpu s)) now"
    have t: "T \<le> now" "now \<noteq> 0" "sorted (now # switch_times cpu es)" "0 \<notin> set (switch_times cpu es)"
      using Cons.prems(4,5) by (auto simp: e)
    have "dated now cpu ?ts s'" using dated_switch [OF Cons.prems(1-3) t(1,2) _ refl, of s'] e by (simp add: s'_def)
    from Cons.IH [OF this inv Cons.prems(3) t(3,4)] show ?thesis by (simp add: e s'_def Let_def)
  qed
qed simp

text \<open>C40. Batches do not grow stale: in every run from an empty session in which the clock of a CPU's
  switches does not go back and is never zero, right after a context switch at \<open>now\<close> every slice
  that the CPU still buffers was sampled less than 10ms before \<open>now\<close>. The time of a slice is the
  reading of the switch that added it to the CPU's \<open>stream\<close>, whose end is the buffer.\<close>

theorem batch_age_bounded:
  assumes cpu: "cpu < 512" and e: "e = Switch K cpu now prev task random rs"
    and clock: "sorted (switch_times cpu (es @ [e]))" "0 \<notin> set (switch_times cpu (es @ [e]))"
    and s': "s' = fold (sched_step cfg X) (es @ [e]) (sched_init X)"
    and ts: "ts = slice_times cfg X cpu (es @ [e]) (sched_init X)"
  shows "length ts = length (stream cpu s') \<and>
    list_all (\<lambda>t. unat now - unat t < 10000000) (drop (length ts - length (buffered cpu s')) ts)"
proof -
  define s where "s = fold (sched_step cfg X) es (sched_init X)"
  have inv: "cpu_inv cfg cpu (sched_init X)" "cpu_inv cfg cpu s"
    unfolding s_def by (rule sched_init_inv sched_inv_run [OF sched_init_inv])+
  have "dated 0 cpu [] (sched_init X)"
    by (simp add: dated_def buffered_times_def stream_def submitted_def buffered_def slices_of_def batch_log_def sched_init_def)
  moreover have "sorted (0 # switch_times cpu es)" "0 \<notin> set (switch_times cpu es)"
    and last: "last (0 # switch_times cpu es) \<le> now" "now \<noteq> 0"
    using clock by (auto simp: switch_times_append sorted_append e dest: last_in_set)
  ultimately have "dated (last (0 # switch_times cpu es)) cpu (slice_times cfg X cpu es (sched_init X)) s"
    using dated_run [OF _ inv(1) cpu, of 0 "[]" es X] by (simp add: s_def)
  moreover have "s' = sched_step cfg X (Switch K cpu now prev task random rs) s"
    "ts = slice_times cfg X cpu es (sched_init X) @ replicate (length (stream cpu s') - length (stream cpu s)) now"
    by (simp_all add: s' ts e slice_times_append s_def)
  ultimately have "dated now cpu ts s' \<and> young now (buffered_times cpu ts s')"
    using dated_switch [OF _ inv(2) cpu] last by blast
  then show ?thesis unfolding dated_def buffered_times_def by blast
qed

section \<open>Dense ids\<close>

lemma unat_ucast_u8 [simp]: "unat (ucast (w :: u8) :: u32) = unat w"
proof -
  have "unat w < 2 ^ LENGTH(8)" by (rule unsigned_less)
  then show ?thesis by (simp add: unsigned_ucast_eq take_bit_nat_eq_self)
qed

lemma resolve_cached:
  assumes "resolve_target_dense_id X cpu cgid css_index epoch s = (d, s')"
  shows "cache_epoch (css_id_to_dense_id s' (css_mask css_index)) = epoch \<and>
    d = ucast (cache_dense_id (css_id_to_dense_id s' (css_mask css_index))) \<and>
    waiting_target_bitmap_by_cpu s' = waiting_target_bitmap_by_cpu s \<and>
    resolve_target_dense_id X cpu' cgid' css_index epoch s' = (d, s')"
  using assms
  by (auto simp: resolve_target_dense_id_def Let_def count_def count_add_def split: if_splits option.splits)

text \<open>Target lookup is cached coherently: the first lookup of a css id in an epoch is the published
  target table, with unknown and out-of-range targets reported as no target; every later lookup
  of that css id in the epoch gives the same answer and changes nothing; no other entry moves.\<close>

theorem resolve_coherent:
  assumes "X \<le> 3" and "cache_epoch (css_id_to_dense_id s (css_mask css_index)) \<noteq> epoch"
    and r: "resolve_target_dense_id X cpu cgid css_index epoch s = (d, s')"
  shows "unat d = (case target_cgid_to_dense s cgid of None \<Rightarrow> 255
      | Some m \<Rightarrow> if unat m < 20 + 64 * X then unat m else 255) \<and>
    resolve_target_dense_id X cpu' cgid' css_index epoch s' = (d, s') \<and>
    (\<forall>i. i \<noteq> css_mask css_index \<longrightarrow> css_id_to_dense_id s' i = css_id_to_dense_id s i)"
proof -
  have "unat d = (case target_cgid_to_dense s cgid of None \<Rightarrow> 255
      | Some m \<Rightarrow> if unat m < 20 + 64 * X then unat m else 255)"
    using r assms(2) unat_MAX_TARGETS [OF assms(1)]
    by (auto simp: resolve_target_dense_id_def Let_def word_le_nat_alt split: option.splits if_splits)
  moreover have "\<forall>i. i \<noteq> css_mask css_index \<longrightarrow> css_id_to_dense_id s' i = css_id_to_dense_id s i"
    using r by (auto simp: resolve_target_dense_id_def Let_def count_def count_add_def split: option.splits if_splits)
  ultimately show ?thesis using resolve_cached [OF r] by blast
qed

section \<open>Waiting truth after a switch\<close>

lemma sized_fields [simp]:
  "well_sized X (waiting_epoch_by_cpu_update b s) = well_sized X s"
  "well_sized X (css_id_to_dense_id_update d s) = well_sized X s"
  "well_sized X (observed_identity_update e s) = well_sized X s"
  "well_sized X (running_css_id_by_cpu_update f s) = well_sized X s"
  "well_sized X (previous_switch_ns_by_cpu_update g s) = well_sized X s"
  "well_sized X (slice_batches_percpu_update h s) = well_sized X s"
  "well_sized X (batch_first_ts_ns_by_cpu_update i s) = well_sized X s"
  "well_sized X (perf_log_update j s) = well_sized X s"
  "well_sized X (counters_update k s) = well_sized X s"
  by (simp_all add: well_sized_def)

lemma sized_small [simp]:
  "well_sized X (count_add n c d s) = well_sized X s" "well_sized X (count n c s) = well_sized X s"
  "well_sized X (perf_output ci r res s) = well_sized X s" "well_sized X (put_batch c b s) = well_sized X s"
  "well_sized X (clear_running_css_id ci s) = well_sized X s"
  "well_sized X (set_running_css_id ci cs s) = well_sized X s"
  by (simp_all add: count_def count_add_def perf_output_def put_batch_def clear_running_css_id_def set_running_css_id_def)

lemma sized_batching [simp]:
  "well_sized X (emit_slice_batch Y c ci b res s) = well_sized X s"
  "well_sized X (flush_slice_batch_if_aged Y c ci now res s) = well_sized X s"
  "well_sized X (maybe_emit_identity ci tg cs res s) = well_sized X s"
  "well_sized X (append_sampled_slice cfg Y c ci now p r1 r2 s) = well_sized X s"
  "well_sized X (snd (pack_slice c dur w cs s)) = well_sized X s"
  by (auto simp: emit_slice_batch_def flush_slice_batch_if_aged_def maybe_emit_identity_def
      append_sampled_slice_def output_slice_batch_def pack_slice_def Let_def split: option.splits)

lemma sized_resolve [simp]: "well_sized X (snd (resolve_target_dense_id Y c cg ci ep s)) = well_sized X s"
  by (auto simp: resolve_target_dense_id_def Let_def split: option.splits)

lemma sized_set_waiting:
  "X \<le> 3 \<Longrightarrow> well_sized X s \<Longrightarrow> well_sized X (set_waiting X cpu ci d w t s)"
proof (cases "unat d < 20 + 64 * X")
  case True
  assume "X \<le> 3" "well_sized X s"
  from set_waiting_bitmap [OF this True, of cpu ci w t] \<open>well_sized X s\<close> show ?thesis
    by (metis well_sized_upd)
next
  case False
  assume "X \<le> 3" "well_sized X s"
  with False unat_MAX_TARGETS [of X] show ?thesis by (simp add: set_waiting_def word_le_nat_alt)
qed

lemma sized_ensure: "well_sized X s \<Longrightarrow> well_sized X (ensure_waiting_bitmap_epoch X ci ep s)"
  by (simp add: ensure_waiting_bitmap_epoch_def Let_def well_sized_def)

lemma sized_switch_parts:
  "well_sized X (snd (switch_identity K c ci tg res s)) = well_sized X s"
  "well_sized X (switch_slice cfg Y c ci now st pid tg cs rnd rs s) = well_sized X s"
  "X \<le> 3 \<Longrightarrow> well_sized X s \<Longrightarrow> well_sized X (switch_waiting_prev K X c ci ep t tg cs s)"
  by (auto simp: switch_identity_def switch_slice_def switch_waiting_prev_def Let_def case_prod_beta sized_set_waiting)

lemma switch_identity_css: "tg \<noteq> 0 \<Longrightarrow> fst (switch_identity K c ci tg res s) = task_group_css_id K tg"
  by (simp add: switch_identity_def Let_def)

lemma set_waiting_cache [simp]:
  "css_id_to_dense_id (set_waiting X c ci d w t s) = css_id_to_dense_id s"
  by (simp add: set_waiting_def put_extra_def Let_def count_def count_add_def)

lemma waiting_next:
  assumes X: "X \<le> 3" and ws: "well_sized X s" and h: "tg \<noteq> 0" "css < MAX_CSS_IDS"
    and s': "s' = switch_waiting_next K X cpu ci ep task tg css s"
    and d: "d = unat (cache_dense_id (css_id_to_dense_id s' (ucast css)))" "d < 20 + 64 * X"
  shows "cpu_is_running_css_id ci (ucast css) s' \<and>
    (d \<in> waiting_set X s' ci \<longleftrightarrow> 2 \<le> unat (task_cfs_h_nr_running K task))"
proof -
  obtain dense s1 where r: "resolve_target_dense_id X cpu tg (ucast css) ep s = (dense, s1)"
    by (cases "resolve_target_dense_id X cpu tg (ucast css) ep s")
  define s2 where "s2 = (if dense \<noteq> NON_TARGET then set_waiting X cpu ci dense (task_cfs_h_nr_running K task \<ge> 2) False s1 else s1)"
  have eq: "s' = set_running_css_id ci (ucast css) s2"
    using h r by (simp add: s' switch_waiting_next_def s2_def)
  have ws1: "well_sized X s1" using ws sized_resolve [of X X cpu tg "ucast css" ep s] r by simp
  have cache: "css_id_to_dense_id s' = css_id_to_dense_id s1"
    by (simp add: eq s2_def set_running_css_id_def)
  have dd: "d = unat dense"
    using resolve_cached [OF r] h(2) by (simp add: d(1) cache)
  then have "dense \<noteq> NON_TARGET" using d(2) X by auto
  then have s2: "s2 = set_waiting X cpu ci dense (task_cfs_h_nr_running K task \<ge> 2) False s1" by (simp add: s2_def)
  have "waiting_set X s2 ci = (if task_cfs_h_nr_running K task \<ge> 2 then insert (unat dense) (waiting_set X s1 ci)
      else waiting_set X s1 ci - {unat dense})"
    using set_waiting_refines_aux [OF X ws1 _ s2, of ci] d(2) dd by simp
  moreover have "waiting_set X s' ci = waiting_set X s2 ci"
    by (simp add: eq set_running_css_id_def waiting_set_def)
  ultimately show ?thesis
    using h(2) dd by (simp add: cpu_is_running_css_id_def eq set_running_css_id_def word_le_nat_alt)
qed

text \<open>A context switch establishes the waiting truth for the task it switches to: afterwards the
  CPU is recorded as running that task's cgroup, and if the cgroup is a target it is marked as
  waiting on this CPU exactly when it has another runnable task there; this also holds when the
  previous task was of the same cgroup.\<close>

theorem switch_next_waiting:
  assumes "X \<le> 3" and "well_sized X s" and cpu: "cpu < 512"
    and "task_pid K task \<noteq> 0" and tg: "tg = task_group_of K task" "tg \<noteq> 0"
    and css: "css = task_group_css_id K tg" "css < MAX_CSS_IDS"
    and s': "s' = on_sched_switch cfg X K cpu now prev task random rs s"
    and d: "d = unat (cache_dense_id (css_id_to_dense_id s' (ucast css)))" "d < 20 + 64 * X"
  shows "cpu_is_running_css_id (ucast cpu) (ucast css) s' \<and>
    (d \<in> waiting_set X s' (ucast cpu) \<longleftrightarrow> 2 \<le> unat (task_cfs_h_nr_running K task))"
proof -
  obtain t where "well_sized X t" "s' = switch_waiting_next K X cpu (ucast cpu) (target_css_id_epoch s) task tg css t"
  proof
    let ?s1 = "ensure_waiting_bitmap_epoch X (ucast cpu) (target_css_id_epoch s) s"
    let ?s3 = "flush_slice_batch_if_aged X cpu (ucast cpu) now (r_flush rs)
      (?s1\<lparr>previous_switch_ns_by_cpu := (previous_switch_ns_by_cpu ?s1)(ucast cpu := now)\<rparr>)"
    let ?ptg = "if task_pid K prev = 0 then 0 else task_group_of K prev"
    let ?pi = "switch_identity K cpu (ucast cpu) ?ptg (r_prev_identity rs) ?s3"
    let ?ni = "switch_identity K cpu (ucast cpu) tg (r_next_identity rs) (snd ?pi)"
    let ?s6 = "switch_slice cfg X cpu (ucast cpu) now (previous_switch_ns_by_cpu ?s1 (ucast cpu))
      (task_pid K prev) ?ptg (fst ?pi) random rs (snd ?ni)"
    let ?t = "clear_running_css_id (ucast cpu)
      (switch_waiting_prev K X cpu (ucast cpu) (target_css_id_epoch s) prev ?ptg (fst ?pi) ?s6)"
    have "fst ?ni = css" using switch_identity_css [OF tg(2)] css(1) by simp
    then show "s' = switch_waiting_next K X cpu (ucast cpu) (target_css_id_epoch s) task tg css ?t"
      using assms(4) cpu unfolding s' on_sched_switch_def
      by (simp add: not_le Let_def case_prod_beta tg(1))
    show "well_sized X ?t"
      using sized_ensure [OF assms(2)] assms(1) by (simp add: sized_switch_parts)
  qed
  from waiting_next [OF assms(1) this(1) tg(2) css(2) this(2) d] show ?thesis .
qed

section \<open>Witnesses\<close>

text \<open>Task 1 of cgroup 100 (css 5) is alone; task 2 of cgroup 200 (css 6), published as target 7, has a
  second runnable task.\<close>

definition sb_demo_kernel :: sched_kernel where
  "sb_demo_kernel = \<lparr>has_task_state = True, has_task_cpu = True, has_thread_info_cpu = True,
     k_sched_task_group = [1 \<mapsto> 100, 2 \<mapsto> 200], k_css_id = [100 \<mapsto> 5, 200 \<mapsto> 6], k_pid = [1 \<mapsto> 11, 2 \<mapsto> 12],
     k_state = [1 \<mapsto> 0, 2 \<mapsto> 0], k_state_514 = Map.empty, k_task_cpu = [1 \<mapsto> 3, 2 \<mapsto> 3],
     k_thread_info_cpu = Map.empty, k_se_cfs_rq = [1 \<mapsto> 300, 2 \<mapsto> 400], k_h_nr_running = [300 \<mapsto> 1, 400 \<mapsto> 2],
     k_throttled = [300 \<mapsto> 0, 400 \<mapsto> 0], k_cfs_rq_rq = Map.empty, k_cfs_rq_tg = Map.empty, k_rq_cpu = Map.empty,
     k_rq_clock = Map.empty, k_throttled_clock = Map.empty\<rparr>"

definition sb_demo_cfg :: sched_blame_config where
  "sb_demo_cfg = \<lparr>SLICE_KEEP_THRESHOLD = 429496729, KEEP_ALL_SLICES = 1, SLICE_BATCH_SIZE = 128\<rparr>"

definition sb_ok :: switch_results where
  "sb_ok = \<lparr>r_flush = 0, r_prev_identity = 0, r_next_identity = 0, r_batch_over = 0, r_batch_full = 0\<rparr>"

definition sb_published :: sched_blame_state where
  "sb_published = sched_step sb_demo_cfg 1 (Publish [200 \<mapsto> 7] 1) (sched_init 1)"

lemma sb_published_sized: "well_sized 1 sb_published"
  by (simp add: sb_published_def sched_init_def well_sized_def)

theorem pack_slice_roundtrip_witness:
  "slice_duration (fst (pack_slice 3 5000 \<lparr>bitmap_base = 6, bitmap_extra = [1]\<rparr> 9 sb_published)) = 5000"
proof -
  obtain p s' where r: "pack_slice 3 5000 \<lparr>bitmap_base = 6, bitmap_extra = [1]\<rparr> 9 sb_published = (p, s')"
    by (meson surj_pair)
  have "unat (9 :: u64) < 4096" by simp
  from pack_slice_roundtrip [OF this r] show ?thesis by (simp add: r)
qed

definition sb_demo_run :: "sched_event list" where
  "sb_demo_run = [Publish [200 \<mapsto> 7] 1, Switch sb_demo_kernel 3 1000 1 2 0 sb_ok,
     Switch sb_demo_kernel 3 2000 2 1 0 sb_ok]"

definition sb_demo_state :: sched_blame_state where
  "sb_demo_state = fold (sched_step sb_demo_cfg 1) sb_demo_run (sched_init 1)"

theorem slices_conserved_witness:
  "counters sb_demo_state N_sampled_slices 3 = Some (of_nat (length (delivered 3 sb_demo_state) +
     length (failed 3 sb_demo_state) + length (buffered 3 sb_demo_state)))"
  by (rule slices_conserved [OF sb_demo_state_def, THEN conjunct1])

theorem batch_age_bounded_witness:
  "let es = sb_demo_run @ [Switch sb_demo_kernel 3 3000 1 2 0 sb_ok];
       s' = fold (sched_step sb_demo_cfg 1) es (sched_init 1); ts = slice_times sb_demo_cfg 1 3 es (sched_init 1)
   in length ts = length (stream 3 s') \<and>
      list_all (\<lambda>t. 3000 - unat t < 10000000) (drop (length ts - length (buffered 3 s')) ts)"
proof -
  have cpu: "(3 :: u32) < 512" by (simp add: word_less_nat_alt)
  have clock: "sorted (switch_times 3 (sb_demo_run @ [Switch sb_demo_kernel 3 3000 1 2 0 sb_ok]))"
      "0 \<notin> set (switch_times 3 (sb_demo_run @ [Switch sb_demo_kernel 3 3000 1 2 0 sb_ok]))"
    by (simp_all add: sb_demo_run_def word_le_nat_alt)
  have now: "unat (3000 :: u64) = 3000" by simp
  from batch_age_bounded [OF cpu refl clock refl refl, of sb_demo_cfg 1] show ?thesis
    unfolding Let_def now .
qed

theorem slice_stream_fifo_witness:
  "stream 3 (append_sampled_slice sb_demo_cfg 1 3 (ucast (3 :: u32)) 3000 \<lparr>packed_base = 9, slice_extra = [0]\<rparr> 0 0 sb_demo_state) =
   stream 3 sb_demo_state @ [\<lparr>packed_base = 9, slice_extra = [0]\<rparr>]"
proof -
  have "(3 :: u32) < 512" by (simp add: word_less_nat_alt)
  from slice_stream_fifo [OF this sb_demo_state_def refl, THEN conjunct1] show ?thesis .
qed

text \<open>From idle, task 2 is the first of its cgroup that the probe sees in this epoch.\<close>

definition cache_view where "cache_view s = (css_id_to_dense_id s, target_cgid_to_dense s)"

lemma cache_view_frame [simp]:
  "cache_view (ensure_waiting_bitmap_epoch X ci ep s) = cache_view s"
  "cache_view (previous_switch_ns_by_cpu_update g s) = cache_view s"
  "cache_view (clear_running_css_id ci s) = cache_view s"
  "cache_view (count n c s) = cache_view s"
  "cache_view (emit_slice_batch X c ci b res s) = cache_view s"
  "cache_view (maybe_emit_identity ci tg cs res s) = cache_view s"
  by (simp_all add: cache_view_def ensure_waiting_bitmap_epoch_def clear_running_css_id_def count_def count_add_def
      emit_slice_batch_def output_slice_batch_def perf_output_def put_batch_def maybe_emit_identity_def Let_def)

lemma cache_view_parts [simp]:
  "cache_view (flush_slice_batch_if_aged X c ci now res s) = cache_view s"
  "cache_view (snd (switch_identity K c ci tg res s)) = cache_view s"
  "cache_view (switch_slice cfg X c ci now st 0 tg cs rnd rs s) = cache_view s"
  "cache_view (switch_waiting_prev K X c ci ep t 0 cs s) = cache_view s"
  by (simp_all add: flush_slice_batch_if_aged_def switch_identity_def switch_slice_def switch_waiting_prev_def Let_def
      split: option.splits)

lemma next_from_idle:
  assumes "cpu < 512" and "task_pid K prev = 0" and "task_pid K task \<noteq> 0"
    and "tg = task_group_of K task" "tg \<noteq> 0" and "css = task_group_css_id K tg" "css < MAX_CSS_IDS"
    and "cache_epoch (css_id_to_dense_id s (ucast css)) \<noteq> target_css_id_epoch s"
    and "target_cgid_to_dense s tg = Some m" and "\<not> ucast m \<ge> MAX_TARGETS X"
  shows "cache_dense_id (css_id_to_dense_id (on_sched_switch cfg X K cpu now prev task random rs s) (ucast css)) = m"
proof -
  let ?s1 = "ensure_waiting_bitmap_epoch X (ucast cpu) (target_css_id_epoch s) s"
  let ?s3 = "flush_slice_batch_if_aged X cpu (ucast cpu) now (r_flush rs)
    (?s1\<lparr>previous_switch_ns_by_cpu := (previous_switch_ns_by_cpu ?s1)(ucast cpu := now)\<rparr>)"
  let ?ni = "switch_identity K cpu (ucast cpu) tg (r_next_identity rs) ?s3"
  define t where "t = clear_running_css_id (ucast cpu)
    (switch_slice cfg X cpu (ucast cpu) now (previous_switch_ns_by_cpu ?s1 (ucast cpu)) 0 0 0 random rs (snd ?ni))"
  have v: "css_id_to_dense_id t = css_id_to_dense_id s" "target_cgid_to_dense t = target_cgid_to_dense s"
  proof -
    have "cache_view t = cache_view s" by (simp add: t_def)
    then show "css_id_to_dense_id t = css_id_to_dense_id s" "target_cgid_to_dense t = target_cgid_to_dense s"
      by (simp_all add: cache_view_def)
  qed
  have "on_sched_switch cfg X K cpu now prev task random rs s =
      switch_waiting_next K X cpu (ucast cpu) (target_css_id_epoch s) task tg css t"
    using assms(1-6) switch_identity_css [OF assms(5), of K cpu "ucast cpu" "r_next_identity rs" ?s3]
    unfolding on_sched_switch_def t_def
    by (simp add: not_le Let_def case_prod_beta switch_identity_def [of K cpu _ 0] switch_waiting_prev_def)
  then show ?thesis
    using assms(5,7-10) v
    by (simp add: switch_waiting_next_def resolve_target_dense_id_def set_running_css_id_def Let_def)
qed

lemma sb_demo_kernel_simps:
  "task_pid sb_demo_kernel 0 = 0" "task_pid sb_demo_kernel 2 \<noteq> 0" "task_group_of sb_demo_kernel 2 = 200"
  "task_group_css_id sb_demo_kernel 200 = 6" "task_cfs_h_nr_running sb_demo_kernel 2 = 2"
  by (simp_all add: sb_demo_kernel_def task_pid_def task_group_of_def task_group_css_id_def
      task_cfs_h_nr_running_def core_read_def)

lemma sb_demo_dense:
  "cache_dense_id (css_id_to_dense_id
     (on_sched_switch sb_demo_cfg 1 sb_demo_kernel 3 1000 0 2 0 sb_ok sb_published) (ucast (6 :: u32))) = 7"
  by (rule next_from_idle [where tg = 200])
    (simp_all add: sb_demo_kernel_simps word_cmp_nat sb_published_def sched_init_def cache_epoch_def MAX_TARGETS_def)

end
