(* ===== verification/Task_Css.thy ===== *)
theory Task_Css
  imports Bpf_Prelude
begin

text \<open>
  The kernel memory of tasks and their cgroups, and the accessors of \<^verbatim>\<open>bpf/include/bpf_cgroup.h\<close> for
  the current task. The ids of the cgroup subsystems are those of the running kernel.
\<close>

record task_css_kernel =
  ct_flags :: "u64 \<Rightarrow> u32 option"
  ct_tgid :: "u64 \<Rightarrow> u32 option"
  ct_comm :: "u64 \<Rightarrow> string option"
  ct_cgroups :: "u64 \<Rightarrow> u64 option"
  css_set_subsys :: "u64 \<Rightarrow> nat \<Rightarrow> u64 option"
  cpu_cgrp_id :: nat
  memory_cgrp_id :: nat

definition task_css :: "'a task_css_kernel_scheme \<Rightarrow> nat \<Rightarrow> u64 \<Rightarrow> u64" where
  "task_css K subsys_id task = core_read (\<lambda>p. css_set_subsys K p subsys_id) (core_read (ct_cgroups K) task)"

definition current_task_cpu_css_addr :: "'a task_css_kernel_scheme \<Rightarrow> u64 \<Rightarrow> u64" where
  "current_task_cpu_css_addr K task = task_css K (cpu_cgrp_id K) task"

definition current_task_memory_css_addr :: "'a task_css_kernel_scheme \<Rightarrow> u64 \<Rightarrow> u64" where
  "current_task_memory_css_addr K task = task_css K (memory_cgrp_id K) task"

end
