(* ===== verification/Func_Trace.thy ===== *)
theory Func_Trace
  imports Task_Css
begin

text \<open>
  Calls timed from entry to return: \<^verbatim>\<open>bpf/include/bpf_func_trace.h\<close> and its two users,
  \<^verbatim>\<open>bpf/memory_free_compact.c\<close>, which adds up the time spent in direct reclaim and in compaction,
  and \<^verbatim>\<open>bpf/memory_reclaim_events.c\<close>, which reports slow direct reclaims.
\<close>

section \<open>Timed calls\<close>

record trace_entry_ctx =
  tc_id :: u64
  tc_start_ns :: u64
  tc_duration_ns :: u64

type_synonym func_trace = "u64 \<rightharpoonup> trace_entry_ctx"

definition func_trace_begin :: "map_fault \<Rightarrow> u64 \<Rightarrow> u64 \<Rightarrow> func_trace \<Rightarrow> func_trace" where
  "func_trace_begin f now call m =
     snd (bpf_map_update_elem f BPF_ANY call \<lparr>tc_id = call, tc_start_ns = now, tc_duration_ns = 0\<rparr> m)"

definition func_trace_end :: "u64 \<Rightarrow> u64 \<Rightarrow> func_trace \<Rightarrow> trace_entry_ctx option \<times> func_trace" where
  "func_trace_end now call m =
     (case m call of None \<Rightarrow> (None, m)
      | Some entry \<Rightarrow>
          let entry1 = entry\<lparr>tc_duration_ns := now - tc_start_ns entry\<rparr> in (Some entry1, m(call \<mapsto> entry1)))"

definition func_trace_destroy :: "map_fault \<Rightarrow> u64 \<Rightarrow> func_trace \<Rightarrow> func_trace" where
  "func_trace_destroy f call m = snd (bpf_map_delete_elem f call m)"

section \<open>Reclaim and compaction time\<close>

record mm_free_compact_entry =
  compaction_stat :: u64
  allocstall_stat :: u64

record free_compact_state =
  fc_trace :: func_trace
  mm_free_compact_map :: "u32 \<rightharpoonup> mm_free_compact_entry"

definition update_metric_map ::
  "map_fault \<Rightarrow> u64 \<Rightarrow> u64 \<Rightarrow> (u32 \<rightharpoonup> mm_free_compact_entry) \<Rightarrow> (u32 \<rightharpoonup> mm_free_compact_entry)" where
  "update_metric_map f free_duration_ns compact_duration_ns m =
     (case m 0 of
        None \<Rightarrow> snd (bpf_map_update_elem f BPF_ANY 0
                  \<lparr>compaction_stat = compact_duration_ns, allocstall_stat = free_duration_ns\<rparr> m)
      | Some valp \<Rightarrow>
          let v1 = (if free_duration_ns \<noteq> 0
                    then valp\<lparr>allocstall_stat := allocstall_stat valp + free_duration_ns\<rparr> else valp);
              v2 = (if compact_duration_ns \<noteq> 0
                    then v1\<lparr>compaction_stat := compaction_stat v1 + compact_duration_ns\<rparr> else v1)
          in m(0 \<mapsto> v2))"

text \<open>A firing: the id of the thread, the time, and the failures of the two map changes.\<close>

record call_env =
  ce_id :: u64
  ce_now :: u64
  ce_update :: map_fault
  ce_delete :: map_fault

definition func_trace_end_and_update_metric ::
  "call_env \<Rightarrow> bool \<Rightarrow> free_compact_state \<Rightarrow> free_compact_state" where
  "func_trace_end_and_update_metric env free_pages s =
     (case func_trace_end (ce_now env) (ce_id env) (fc_trace s) of
        (None, m) \<Rightarrow> s\<lparr>fc_trace := m\<rparr>
      | (Some entry, m) \<Rightarrow>
          s\<lparr>mm_free_compact_map :=
              (if free_pages then update_metric_map (ce_update env) (tc_duration_ns entry) 0
               else update_metric_map (ce_update env) 0 (tc_duration_ns entry)) (mm_free_compact_map s),
            fc_trace := func_trace_destroy (ce_delete env) (tc_id entry) m\<rparr>)"

definition tracepoint_try_to_free_pages_begin :: "call_env \<Rightarrow> free_compact_state \<Rightarrow> free_compact_state" where
  "tracepoint_try_to_free_pages_begin env s =
     s\<lparr>fc_trace := func_trace_begin (ce_update env) (ce_now env) (ce_id env) (fc_trace s)\<rparr>"

definition tracepoint_try_to_free_pages_end :: "call_env \<Rightarrow> free_compact_state \<Rightarrow> free_compact_state" where
  "tracepoint_try_to_free_pages_end env s = func_trace_end_and_update_metric env True s"

definition kprobe_try_to_compact_pages_host :: "call_env \<Rightarrow> free_compact_state \<Rightarrow> free_compact_state" where
  "kprobe_try_to_compact_pages_host env s =
     s\<lparr>fc_trace := func_trace_begin (ce_update env) (ce_now env) (ce_id env) (fc_trace s)\<rparr>"

definition kretprobe_try_to_compact_pages_host :: "call_env \<Rightarrow> free_compact_state \<Rightarrow> free_compact_state" where
  "kretprobe_try_to_compact_pages_host env s = func_trace_end_and_update_metric env False s"

datatype memory_call = Reclaim | Compaction

datatype memory_probe = Call_begin memory_call call_env | Call_end memory_call call_env

fun free_compact_step :: "memory_probe \<Rightarrow> free_compact_state \<Rightarrow> free_compact_state" where
  "free_compact_step (Call_begin Reclaim env) s = tracepoint_try_to_free_pages_begin env s"
| "free_compact_step (Call_end Reclaim env) s = tracepoint_try_to_free_pages_end env s"
| "free_compact_step (Call_begin Compaction env) s = kprobe_try_to_compact_pages_host env s"
| "free_compact_step (Call_end Compaction env) s = kretprobe_try_to_compact_pages_host env s"

section \<open>Slow reclaims\<close>

record memory_reclaim_event =
  mr_comm :: string
  reclaim_duration_ns :: u64
  cpu_css_addr :: u64
  mr_tgid :: u32
  mr_tid :: u32

record reclaim_events_state =
  re_trace :: func_trace
  reclaim_perf_events :: "memory_reclaim_event list"

record 'a reclaim_env =
  rc_call :: call_env
  rc_kernel :: "'a task_css_kernel_scheme"
  rc_task :: u64
  rc_comm :: string

definition kprobe_try_to_free_pages :: "call_env \<Rightarrow> reclaim_events_state \<Rightarrow> reclaim_events_state" where
  "kprobe_try_to_free_pages env s =
     s\<lparr>re_trace := func_trace_begin (ce_update env) (ce_now env) (ce_id env) (re_trace s)\<rparr>"

definition kretprobe_try_to_free_pages ::
  "u64 \<Rightarrow> 'a reclaim_env \<Rightarrow> reclaim_events_state \<Rightarrow> reclaim_events_state" where
  "kretprobe_try_to_free_pages reclaim_duration_threshold_ns env s =
     (case func_trace_end (ce_now (rc_call env)) (ce_id (rc_call env)) (re_trace s) of
        (None, m) \<Rightarrow> s\<lparr>re_trace := m\<rparr>
      | (Some entry, m) \<Rightarrow>
          s\<lparr>reclaim_perf_events := reclaim_perf_events s @
              (if reclaim_duration_threshold_ns < tc_duration_ns entry
               then [\<lparr>mr_comm = rc_comm env, reclaim_duration_ns = tc_duration_ns entry,
                      cpu_css_addr = current_task_cpu_css_addr (rc_kernel env) (rc_task env),
                      mr_tgid = ucast (drop_bit 32 (tc_id entry)), mr_tid = ucast (tc_id entry)\<rparr>]
               else []),
            re_trace := func_trace_destroy (ce_delete (rc_call env)) (tc_id entry) m\<rparr>)"

datatype 'a reclaim_probe = Reclaim_begin call_env | Reclaim_end "'a reclaim_env"

fun reclaim_step :: "u64 \<Rightarrow> 'a reclaim_probe \<Rightarrow> reclaim_events_state \<Rightarrow> reclaim_events_state" where
  "reclaim_step thr (Reclaim_begin env) s = kprobe_try_to_free_pages env s"
| "reclaim_step thr (Reclaim_end env) s = kretprobe_try_to_free_pages thr env s"


section \<open>Calls are measured exactly\<close>

fun memory_caller :: "memory_probe \<Rightarrow> u64 option" where
  "memory_caller (Call_begin k env) = Some (ce_id env)"
| "memory_caller (Call_end k env) = Some (ce_id env)"

fun reclaim_caller :: "'a reclaim_probe \<Rightarrow> u64 option" where
  "reclaim_caller (Reclaim_begin env) = Some (ce_id env)"
| "reclaim_caller (Reclaim_end env) = Some (ce_id (rc_call env))"

text \<open>A row is stored under its own id, so that a return releases the row of its own thread.\<close>

definition own_rows :: "func_trace \<Rightarrow> bool" where
  "own_rows m \<longleftrightarrow> (\<forall>t e. m t = Some e \<longrightarrow> tc_id e = t)"

lemma own_rows_begin: "own_rows m \<Longrightarrow> own_rows (func_trace_begin f now t m)"
  by (auto simp: own_rows_def func_trace_begin_def dest: bmap.update_range)
    (metis bmap.update_other bmap.update_range trace_entry_ctx.select_convs(1))

lemma own_rows_end:
  "own_rows m \<Longrightarrow> func_trace_end now t m = (e, m') \<Longrightarrow> own_rows m' \<and> (\<forall>x. e = Some x \<longrightarrow> tc_id x = t)"
  by (auto simp: own_rows_def func_trace_end_def Let_def split: option.splits if_splits)

lemma own_rows_destroy: "own_rows m \<Longrightarrow> own_rows (func_trace_destroy f t m)"
  unfolding own_rows_def func_trace_destroy_def by (meson bmap.delete_le)

lemma trace_other:
  assumes "t \<noteq> c"
  shows "func_trace_begin f now c m t = m t" and "snd (func_trace_end now c m) t = m t"
    and "func_trace_destroy f c m t = m t"
  using assms by (simp_all add: func_trace_begin_def func_trace_end_def func_trace_destroy_def
      bmap.update_other bmap.delete_other Let_def split: option.split)

lemma trace_end_Some:
  "m t = Some e \<Longrightarrow> func_trace_end now t m = (Some (e\<lparr>tc_duration_ns := now - tc_start_ns e\<rparr>),
     m(t \<mapsto> e\<lparr>tc_duration_ns := now - tc_start_ns e\<rparr>))"
  by (simp add: func_trace_end_def Let_def)

lemma trace_begin_row:
  "f = Fault_none \<Longrightarrow> func_trace_begin f now t m t = Some \<lparr>tc_id = t, tc_start_ns = now, tc_duration_ns = 0\<rparr>"
  by (simp add: func_trace_begin_def)

lemma trace_destroy_row: "f = Fault_none \<Longrightarrow> func_trace_destroy f t m t = None"
  by (cases "m t") (simp_all add: func_trace_destroy_def)

text \<open>The effect of each object's probes on its table.\<close>

lemma free_compact_trace:
  "fc_trace (free_compact_step e s) =
     (case e of Call_begin k env \<Rightarrow> func_trace_begin (ce_update env) (ce_now env) (ce_id env) (fc_trace s)
      | Call_end k env \<Rightarrow>
          (case func_trace_end (ce_now env) (ce_id env) (fc_trace s) of (None, m) \<Rightarrow> m
           | (Some x, m) \<Rightarrow> func_trace_destroy (ce_delete env) (tc_id x) m))"
proof (cases e)
  case (Call_begin k env)
  then show ?thesis
    by (cases k) (simp_all add: tracepoint_try_to_free_pages_begin_def kprobe_try_to_compact_pages_host_def)
next
  case (Call_end k env)
  then show ?thesis
    by (cases k) (simp_all add: tracepoint_try_to_free_pages_end_def kretprobe_try_to_compact_pages_host_def
        func_trace_end_and_update_metric_def split: prod.split option.split)
qed

interpretation fc_calls: touched_rows free_compact_step fc_trace "\<lambda>e t. memory_caller e = Some t" "\<lambda>s. own_rows (fc_trace s)"
proof unfold_locales
  fix s :: free_compact_state and e t
  assume inv: "own_rows (fc_trace s)"
  show "fc_trace (free_compact_step e s) t = fc_trace s t" if "memory_caller e \<noteq> Some t"
  proof (cases e)
    case (Call_end k env)
    obtain x m where m: "func_trace_end (ce_now env) (ce_id env) (fc_trace s) = (x, m)" by (cases "func_trace_end (ce_now env) (ce_id env) (fc_trace s)")
    then show ?thesis
      using that own_rows_end [OF inv m] trace_other(2) [of t "ce_id env" "ce_now env" "fc_trace s"]
      by (auto simp: free_compact_trace Call_end trace_other split: option.split)
  qed (use that in \<open>simp add: free_compact_trace trace_other\<close>)
  show "own_rows (fc_trace (free_compact_step e s))"
    using inv own_rows_end [OF inv]
    by (auto simp: free_compact_trace own_rows_begin own_rows_destroy split: memory_probe.split prod.split option.split)
qed

interpretation re_calls: touched_rows "reclaim_step thr" re_trace "\<lambda>e t. reclaim_caller e = Some t" "\<lambda>s. own_rows (re_trace s)" for thr
proof unfold_locales
  fix s :: reclaim_events_state and e :: "'a reclaim_probe" and t
  assume inv: "own_rows (re_trace s)"
  show "re_trace (reclaim_step thr e s) t = re_trace s t" if "reclaim_caller e \<noteq> Some t"
  proof (cases e)
    case (Reclaim_end env)
    let ?ended = "func_trace_end (ce_now (rc_call env)) (ce_id (rc_call env)) (re_trace s)"
    obtain x m where m: "?ended = (x, m)" by (cases ?ended)
    then show ?thesis
      using that own_rows_end [OF inv m] trace_other(2) [of t "ce_id (rc_call env)" "ce_now (rc_call env)" "re_trace s"]
      by (auto simp: Reclaim_end kretprobe_try_to_free_pages_def trace_other split: option.split)
  qed (use that in \<open>simp add: kprobe_try_to_free_pages_def trace_other\<close>)
  show "own_rows (re_trace (reclaim_step thr e s))"
    using inv own_rows_end [OF inv]
    by (cases e) (auto simp: kprobe_try_to_free_pages_def kretprobe_try_to_free_pages_def own_rows_begin own_rows_destroy
        split: prod.split option.split)
qed

text \<open>The totals user space reads.\<close>

fun stall_ns :: "memory_call \<Rightarrow> free_compact_state \<Rightarrow> u64" where
  "stall_ns Reclaim s = (case mm_free_compact_map s 0 of None \<Rightarrow> 0 | Some v \<Rightarrow> allocstall_stat v)"
| "stall_ns Compaction s = (case mm_free_compact_map s 0 of None \<Rightarrow> 0 | Some v \<Rightarrow> compaction_stat v)"

lemma end_measures:
  assumes "fc_trace s (ce_id env) = Some e" and "ce_update env = Fault_none"
  shows "stall_ns k' (free_compact_step (Call_end k env) s) =
    stall_ns k' s + (if k' = k then ce_now env - tc_start_ns e else 0)"
  by (cases k; cases k'; cases "mm_free_compact_map s 0")
    (simp_all add: tracepoint_try_to_free_pages_end_def kretprobe_try_to_compact_pages_host_def
      func_trace_end_and_update_metric_def trace_end_Some [of "fc_trace s" "ce_id env" e] assms(1) update_metric_map_def assms(2) Let_def)

text \<open>C36. A timed call is measured exactly, whatever other threads do meanwhile. Its return adds the
  time since its entry to the total of its kind and leaves the other total alone; the slow
  reclaim probe reports it exactly if that time exceeds the threshold, with that time and the
  ids of its own thread. The row of the call is released.\<close>

theorem memory_calls_measured:
  assumes own: "own_rows (fc_trace s)" "own_rows (re_trace s')"
    and ids: "ce_id e1 = t" "ce_id e2 = t" "ce_update e1 = Fault_none" "ce_update e2 = Fault_none"
      "ce_delete e2 = Fault_none" "rc_call x2 = e2"
    and others: "list_all (\<lambda>e. memory_caller e \<noteq> Some t) es" "list_all (\<lambda>e. reclaim_caller e \<noteq> Some t) es'"
    and d: "d = ce_now e2 - ce_now e1"
    and r: "r = fold free_compact_step (Call_begin k e1 # es) s"
    and r': "r' = fold (reclaim_step thr) (Reclaim_begin e1 # es') s'"
  shows "stall_ns k (free_compact_step (Call_end k e2) r) = stall_ns k r + d \<and>
    (k' = k \<or> stall_ns k' (free_compact_step (Call_end k e2) r) = stall_ns k' r) \<and>
    fc_trace (free_compact_step (Call_end k e2) r) t = None \<and>
    reclaim_perf_events (reclaim_step thr (Reclaim_end x2) r') = reclaim_perf_events r' @
      (if thr < d
       then [\<lparr>mr_comm = rc_comm x2, reclaim_duration_ns = d,
              cpu_css_addr = current_task_cpu_css_addr (rc_kernel x2) (rc_task x2),
              mr_tgid = ucast (drop_bit 32 t), mr_tid = ucast t\<rparr>]
       else []) \<and>
    re_trace (reclaim_step thr (Reclaim_end x2) r') t = None"
proof -
  let ?row = "\<lparr>tc_id = t, tc_start_ns = ce_now e1, tc_duration_ns = 0\<rparr>"
  have "fc_trace r t = Some ?row"
    using fc_calls.row_kept [OF fc_calls.inv_kept [OF own(1)] others(1), of "Call_begin k e1"] ids(1,3)
    by (simp add: r free_compact_trace trace_begin_row)
  moreover have "re_trace r' t = Some ?row"
    using re_calls.row_kept [OF re_calls.inv_kept [OF own(2), where thr = thr and e = "Reclaim_begin e1"] others(2), of thr] ids(1,3)
    by (simp add: r' kprobe_try_to_free_pages_def trace_begin_row)
  ultimately show ?thesis
    using end_measures [of r e2 ?row _ k] ids
    by (auto simp: d free_compact_trace trace_end_Some kretprobe_try_to_free_pages_def trace_destroy_row)
qed

definition demo_call :: "u64 \<Rightarrow> u64 \<Rightarrow> call_env" where
  "demo_call t now = \<lparr>ce_id = t, ce_now = now, ce_update = Fault_none, ce_delete = Fault_none\<rparr>"

definition demo_reclaim_env :: "u64 \<Rightarrow> u64 \<Rightarrow> unit reclaim_env" where
  "demo_reclaim_env t now =
     \<lparr>rc_call = demo_call t now, rc_kernel = \<lparr>ct_flags = Map.empty, ct_tgid = Map.empty, ct_comm = Map.empty,
        ct_cgroups = Map.empty, css_set_subsys = (\<lambda>_. Map.empty), cpu_cgrp_id = 1, memory_cgrp_id = 4\<rparr>,
      rc_task = 9, rc_comm = ''java''\<rparr>"

theorem memory_calls_measured_witness:
  "stall_ns Reclaim (free_compact_step (Call_end Reclaim (demo_call 7 900))
     (fold free_compact_step [Call_begin Reclaim (demo_call 7 100), Call_begin Compaction (demo_call 8 200)]
       \<lparr>fc_trace = Map.empty, mm_free_compact_map = Map.empty\<rparr>)) = 800 \<and>
   length (reclaim_perf_events (reclaim_step 500 (Reclaim_end (demo_reclaim_env 7 900))
     (fold (reclaim_step 500) [Reclaim_begin (demo_call 7 100)]
       \<lparr>re_trace = Map.empty, reclaim_perf_events = []\<rparr>))) = 1"
  using memory_calls_measured [of "\<lparr>fc_trace = Map.empty, mm_free_compact_map = Map.empty\<rparr>"
      "\<lparr>re_trace = Map.empty, reclaim_perf_events = []\<rparr>" "demo_call 7 100" 7 "demo_call 7 900"
      "demo_reclaim_env 7 900" "[Call_begin Compaction (demo_call 8 200)]" "[]", OF _ _ _ _ _ _ _ _ _ _ refl refl refl,
      where k = Reclaim and k' = Reclaim and thr = 500]
  by (simp add: own_rows_def demo_call_def demo_reclaim_env_def kprobe_try_to_free_pages_def
      tracepoint_try_to_free_pages_begin_def kprobe_try_to_compact_pages_host_def)

end
