(* ===== verification/Count_Probes.thy ===== *)
theory Count_Probes
  imports Task_Css
begin

text \<open>
  Objects that count events per key in a hash map: \<^verbatim>\<open>bpf/memory_reclaim.c\<close>, the direct reclaims of a
  memory cgroup, and \<^verbatim>\<open>bpf/perf.c\<close>, the samples of a stack. Both rest on the contract \<open>count_table\<close>.
\<close>

section \<open>Counting tables\<close>

text \<open>
  A firing counts one key or none and clears one key or none; \<open>failing\<close> are the firings whose map
  access the kernel refuses.
\<close>

locale count_table =
  fixes step :: "'e \<Rightarrow> 's \<Rightarrow> 's"
    and count :: "'s \<Rightarrow> 'k \<Rightarrow> u64"
    and hits clears :: "'e \<Rightarrow> 'k option"
    and failing :: "'e \<Rightarrow> bool"
  assumes hit: "hits e = Some k \<Longrightarrow> \<not> failing e \<Longrightarrow> count (step e s) k = count s k + 1"
    and clear: "clears e = Some k \<Longrightarrow> \<not> failing e \<Longrightarrow> count (step e s) k = 0"
    and other: "hits e \<noteq> Some k \<Longrightarrow> clears e \<noteq> Some k \<Longrightarrow> count (step e s) k = count s k"
begin

lemma count_run:
  "list_all (\<lambda>e. clears e \<noteq> Some k \<and> (failing e \<longrightarrow> hits e \<noteq> Some k)) es \<Longrightarrow>
   count (fold step es s) k = count s k + of_nat (length (filter (\<lambda>e. hits e = Some k) es))"
proof (induction es arbitrary: s)
  case (Cons e es)
  then show ?case by (cases "hits e = Some k") (auto simp: hit other)
qed simp

lemma count_since_clear:
  "clears e = Some k \<Longrightarrow> \<not> failing e \<Longrightarrow>
   list_all (\<lambda>e. clears e \<noteq> Some k \<and> (failing e \<longrightarrow> hits e \<noteq> Some k)) es \<Longrightarrow>
   count (fold step (e # es) s) k = of_nat (length (filter (\<lambda>e. hits e = Some k) es))"
  by (simp add: count_run clear)

end

section \<open>Direct reclaims of memory cgroups\<close>

record mem_cgroup_metric =
  directstall_count :: u64

type_synonym reclaim_counts = "u64 \<rightharpoonup> mem_cgroup_metric"

abbreviation (input) "PF_KSWAPD \<equiv> 0x00020000 :: u32"

definition tracepoint_vmscan_mm_vmscan_memcg_reclaim_begin ::
  "'a task_css_kernel_scheme \<Rightarrow> map_fault \<Rightarrow> u64 \<Rightarrow> reclaim_counts \<Rightarrow> reclaim_counts" where
  "tracepoint_vmscan_mm_vmscan_memcg_reclaim_begin K f task m =
     (if core_read (ct_flags K) task AND PF_KSWAPD \<noteq> 0 then m
      else
        let css = current_task_memory_css_addr K task
        in case m css of
             None \<Rightarrow> snd (bpf_map_update_elem f BPF_ANY css \<lparr>directstall_count = 1\<rparr> m)
           | Some valp \<Rightarrow> m(css \<mapsto> valp\<lparr>directstall_count := directstall_count valp + 1\<rparr>))"

definition kprobe_mem_cgroup_css_released :: "map_fault \<Rightarrow> u64 \<Rightarrow> reclaim_counts \<Rightarrow> reclaim_counts" where
  "kprobe_mem_cgroup_css_released f css m = snd (bpf_map_delete_elem f css m)"

datatype stall_probe = Reclaim_begins task_css_kernel map_fault u64 | Css_released map_fault u64

fun stall_step :: "stall_probe \<Rightarrow> reclaim_counts \<Rightarrow> reclaim_counts" where
  "stall_step (Reclaim_begins K f task) m = tracepoint_vmscan_mm_vmscan_memcg_reclaim_begin K f task m"
| "stall_step (Css_released f css) m = kprobe_mem_cgroup_css_released f css m"

text \<open>The cgroup a firing is counted for.\<close>

fun stall_of :: "stall_probe \<Rightarrow> u64 option" where
  "stall_of (Reclaim_begins K f task) =
     (if core_read (ct_flags K) task AND PF_KSWAPD \<noteq> 0 then None else Some (current_task_memory_css_addr K task))"
| "stall_of (Css_released f css) = None"

fun released_css :: "stall_probe \<Rightarrow> u64 option" where
  "released_css (Reclaim_begins K f task) = None"
| "released_css (Css_released f css) = Some css"

fun stall_fault :: "stall_probe \<Rightarrow> map_fault" where
  "stall_fault (Reclaim_begins K f task) = f"
| "stall_fault (Css_released f css) = f"

definition stall_count :: "reclaim_counts \<Rightarrow> u64 \<Rightarrow> u64" where
  "stall_count m css = (case m css of None \<Rightarrow> 0 | Some v \<Rightarrow> directstall_count v)"

interpretation stalls: count_table stall_step stall_count stall_of released_css "\<lambda>e. stall_fault e \<noteq> Fault_none"
proof unfold_locales
  fix e k m
  show "stall_count (stall_step e m) k = stall_count m k + 1" if "stall_of e = Some k" "\<not> stall_fault e \<noteq> Fault_none"
    using that
    by (cases e) (auto simp: tracepoint_vmscan_mm_vmscan_memcg_reclaim_begin_def stall_count_def Let_def
        split: option.splits if_splits)
  show "stall_count (stall_step e m) k = 0" if "released_css e = Some k" "\<not> stall_fault e \<noteq> Fault_none"
    using that by (cases e; cases "m k") (auto simp: kprobe_mem_cgroup_css_released_def stall_count_def)
  show "stall_count (stall_step e m) k = stall_count m k" if "stall_of e \<noteq> Some k" "released_css e \<noteq> Some k"
    using that
    by (cases e) (auto simp: tracepoint_vmscan_mm_vmscan_memcg_reclaim_begin_def kprobe_mem_cgroup_css_released_def
        stall_count_def bmap.update_other bmap.delete_other Let_def split: option.split if_splits)
qed

text \<open>C38. The counter of a memory cgroup is exact for the life of the cgroup: from the release of the
  previous cgroup at its address on, it is the number (modulo 2^64) of direct reclaims its tasks
  began, kswapd excluded, provided no insertion of its row was refused.\<close>

theorem direct_reclaims_counted:
  assumes "list_all (\<lambda>e. released_css e \<noteq> Some css \<and> (stall_fault e \<noteq> Fault_none \<longrightarrow> stall_of e \<noteq> Some css)) es"
  shows "stall_count (fold stall_step (Css_released Fault_none css # es) m) css =
    of_nat (length (filter (\<lambda>e. stall_of e = Some css) es))"
  using stalls.count_since_clear [OF _ _ assms, of "Css_released Fault_none css" m] by simp

theorem direct_reclaims_counted_witness:
  "stall_count (fold stall_step
     [Css_released Fault_none 0,
      Reclaim_begins \<lparr>ct_flags = Map.empty, ct_tgid = Map.empty, ct_comm = Map.empty, ct_cgroups = Map.empty,
        css_set_subsys = (\<lambda>_. Map.empty), cpu_cgrp_id = 1, memory_cgrp_id = 4\<rparr> Fault_none 5]
     [0 \<mapsto> \<lparr>directstall_count = 44\<rparr>]) 0 = 1"
  using direct_reclaims_counted [of 0 "[Reclaim_begins \<lparr>ct_flags = Map.empty, ct_tgid = Map.empty,
      ct_comm = Map.empty, ct_cgroups = Map.empty, css_set_subsys = (\<lambda>_. Map.empty), cpu_cgrp_id = 1,
      memory_cgrp_id = 4\<rparr> Fault_none 5]" "[0 \<mapsto> \<lparr>directstall_count = 44\<rparr>]"]
  by (simp add: current_task_memory_css_addr_def task_css_def del: fold.simps fold_simps stall_step.simps)

section \<open>Samples of stacks\<close>

record key_t =
  ustack :: "u64 list"
  kstack :: "u64 list"
  ustack_size :: int
  kstack_size :: int
  kt_pid :: u32
  kt_name :: string

record perf_config =
  perf_css :: u64
  perf_pid :: u64

record perf_env =
  pf_task :: u64
  pf_pid_tgid :: u64
  pf_comm :: string
  pf_ustack :: "u64 list"
  pf_ustack_size :: int
  pf_kstack :: "u64 list"
  pf_kstack_size :: int

definition perf_key :: "perf_env \<Rightarrow> key_t" where
  "perf_key env =
     \<lparr>ustack = pf_ustack env, kstack = pf_kstack env, ustack_size = pf_ustack_size env,
      kstack_size = pf_kstack_size env, kt_pid = ucast (drop_bit 32 (pf_pid_tgid env)), kt_name = pf_comm env\<rparr>"

definition perf_event_sw_cpu_clock ::
  "perf_config \<Rightarrow> 'a task_css_kernel_scheme \<Rightarrow> map_fault \<Rightarrow> perf_env \<Rightarrow> (key_t \<rightharpoonup> u64) \<Rightarrow> (key_t \<rightharpoonup> u64)" where
  "perf_event_sw_cpu_clock cfg K f env counts =
     (let cpu_css = current_task_cpu_css_addr K (pf_task env);
          tgid = drop_bit 32 (pf_pid_tgid env)
      in if perf_css cfg \<noteq> 0 \<and> perf_css cfg \<noteq> cpu_css then counts
         else if perf_pid cfg \<noteq> 0 \<and> perf_pid cfg \<noteq> tgid then counts
         else case counts (perf_key env) of
           None \<Rightarrow> snd (bpf_map_update_elem f BPF_ANY (perf_key env) 1 counts)
         | Some valp \<Rightarrow> counts(perf_key env \<mapsto> valp + 1))"

datatype perf_sample = Sample task_css_kernel map_fault perf_env

fun perf_step :: "perf_config \<Rightarrow> perf_sample \<Rightarrow> (key_t \<rightharpoonup> u64) \<Rightarrow> (key_t \<rightharpoonup> u64)" where
  "perf_step cfg (Sample K f env) counts = perf_event_sw_cpu_clock cfg K f env counts"

fun sample_of :: "perf_config \<Rightarrow> perf_sample \<Rightarrow> key_t option" where
  "sample_of cfg (Sample K f env) =
     (if perf_css cfg \<in> {0, current_task_cpu_css_addr K (pf_task env)} \<and>
         perf_pid cfg \<in> {0, drop_bit 32 (pf_pid_tgid env)}
      then Some (perf_key env) else None)"

fun sample_fails :: "perf_sample \<Rightarrow> bool" where
  "sample_fails (Sample K f env) = (f \<noteq> Fault_none)"

interpretation samples: count_table "perf_step cfg" "\<lambda>m k. case m k of None \<Rightarrow> 0 | Some v \<Rightarrow> v" "sample_of cfg"
  "\<lambda>_. None" sample_fails for cfg
proof unfold_locales
  fix e k m
  show "(case perf_step cfg e m k of None \<Rightarrow> 0 | Some v \<Rightarrow> v) = (case m k of None \<Rightarrow> 0 | Some v \<Rightarrow> v) + 1"
    if "sample_of cfg e = Some k" "\<not> sample_fails e"
    using that by (cases e) (auto simp: perf_event_sw_cpu_clock_def Let_def split: option.splits if_splits)
  show "(case perf_step cfg e m k of None \<Rightarrow> 0 | Some v \<Rightarrow> v) = (case m k of None \<Rightarrow> 0 | Some v \<Rightarrow> v)"
    if "sample_of cfg e \<noteq> Some k"
    using that
    by (cases e) (auto simp: perf_event_sw_cpu_clock_def bmap.update_other Let_def split: option.split if_splits)
qed simp

text \<open>With no refused insertion, every selected sample is counted once, for its own stack.\<close>

lemma perf_samples_counted:
  assumes "list_all (\<lambda>e. sample_fails e \<longrightarrow> sample_of cfg e \<noteq> Some k) es"
  shows "(case fold (perf_step cfg) es Map.empty k of None \<Rightarrow> 0 | Some v \<Rightarrow> v) =
    of_nat (length (filter (\<lambda>e. sample_of cfg e = Some k) es))"
  using samples.count_run [of k cfg es Map.empty] assms by simp

end
