(* ===== verification/System_Events.thy ===== *)
theory System_Events
  imports Net_Common Task_Css Ratelimit
begin

text \<open>
  Objects that turn one kernel event into one event for user space: hardware errors
  (\<^verbatim>\<open>bpf/system_ras.c\<close>), OOM kills (\<^verbatim>\<open>memory_oom_kill.c\<close>), hung tasks (\<^verbatim>\<open>system_hungtask.c\<close>), soft
  lockups (\<^verbatim>\<open>system_softlockup.c\<close>), network devices (\<^verbatim>\<open>netdev_hw.c\<close>, \<^verbatim>\<open>netdev_txqueue_timeout.c\<close>,
  \<^verbatim>\<open>netdev_bonding_lacp.c\<close>) and cgroups (\<^verbatim>\<open>bpf_cgroup_css.h\<close>, \<^verbatim>\<open>cgroup_css_events.c\<close>,
  \<^verbatim>\<open>cgroup_css_sync.c\<close>). A string buffer is its characters up to the terminator, where it starts
  zeroed.
\<close>

section \<open>Hardware errors\<close>

record ras_event =
  ras_type :: u32
  ras_kernel_observed_ns :: u64
  ras_info :: "u8 list"

record ras_thr_info =
  thr_vector :: u32
  thr_cpu :: u32

abbreviation (input) "HW_ERR_MCE \<equiv> 0 :: u32"
abbreviation (input) "HW_ERR_EDAC \<equiv> 1 :: u32"
abbreviation (input) "HW_ERR_NON_STANDARD \<equiv> 2 :: u32"
abbreviation (input) "HW_ERR_AER_EVENT \<equiv> 3 :: u32"
abbreviation (input) "HW_ERR_THR \<equiv> 4 :: u32"
abbreviation (input) "HW_ERR_ARM_GHES \<equiv> 5 :: u32"
abbreviation (input) "RAS_EVENT_INFO_SIZE \<equiv> 512 :: nat"

text \<open>The sizes of the two fixed records, as declared in the kernel headers of the object.\<close>

abbreviation (input) "sizeof_mce_record \<equiv> 112 :: nat"
abbreviation (input) "sizeof_arm_event \<equiv> 40 :: nat"

text \<open>The context of a tracepoint: its bytes, and the location word of the payload that ends it.
  \<open>None\<close> is a faulting read.\<close>

record ras_ctx =
  rx_bytes :: "nat \<Rightarrow> u8 list option"
  rx_data_loc :: u32
  rx_vector :: u32

record ras_env =
  ra_now :: u64
  ra_cpu :: u32

record ras_state =
  event_data_map :: "(u32 \<Rightarrow> ras_event) option"
  ras_event_map :: "ras_event list"

definition event_init :: "ras_env \<Rightarrow> u32 \<Rightarrow> ras_event \<Rightarrow> ras_event" where
  "event_init env type event =
     \<lparr>ras_type = type, ras_kernel_observed_ns = ra_now env, ras_info = replicate RAS_EVENT_INFO_SIZE 0\<rparr>"

definition event_size :: "u32 \<Rightarrow> u32" where
  "event_size data_loc =
     (let size = (data_loc AND 0xffff) + (drop_bit 16 data_loc AND 0xffff) in if 512 < size then 512 else size)"

text \<open>A read of \<open>n\<close> bytes into the payload: a fault clears them.\<close>

definition read_info :: "nat \<Rightarrow> u8 list option \<Rightarrow> ras_event \<Rightarrow> ras_event" where
  "read_info n res event =
     event\<lparr>ras_info := (case res of None \<Rightarrow> replicate n 0 | Some bs \<Rightarrow> bs) @ drop n (ras_info event)\<rparr>"

text \<open>The frame of all six probes: lookup, initialisation, payload, submission.\<close>

definition ras_probe :: "u32 \<Rightarrow> (ras_event \<Rightarrow> ras_event) \<Rightarrow> ras_env \<Rightarrow> ras_state \<Rightarrow> ras_state" where
  "ras_probe type fill env s =
     (case event_data_map s of None \<Rightarrow> s
      | Some bufs \<Rightarrow>
          let event = fill (event_init env type (bufs (ra_cpu env)))
          in s\<lparr>event_data_map := Some (bufs(ra_cpu env := event)), ras_event_map := ras_event_map s @ [event]\<rparr>)"

definition probe_mce_record :: "ras_env \<Rightarrow> ras_ctx \<Rightarrow> ras_state \<Rightarrow> ras_state" where
  "probe_mce_record env ctx = ras_probe HW_ERR_MCE (read_info sizeof_mce_record (rx_bytes ctx sizeof_mce_record)) env"

definition probe_thr_apic :: "ras_env \<Rightarrow> ras_ctx \<Rightarrow> ras_state \<Rightarrow> ras_state" where
  "probe_thr_apic env ctx =
     (let thr = \<lparr>thr_vector = rx_vector ctx, thr_cpu = ra_cpu env\<rparr>
      in ras_probe HW_ERR_THR (read_info 8 (Some (le_bytes 4 (thr_vector thr) @ le_bytes 4 (thr_cpu thr)))) env)"

definition probe_arm_event :: "ras_env \<Rightarrow> ras_ctx \<Rightarrow> ras_state \<Rightarrow> ras_state" where
  "probe_arm_event env ctx = ras_probe HW_ERR_ARM_GHES (read_info sizeof_arm_event (rx_bytes ctx sizeof_arm_event)) env"

definition probe_ras_mc_event :: "ras_env \<Rightarrow> ras_ctx \<Rightarrow> ras_state \<Rightarrow> ras_state" where
  "probe_ras_mc_event env ctx =
     (let n = unat (event_size (rx_data_loc ctx)) in ras_probe HW_ERR_EDAC (read_info n (rx_bytes ctx n)) env)"

definition probe_ras_non_standard :: "ras_env \<Rightarrow> ras_ctx \<Rightarrow> ras_state \<Rightarrow> ras_state" where
  "probe_ras_non_standard env ctx =
     (let n = unat (event_size (rx_data_loc ctx)) in ras_probe HW_ERR_NON_STANDARD (read_info n (rx_bytes ctx n)) env)"

definition probe_ras_aer_event :: "ras_env \<Rightarrow> ras_ctx \<Rightarrow> ras_state \<Rightarrow> ras_state" where
  "probe_ras_aer_event env ctx =
     (let n = unat (event_size (rx_data_loc ctx)) in ras_probe HW_ERR_AER_EVENT (read_info n (rx_bytes ctx n)) env)"

datatype ras_source = Mce | Thr_apic | Arm | Mc | Non_standard | Aer

fun ras_step :: "ras_source \<times> ras_env \<times> ras_ctx \<Rightarrow> ras_state \<Rightarrow> ras_state" where
  "ras_step (Mce, env, ctx) s = probe_mce_record env ctx s"
| "ras_step (Thr_apic, env, ctx) s = probe_thr_apic env ctx s"
| "ras_step (Arm, env, ctx) s = probe_arm_event env ctx s"
| "ras_step (Mc, env, ctx) s = probe_ras_mc_event env ctx s"
| "ras_step (Non_standard, env, ctx) s = probe_ras_non_standard env ctx s"
| "ras_step (Aer, env, ctx) s = probe_ras_aer_event env ctx s"

section \<open>OOM kills, hung tasks and soft lockups\<close>

record oom_event =
  trigger_comm :: string
  victim_comm :: string
  trigger_tgid :: u32
  victim_tgid :: u32
  trigger_memcg_css :: u64
  victim_memcg_css :: u64
  mem_limit_pages :: u64
  mem_usage_pages :: u64

record oom_kernel = task_css_kernel +
  oc_chosen :: "u64 \<Rightarrow> u64 option"
  oc_totalpages :: "u64 \<Rightarrow> u64 option"
  oc_memcg :: "u64 \<Rightarrow> u64 option"
  memcg_usage :: "u64 \<Rightarrow> u64 option"

record oom_state =
  oom_perf_events :: "oom_event list"
  oom_rate :: bpf_ratelimit_event

abbreviation (input) "TASK_COMM_LEN \<equiv> 16 :: nat"
abbreviation (input) "COMPAT_CPU_NUM \<equiv> 128 :: u64"

definition rate_init :: bpf_ratelimit_event where
  "rate_init = BPF_RATELIMIT 1000000000 (COMPAT_CPU_NUM * 10000)"

text \<open>A string read into a zeroed buffer, as user space sees it.\<close>

definition read_str :: "(u64 \<Rightarrow> string option) \<Rightarrow> nat \<Rightarrow> u64 \<Rightarrow> string" where
  "read_str str len p = (case probe_read_str str len p of None \<Rightarrow> '''' | Some (_, n) \<Rightarrow> n)"

definition oom_info :: "'a oom_kernel_scheme \<Rightarrow> u64 \<Rightarrow> u64 \<Rightarrow> oom_event" where
  "oom_info K trigger_task oc =
     (let victim_task = core_read (oc_chosen K) oc;
          memcg = core_read (oc_memcg K) oc
      in \<lparr>trigger_comm = read_str (ct_comm K) TASK_COMM_LEN trigger_task,
          victim_comm = read_str (ct_comm K) TASK_COMM_LEN victim_task,
          trigger_tgid = core_read (ct_tgid K) trigger_task, victim_tgid = core_read (ct_tgid K) victim_task,
          trigger_memcg_css = task_css K (memory_cgrp_id K) trigger_task,
          victim_memcg_css = task_css K (memory_cgrp_id K) victim_task,
          mem_limit_pages = core_read (oc_totalpages K) oc,
          mem_usage_pages = (if memcg \<noteq> 0 then core_read (memcg_usage K) memcg else 0)\<rparr>)"

definition oom_kill_process :: "'a oom_kernel_scheme \<Rightarrow> u64 \<Rightarrow> u64 \<Rightarrow> u64 \<Rightarrow> oom_state \<Rightarrow> oom_state" where
  "oom_kill_process K now current oc s =
     (let (limited, rate) = bpf_ratelimited (Some (oom_rate s)) now;
          s1 = s\<lparr>oom_rate := the rate\<rparr>
      in if limited then s1
         else if oc = 0 then s1
         else s1\<lparr>oom_perf_events := oom_perf_events s1 @ [oom_info K current oc]\<rparr>)"

record hungtask_event =
  ht_tid :: u32
  ht_comm :: string

text \<open>The context: the id, the command if it is a field, else the location word; \<open>hc_str\<close> reads
  strings at offsets of the context.\<close>

record hang_ctx =
  hc_pid :: u32
  hc_comm :: "string option"
  hc_data_loc_comm :: u32
  hc_str :: "u64 \<Rightarrow> string option"

definition data_loc_address :: "u64 \<Rightarrow> u32 \<Rightarrow> u64" where
  "data_loc_address ctx data_loc = ctx + ucast (data_loc AND 0xffff)"

definition tracepoint_sched_process_hang :: "hang_ctx \<Rightarrow> hungtask_event list \<Rightarrow> hungtask_event list" where
  "tracepoint_sched_process_hang ctx events =
     events @ [\<lparr>ht_tid = hc_pid ctx,
       ht_comm = (case hc_comm ctx of
          Some comm \<Rightarrow> take (TASK_COMM_LEN - 1) comm
        | None \<Rightarrow> read_str (hc_str ctx) TASK_COMM_LEN (ucast (hc_data_loc_comm ctx AND 0xffff)))\<rparr>]"

record softlockup_event =
  sl_cpu :: u32
  sl_tgid :: u32
  sl_comm :: string

record softlockup_state =
  softlockup_perf_events :: "softlockup_event list"
  softlockup_rate :: bpf_ratelimit_event

abbreviation (input) "TAINT_SOFTLOCKUP \<equiv> 14 :: u64"

definition kprobe_softlockup ::
  "'a task_css_kernel_scheme \<Rightarrow> u64 \<Rightarrow> u32 \<Rightarrow> u64 \<Rightarrow> u64 \<Rightarrow> u64 \<Rightarrow> softlockup_state \<Rightarrow> softlockup_state" where
  "kprobe_softlockup K now cpu pid_tgid current flag s =
     (if flag \<noteq> TAINT_SOFTLOCKUP then s
      else
        let (limited, rate) = bpf_ratelimited (Some (softlockup_rate s)) now;
            s1 = s\<lparr>softlockup_rate := the rate\<rparr>
        in if limited then s1
           else s1\<lparr>softlockup_perf_events := softlockup_perf_events s1 @
                 [\<lparr>sl_cpu = cpu, sl_tgid = ucast (drop_bit 32 pid_tgid),
                   sl_comm = read_str (ct_comm K) TASK_COMM_LEN current\<rparr>]\<rparr>)"

section \<open>Network devices\<close>

text \<open>The drop counter exists on some kernels only. \<open>dev_offset\<close> is where the device object lies in
  the network device.\<close>

record netdev_hw_kernel =
  dev_offset :: u64
  hw_ifindex :: "u64 \<Rightarrow> u32 option"
  hw_rx_dropped :: "(u64 \<Rightarrow> u64 option) option"

definition carrier_down_count_show ::
  "netdev_hw_kernel \<Rightarrow> map_fault \<Rightarrow> u64 \<Rightarrow> (u32 \<rightharpoonup> u64) \<Rightarrow> (u32 \<rightharpoonup> u64)" where
  "carrier_down_count_show K f dev m =
     (let netdev = dev - dev_offset K;
          key = core_read (hw_ifindex K) netdev;
          val = (case hw_rx_dropped K of None \<Rightarrow> 0 | Some rx_dropped \<Rightarrow> core_read rx_dropped netdev)
      in snd (bpf_map_update_elem f BPF_ANY key val m))"

record netdev_txqueue_timeout_event =
  queue_index :: u32
  tx_name :: string
  tx_driver :: string

record xmit_timeout_ctx =
  xt_addr :: u64
  xt_queue_index :: u32
  xt_data_loc_name :: u32
  xt_data_loc_driver :: u32
  xt_str :: "u64 \<Rightarrow> string option"

definition bpf_rxqueue_timeout ::
  "xmit_timeout_ctx \<Rightarrow> netdev_txqueue_timeout_event list \<Rightarrow> netdev_txqueue_timeout_event list" where
  "bpf_rxqueue_timeout ctx events =
     events @ [\<lparr>queue_index = xt_queue_index ctx,
       tx_name = read_str (xt_str ctx) IFNAMSIZ (data_loc_address (xt_addr ctx) (xt_data_loc_name ctx)),
       tx_driver = read_str (xt_str ctx) IFNAMSIZ (data_loc_address (xt_addr ctx) (xt_data_loc_driver ctx))\<rparr>]"

record netdev_bonding_lacp_event =
  reserved :: u64

definition ad_disable :: "netdev_bonding_lacp_event list \<Rightarrow> netdev_bonding_lacp_event list" where
  "ad_disable events = events @ [\<lparr>reserved = 0\<rparr>]"

section \<open>Cgroups\<close>

datatype cgroup_css_operation = CGROUP_CSS_OPERATION_UPDATE | CGROUP_CSS_OPERATION_REMOVE

record cgroup_css_event =
  cg_cgroup :: u64
  cg_operation :: cgroup_css_operation
  cg_root :: u32
  cg_level :: u32
  cg_css :: "u64 list"
  cg_knode_name :: string

abbreviation (input) "CGROUP_KNODE_NAME_MAXLEN \<equiv> 85 :: nat"
abbreviation (input) "CGROUP_KNODE_NAME_MINLEN \<equiv> 64 :: nat"
abbreviation (input) "CGROUP_SUBSYS_COUNT \<equiv> 13 :: nat"

text \<open>\<open>ck_subsys\<close> reads the array of the compile-time length; \<open>ck_subsys_count\<close> is its length in the
  running kernel.\<close>

record cgroup_kernel =
  ck_name :: "u64 \<Rightarrow> string option"
  ck_kn_name :: "u64 \<Rightarrow> u64 option"
  ck_hierarchy_id :: "u64 \<Rightarrow> u32 option"
  ck_level :: "u64 \<Rightarrow> u32 option"
  ck_subsys :: "u64 \<Rightarrow> u64 list option"
  ck_subsys_count :: nat
  ck_css_cgroup :: "u64 \<Rightarrow> u64 option"

definition submit_cgroup_css_event ::
  "cgroup_kernel \<Rightarrow> u64 \<Rightarrow> cgroup_css_operation \<Rightarrow> cgroup_css_event list \<Rightarrow> cgroup_css_event list" where
  "submit_cgroup_css_event K cgrp operation events =
     (case probe_read_str (ck_name K) (CGROUP_KNODE_NAME_MAXLEN + 2) (core_read (ck_kn_name K) cgrp) of
        None \<Rightarrow> events
      | Some (knode_len, name) \<Rightarrow>
          if knode_len < CGROUP_KNODE_NAME_MINLEN + 1 then events
          else
            let css_count = min (ck_subsys_count K) CGROUP_SUBSYS_COUNT;
                subsys = (case ck_subsys K cgrp of None \<Rightarrow> replicate CGROUP_SUBSYS_COUNT 0 | Some ptrs \<Rightarrow> ptrs)
            in events @ [\<lparr>cg_cgroup = cgrp, cg_operation = operation,
                 cg_root = core_read (ck_hierarchy_id K) cgrp, cg_level = core_read (ck_level K) cgrp,
                 cg_css = take css_count subsys @ replicate (CGROUP_SUBSYS_COUNT - css_count) 0,
                 cg_knode_name = name\<rparr>])"

definition bpf_cgroup_mkdir_prog :: "cgroup_kernel \<Rightarrow> u64 \<Rightarrow> cgroup_css_event list \<Rightarrow> cgroup_css_event list" where
  "bpf_cgroup_mkdir_prog K cgrp events = submit_cgroup_css_event K cgrp CGROUP_CSS_OPERATION_UPDATE events"

definition bpf_cgroup_rmdir_prog :: "cgroup_kernel \<Rightarrow> u64 \<Rightarrow> cgroup_css_event list \<Rightarrow> cgroup_css_event list" where
  "bpf_cgroup_rmdir_prog K cgrp events = submit_cgroup_css_event K cgrp CGROUP_CSS_OPERATION_REMOVE events"

definition bpf_cgroup_subsys_state_prog :: "cgroup_kernel \<Rightarrow> u64 \<Rightarrow> cgroup_css_event list \<Rightarrow> cgroup_css_event list" where
  "bpf_cgroup_subsys_state_prog K css events =
     submit_cgroup_css_event K (core_read (ck_css_cgroup K) css) CGROUP_CSS_OPERATION_UPDATE events"

section \<open>Hardware error events are complete\<close>

text \<open>What an event should hold: the record up to the end of its dynamic payload, cut at 512 bytes,
  and nothing else. The location word has the offset of the payload in its low and the length in
  its high half.\<close>

definition payload_end :: "u32 \<Rightarrow> nat" where
  "payload_end data_loc = min 512 (unat data_loc mod 65536 + unat data_loc div 65536)"

fun ras_payload :: "ras_source \<times> ras_env \<times> ras_ctx \<Rightarrow> nat \<times> u8 list option" where
  "ras_payload (Mce, env, ctx) = (112, rx_bytes ctx 112)"
| "ras_payload (Thr_apic, env, ctx) = (8, Some (le_bytes 4 (rx_vector ctx) @ le_bytes 4 (ra_cpu env)))"
| "ras_payload (Arm, env, ctx) = (40, rx_bytes ctx 40)"
| "ras_payload (_, env, ctx) = (payload_end (rx_data_loc ctx), rx_bytes ctx (payload_end (rx_data_loc ctx)))"

fun ras_kind :: "ras_source \<Rightarrow> u32" where
  "ras_kind Mce = HW_ERR_MCE" | "ras_kind Thr_apic = HW_ERR_THR" | "ras_kind Arm = HW_ERR_ARM_GHES"
| "ras_kind Mc = HW_ERR_EDAC" | "ras_kind Non_standard = HW_ERR_NON_STANDARD" | "ras_kind Aer = HW_ERR_AER_EVENT"

definition expected_ras :: "ras_source \<times> ras_env \<times> ras_ctx \<Rightarrow> ras_event" where
  "expected_ras e =
     (let bytes = (case snd (ras_payload e) of None \<Rightarrow> [] | Some bs \<Rightarrow> bs)
      in \<lparr>ras_type = ras_kind (fst e), ras_kernel_observed_ns = ra_now (fst (snd e)),
          ras_info = bytes @ replicate (512 - length bytes) 0\<rparr>)"

lemma low_half: "unat (w AND 0xffff) = unat w mod 65536" for w :: u32
proof -
  have "w AND 0xffff = take_bit 16 w" by (simp add: take_bit_eq_mask mask_eq_exp_minus_1)
  then show ?thesis by (simp add: unat_take_bit_mod)
qed

lemma high_half: "unat (drop_bit 16 w AND 0xffff) = unat w div 65536" for w :: u32
proof -
  have "unat (drop_bit 16 w) = unat w div 65536"
    by (simp add: unat_drop_bit_eq drop_bit_eq_div [where ?'a = nat])
  then show ?thesis using unat_bound32 [of w] by (simp add: low_half less_mult_imp_div_less)
qed

lemma event_size_end: "unat (event_size w) = payload_end w"
proof -
  have "unat w div 65536 < 65536" using unat_bound32 [of w] by (simp add: less_mult_imp_div_less)
  moreover have "unat w mod 65536 < 65536" by simp
  ultimately have "unat ((w AND 0xffff) + (drop_bit 16 w AND 0xffff)) = unat w mod 65536 + unat w div 65536"
    by (simp add: unat_word_ariths high_half) (simp add: low_half)
  then show ?thesis by (auto simp: event_size_def payload_end_def Let_def word_less_nat_alt)
qed

lemma read_info_init:
  assumes "n \<le> 512" and "\<forall>bs. res = Some bs \<longrightarrow> length bs = n"
  shows "read_info n res (event_init env type event) =
    (let bytes = (case res of None \<Rightarrow> [] | Some bs \<Rightarrow> bs)
     in \<lparr>ras_type = type, ras_kernel_observed_ns = ra_now env, ras_info = bytes @ replicate (512 - length bytes) 0\<rparr>)"
  using assms by (cases res) (simp_all add: read_info_def event_init_def Let_def flip: replicate_add)

lemma ras_step_probe:
  "ras_step (src, env, ctx) = ras_probe (ras_kind src)
     (read_info (fst (ras_payload (src, env, ctx))) (snd (ras_payload (src, env, ctx)))) env"
  by (rule ext, cases src)
    (simp_all add: probe_mce_record_def probe_thr_apic_def probe_arm_event_def probe_ras_mc_event_def
      probe_ras_non_standard_def probe_ras_aer_event_def event_size_end Let_def)

text \<open>Reads that succeed give as many bytes as were asked for.\<close>

definition full_reads :: "ras_ctx \<Rightarrow> bool" where
  "full_reads ctx \<longleftrightarrow> (\<forall>n bs. rx_bytes ctx n = Some bs \<longrightarrow> length bs = n)"

lemma payload_fits:
  assumes "full_reads ctx"
  shows "fst (ras_payload (src, env, ctx)) \<le> 512"
    and "snd (ras_payload (src, env, ctx)) = Some bs \<Longrightarrow> length bs = fst (ras_payload (src, env, ctx))"
  using assms by (cases src; auto simp: payload_end_def full_reads_def le_bytes_def)+

lemma ras_step_event:
  assumes "event_data_map s \<noteq> None" and "full_reads (snd (snd e))"
  shows "event_data_map (ras_step e s) \<noteq> None \<and> ras_event_map (ras_step e s) = ras_event_map s @ [expected_ras e]"
proof -
  obtain src env ctx where e: "e = (src, env, ctx)" by (cases e)
  show ?thesis
    using assms payload_fits [of ctx src env]
    by (auto simp: e ras_step_probe ras_probe_def read_info_init expected_ras_def Let_def)
qed

text \<open>C37. Every hardware error submits exactly one event, in order and on every CPU: it holds the error
  record up to the end of its dynamic payload, cut at 512 bytes, or zeros if the record cannot be
  read, and no byte of an earlier event.\<close>

theorem ras_events_complete:
  assumes "event_data_map s \<noteq> None" and "list_all (\<lambda>e. full_reads (snd (snd e))) es"
  shows "ras_event_map (fold ras_step es s) = ras_event_map s @ map expected_ras es"
  using assms
proof (induction es arbitrary: s)
  case (Cons e es)
  then have e: "event_data_map (ras_step e s) \<noteq> None" "ras_event_map (ras_step e s) = ras_event_map s @ [expected_ras e]"
    using ras_step_event [of s e] by auto
  show ?case using Cons.IH [OF e(1)] Cons.prems(2) by (simp add: e(2))
qed simp

theorem ras_events_complete_witness:
  "map (\<lambda>ev. take 10 (ras_info ev)) (ras_event_map (fold ras_step
     [(Mc, \<lparr>ra_now = 5, ra_cpu = 1\<rparr>, \<lparr>rx_bytes = (\<lambda>n. Some (replicate n 7)), rx_data_loc = 0x00020006, rx_vector = 0\<rparr>),
      (Mc, \<lparr>ra_now = 6, ra_cpu = 1\<rparr>, \<lparr>rx_bytes = (\<lambda>n. Some (replicate n 9)), rx_data_loc = 0x00010002, rx_vector = 0\<rparr>)]
     \<lparr>event_data_map = Some (\<lambda>_. \<lparr>ras_type = 0, ras_kernel_observed_ns = 0, ras_info = replicate 512 1\<rparr>),
      ras_event_map = []\<rparr>)) = [[7, 7, 7, 7, 7, 7, 7, 7, 0, 0], [9, 9, 9, 0, 0, 0, 0, 0, 0, 0]]"
proof -
  let ?s = "\<lparr>event_data_map = Some (\<lambda>_. \<lparr>ras_type = 0, ras_kernel_observed_ns = 0, ras_info = replicate 512 1\<rparr>),
      ras_event_map = []\<rparr>"
  have "take 10 (replicate 8 x @ replicate 504 0) = [x, x, x, x, x, x, x, x, 0, 0]" for x :: u8
    by (simp add: numeral_eq_Suc)
  moreover have "take 10 (replicate 3 x @ replicate 509 0) = [x, x, x, 0, 0, 0, 0, 0, 0, 0]" for x :: u8
    by (simp add: numeral_eq_Suc)
  ultimately show ?thesis
    using ras_events_complete [of ?s "[(Mc, \<lparr>ra_now = 5, ra_cpu = 1\<rparr>,
        \<lparr>rx_bytes = (\<lambda>n. Some (replicate n 7)), rx_data_loc = 0x00020006, rx_vector = 0\<rparr>),
        (Mc, \<lparr>ra_now = 6, ra_cpu = 1\<rparr>, \<lparr>rx_bytes = (\<lambda>n. Some (replicate n 9)), rx_data_loc = 0x00010002, rx_vector = 0\<rparr>)]"]
    by (simp add: full_reads_def expected_ras_def payload_end_def del: fold.simps fold_simps take_append take_replicate)
qed

section \<open>Cgroups of containers\<close>

text \<open>Only cgroups whose name can be a container id of 64 characters are reported, with the part of
  the name that fits and exactly thirteen css addresses.\<close>

lemma cgroup_event_iff:
  assumes "ck_name K (core_read (ck_kn_name K) cgrp) = Some name" and "\<forall>ptrs. ck_subsys K cgrp = Some ptrs \<longrightarrow> length ptrs = 13"
  shows "\<exists>ev. submit_cgroup_css_event K cgrp operation events = events @ (if 64 \<le> length name then [ev] else []) \<and>
    cg_knode_name ev = take 86 name \<and> length (cg_css ev) = 13"
proof -
  let ?ev = "\<lparr>cg_cgroup = cgrp, cg_operation = operation, cg_root = core_read (ck_hierarchy_id K) cgrp,
    cg_level = core_read (ck_level K) cgrp,
    cg_css = take (min (ck_subsys_count K) 13) (case ck_subsys K cgrp of None \<Rightarrow> replicate 13 0 | Some ptrs \<Rightarrow> ptrs) @
      replicate (13 - min (ck_subsys_count K) 13) 0, cg_knode_name = take 86 name\<rparr>"
  have "submit_cgroup_css_event K cgrp operation events = events @ (if 64 \<le> length name then [?ev] else [])"
    by (auto simp: submit_cgroup_css_event_def probe_read_str_def assms(1) Let_def)
  moreover have "length (cg_css ?ev) = 13" using assms(2) by (cases "ck_subsys K cgrp") auto
  ultimately show ?thesis by (intro exI [of _ ?ev]) simp
qed


section \<open>Rate\<close>

text \<open>OOM kills and soft lockups ask a limiter of 1280000 events per second first. A firing is the
  kernel memory, the time, and the arguments of its probe.\<close>

datatype 'a oom_probe = Oom_kill "'a oom_kernel_scheme" u64 u64 u64

datatype 'a lockup_probe = Add_taint "'a task_css_kernel_scheme" u64 u32 u64 u64 u64

fun oom_step :: "'a oom_probe \<Rightarrow> oom_state \<Rightarrow> oom_state" where
  "oom_step (Oom_kill K now current oc) s = oom_kill_process K now current oc s"

fun oom_time :: "'a oom_probe \<Rightarrow> u64" where
  "oom_time (Oom_kill K now current oc) = now"

fun lockup_step :: "'a lockup_probe \<Rightarrow> softlockup_state \<Rightarrow> softlockup_state" where
  "lockup_step (Add_taint K now cpu pid_tgid current flag) s = kprobe_softlockup K now cpu pid_tgid current flag s"

fun lockup_time :: "'a lockup_probe \<Rightarrow> u64" where
  "lockup_time (Add_taint K now cpu pid_tgid current flag) = now"

fun lockup_offer :: "'a lockup_probe \<Rightarrow> softlockup_state \<Rightarrow> u64 option" where
  "lockup_offer (Add_taint K now cpu pid_tgid current flag) s = (if flag = TAINT_SOFTLOCKUP then Some now else None)"

interpretation ooms: limited_output ratelimited_call "\<lambda>r. 1000000000 \<noteq> (0 :: u64) \<and> r = BPF_RATELIMIT 1000000000 1280000"
  "unat (1000000000 :: u64)" "unat (1280000 :: u64)" oom_step oom_rate "\<lambda>s. length (oom_perf_events s)"
  "\<lambda>e s. Some (oom_time e)" oom_time
proof unfold_locales
  fix e :: "'a oom_probe" and s t
  show "oom_rate (oom_step e s) = snd (ratelimited_call (oom_rate s) t) \<and>
      length (oom_perf_events (oom_step e s)) \<le>
        length (oom_perf_events s) + (if fst (ratelimited_call (oom_rate s) t) then 0 else 1)"
    if "Some (oom_time e) = Some t"
    using that by (cases e) (auto simp: oom_kill_process_def bpf_ratelimited_Some Let_def split: prod.split)
qed simp_all

interpretation lockups: limited_output ratelimited_call "\<lambda>r. 1000000000 \<noteq> (0 :: u64) \<and> r = BPF_RATELIMIT 1000000000 1280000"
  "unat (1000000000 :: u64)" "unat (1280000 :: u64)" lockup_step softlockup_rate
  "\<lambda>s. length (softlockup_perf_events s)" lockup_offer lockup_time
proof unfold_locales
  fix e :: "'a lockup_probe" and s t
  show "t = lockup_time e" if "lockup_offer e s = Some t"
    using that by (cases e) (simp split: if_splits)
  show "softlockup_rate (lockup_step e s) = softlockup_rate s \<and>
      length (softlockup_perf_events (lockup_step e s)) = length (softlockup_perf_events s)" if "lockup_offer e s = None"
    using that by (cases e) (auto simp: kprobe_softlockup_def split: if_splits)
  show "softlockup_rate (lockup_step e s) = snd (ratelimited_call (softlockup_rate s) t) \<and>
      length (softlockup_perf_events (lockup_step e s)) \<le>
        length (softlockup_perf_events s) + (if fst (ratelimited_call (softlockup_rate s) t) then 0 else 1)"
    if "lockup_offer e s = Some t"
    using that by (cases e) (auto simp: kprobe_softlockup_def bpf_ratelimited_Some Let_def split: if_splits prod.split)
qed

lemma oom_rate_bound:
  assumes "sorted (map (unat \<circ> oom_time) es)" and "0 \<notin> set (map oom_time es)" and "es \<noteq> []"
  shows "length (oom_perf_events (fold oom_step es \<lparr>oom_perf_events = [], oom_rate = rate_init\<rparr>)) \<le>
    1280000 * ((unat (oom_time (last es)) - unat (oom_time (hd es))) div 1000000000 + 1)"
  using ooms.rate_bound [OF _ assms, of "\<lparr>oom_perf_events = [], oom_rate = rate_init\<rparr>"] by (simp add: rate_init_def)

lemma softlockup_rate_bound:
  assumes "sorted (map (unat \<circ> lockup_time) es)" and "0 \<notin> set (map lockup_time es)" and "es \<noteq> []"
  shows "length (softlockup_perf_events (fold lockup_step es \<lparr>softlockup_perf_events = [], softlockup_rate = rate_init\<rparr>)) \<le>
    1280000 * ((unat (lockup_time (last es)) - unat (lockup_time (hd es))) div 1000000000 + 1)"
  using lockups.rate_bound [OF _ assms, of "\<lparr>softlockup_perf_events = [], softlockup_rate = rate_init\<rparr>"]
  by (simp add: rate_init_def)

end
