(* ===== verification/Spec2Isabelle.thy ===== *)
theory Spec2Isabelle
  imports Ratelimit Io_Control Blk_Throtl Iocost Io_Latency_Facts Io_Health_Facts Io_Trace_Facts Tcp_Retransmit Dropwatch
    Rx_Latency Irq_Tracing Softirq Sched_Tick Profiler Offcpu Runqlat Sched_Blame_Facts Func_Trace Count_Probes System_Events
begin

text \<open>
  A verification development of the eBPF probes of HUATUO (\<^verbatim>\<open>src/bpf\<close>).

  \<^bold>\<open>The program.\<close> Each file of \<^verbatim>\<open>src/bpf\<close> is an object of probes: functions attached to kernel
  functions or tracepoints that read kernel memory, keep state in BPF maps and publish
  counters or events to user space. Headers under \<^verbatim>\<open>src/bpf/include\<close> hold what the objects
  share, and \<^verbatim>\<open>src/bpf/include/abi\<close> the layouts shared with user space. Objects do not share
  maps: they interact with the kernel, with user space and, through the headers, with common
  code.

  \<^bold>\<open>How it is modelled.\<close> An object's maps are the fields of a state record, a probe is a
  function on that state, and a run is a fold over probe firings. A hash map is a partial
  map whose helpers may fail with the errno of an injected fault; a one-element array map is
  an option, \<open>None\<close> being a failed lookup; a per-CPU value is a function of the CPU; an output
  is the list of the events submitted, or delivered where the code looks at the result. Kernel
  memory is a record of partial functions, \<open>None\<close> being a read that faults; it, the clock, the
  CPU and the current task are arguments of a firing. Integers keep their width, so counters
  wrap. A firing is atomic, with one exception: in \<open>Irq_Tracing\<close> the firings of several CPUs
  interleave between their map accesses.

  \<^bold>\<open>Shared parts.\<close>

  \<^item> \<open>Bpf_Prelude\<close>: the map helpers and their contract (locale \<open>bpf_map_ops\<close>), facts on words and
    packed fields, and rows only some firings touch (locales \<open>touched_rows\<close> and
    \<open>thread_calls\<close>).
  \<^item> \<open>Ratelimit\<close> (\<^verbatim>\<open>bpf_ratelimit.h\<close>): the two rate limiters and the limiter kept in a
    map. Locale \<open>rate_limiter\<close> is their contract; \<open>limited_output\<close> carries its bound over to
    every object that asks a limiter before it submits an event.
  \<^item> \<open>Io_Control\<close> (\<^verbatim>\<open>bpf_iocontrol.h\<close>): the packed wait counter, the session status with
    its failure word (locale \<open>failure_latch\<close>) and the device hooks.
  \<^item> \<open>Kernel_Block\<close> (\<^verbatim>\<open>bpf_blkio.h\<close>), \<open>Net_Common\<close> (\<^verbatim>\<open>bpf_skbuff.h\<close>, \<^verbatim>\<open>bpf_skb_filter.h\<close>,
    \<^verbatim>\<open>bpf_net_namespace.h\<close>, \<^verbatim>\<open>bpf_netdevice.h\<close>, \<^verbatim>\<open>bpf_pcap_stub.h\<close>, \<^verbatim>\<open>bpf_perf_output.h\<close>,
    \<^verbatim>\<open>bpf_tracepoint.h\<close>), \<open>Task_Css\<close> (\<^verbatim>\<open>bpf_cgroup.h\<close>) and \<open>Bpf_Sched\<close> (\<^verbatim>\<open>bpf_sched.h\<close>): the
    kernel memory the probes read, and its accessors.
  \<^item> \<open>Wait_Table\<close>: the per-CPU wait tables of the two IO controllers.

  \<^bold>\<open>Block IO.\<close>

  \<^item> \<open>Blk_Throtl\<close> (\<^verbatim>\<open>blk_throtl_tracing.c\<close>): waits of bios in blk-throttle.
    No wait is counted twice in any run, a complete wait is counted once with its length in
    whole units of 10us whatever fires in between, a failed session is frozen, and a monotone
    clock never rolls back.
  \<^item> \<open>Iocost\<close> (\<^verbatim>\<open>iocost_tracing.c\<close>): waits of bios in IOCOST queues, with the per-CPU wake
    frames. The same results, except that a failed session still settles the frames that
    were open, and that a wake callback which woke nobody restores its sample.
  \<^item> \<open>Io_Latency\<close>, \<open>Io_Latency_Facts\<close> (\<^verbatim>\<open>iolatency_tracing.c\<close>, \<^verbatim>\<open>iolatency_probe.c\<close>): latency and
    size histograms. The chunked walks are walks of the first 512 bios of a request, the
    bound of the source, with an overflow reported exactly beyond it; the classifications are
    those by bounds; a container row gets the samples of its host row exactly if the container
    is known and the row can be written; the crypto modes are scanned up to 64, as in the source.
  \<^item> \<open>Io_Health\<close>, \<open>Io_Health_Facts\<close> (\<^verbatim>\<open>io_health.c\<close>): disk and NVMe events. Stale events are
    recognisable by their generation, nested NVMe calls are paired by thread and kind, freezes
    are counted.
  \<^item> \<open>Io_Trace\<close>, \<open>Io_Trace_Facts\<close> (\<^verbatim>\<open>iotracing.c\<close>): which files cause block IO. Requests are
    charged once, records persist, and a recorded path is the chain of at most eight
    ancestors, the bound of the source.

  \<^bold>\<open>Network.\<close>

  \<^item> \<open>Tcp_Retransmit\<close> (\<^verbatim>\<open>tcp_retransmit.c\<close>): the packet built for the filter says what the event
    says.
  \<^item> \<open>Dropwatch\<close> (\<^verbatim>\<open>net_dropwatch.c\<close>): events carry no data of earlier packets, every admitted
    event is delivered or counted as lost, and a hardware drop is reported once.
  \<^item> \<open>Rx_Latency\<close> (\<^verbatim>\<open>net_rx_latency.c\<close>): latencies are exact in both timestamp clocks and
    offered to the limiter exactly from the threshold on.

  \<^bold>\<open>Scheduler, interrupts and memory.\<close>

  \<^item> \<open>Sched_Blame\<close>, \<open>Sched_Blame_Facts\<close> (\<^verbatim>\<open>sched_blame.c\<close>): which target cgroups wait while
    another runs. The compile-time number of extra bitmap words is a parameter, at most three.
    Every sampled slice is delivered, counted as failed or buffered, in order; after a
    switch no buffered slice is 10ms old; bitmap updates are set updates.
  \<^item> \<open>Profiler\<close>, \<open>Offcpu\<close> (\<^verbatim>\<open>bpf_profiler.h\<close>, \<^verbatim>\<open>native_oncpu_profiler.c\<close>,
    \<^verbatim>\<open>native_physical_alloc.c\<close>, \<^verbatim>\<open>native_physical_usage.c\<close>, \<^verbatim>\<open>native_virtual_alloc.c\<close>,
    \<^verbatim>\<open>native_offcpu_profiler.c\<close>): page totals balance, user space drains a buffer set nobody
    writes (locale \<open>double_buffer\<close>), off-CPU time never exceeds the time that passed, and every
    wait is reported phase by phase under the filter and the minimum duration.
  \<^item> \<open>Runqlat\<close> (\<^verbatim>\<open>cpu_runqlat_tracing.c\<close>): the host counters are the sums over the task groups.
  \<^item> \<open>Irq_Tracing\<close> (\<^verbatim>\<open>irqtracing.c\<close>), \<open>Softirq\<close> (\<^verbatim>\<open>system_softirq.c\<close>), \<open>Sched_Tick\<close>
    (\<^verbatim>\<open>sched_tick.c\<close>): no sample is lost or counted twice in any interleaving, the latency
    histogram is that of the run, and idle time is never reported as a late tick.
  \<^item> \<open>Func_Trace\<close> (\<^verbatim>\<open>bpf_func_trace.h\<close>, \<^verbatim>\<open>memory_free_compact.c\<close>, \<^verbatim>\<open>memory_reclaim_events.c\<close>),
    \<open>Count_Probes\<close> (\<^verbatim>\<open>memory_reclaim.c\<close>, \<^verbatim>\<open>perf.c\<close>): calls are timed exactly and events counted
    exactly (locale \<open>count_table\<close>).
  \<^item> \<open>System_Events\<close> (\<^verbatim>\<open>system_ras.c\<close>, \<^verbatim>\<open>memory_oom_kill.c\<close>, \<^verbatim>\<open>system_hungtask.c\<close>,
    \<^verbatim>\<open>system_softlockup.c\<close>, \<^verbatim>\<open>netdev_hw.c\<close>, \<^verbatim>\<open>netdev_txqueue_timeout.c\<close>,
    \<^verbatim>\<open>netdev_bonding_lacp.c\<close>, \<^verbatim>\<open>bpf_cgroup_css.h\<close>, \<^verbatim>\<open>cgroup_css_events.c\<close>,
    \<^verbatim>\<open>cgroup_css_sync.c\<close>): one event per kernel event. Hardware error records are complete up to
    512 bytes, the size of the buffer.

  Every recursion is total; the loops of the source have constant bounds, which are the fuel of
  their models, so no result rests on an arbitrary fuel.

  \<^bold>\<open>Not modelled.\<close> The Go programs that load the objects and read their maps, and the kernel
  itself, whose behaviour enters through the arguments of the firings. The kernel type dumps
  (\<^verbatim>\<open>vmlinux_x86.h\<close>, \<^verbatim>\<open>vmlinux_arm64.h\<close>, \<^verbatim>\<open>bpf_compat_7_0.h\<close>) are declarations without code, nearly
  all lines of the directory. \<^verbatim>\<open>bpf_common.h\<close>, \<^verbatim>\<open>bpf_map.h\<close>, \<^verbatim>\<open>linux_kernel.h\<close>,
  \<^verbatim>\<open>vmlinux_sched.h\<close> and \<^verbatim>\<open>bpf_abi.h\<close> hold constants and compiler attributes. The output of
  \<^verbatim>\<open>bpf_dbg.h\<close> is empty in the default build. Packet filters compiled by user space are
  parameters. Outside \<open>Irq_Tracing\<close>, interleavings inside one firing are not modelled.
\<close>

end
